theory Spec2Isabelle
  imports Main "HOL-Library.Word" "HOL-Library.Multiset" "HOL-Library.List_Lexorder"
    "HOL-Library.Product_Lexorder"
begin

section \<open>Machine integers and errors\<close>

text \<open>
  The C code works on fixed-width unsigned integers. \<open>size_t\<close> is taken to be 64 bits
  wide (LP64), \<open>unsigned int\<close> to be 32 bits wide. Every arithmetic operation of the
  model wraps exactly as the C operation does; conversions between widths are written
  as \<open>ucast\<close>.
\<close>

type_synonym u8 = "8 word"
type_synonym u32 = "32 word"
type_synonym u64 = "64 word"

text \<open>
  A failed \<open>assert\<close>, a call to \<open>abort()\<close> and a call to \<open>fatal()\<close> end the process.
  They are results of the model (\<open>Inl\<close>), never silently dropped.
\<close>

datatype error = AssertionFailed | Aborted | Fatal

section \<open>Channel state (daemon/channel.h, daemon/channel.c)\<close>

datatype channel_side = OURS | THEIRS

text \<open>The C expression \<open>!side\<close> on an \<open>enum channel_side\<close>.\<close>

fun other_side :: "channel_side \<Rightarrow> channel_side" where
  "other_side OURS = THEIRS"
| "other_side THEIRS = OURS"

record channel_oneside =
  pay_msat :: u32
  fee_msat :: u32
  num_htlcs :: u32

text \<open>
  \<open>struct channel_state\<close>. The two-element array \<open>side[2]\<close> is the pair of fields
  \<open>side_OURS\<close> and \<open>side_THEIRS\<close>, read and written through \<open>side\<close> and \<open>set_side\<close>.
\<close>

record channel_state =
  anchor :: u64
  fee_rate :: u32
  num_nondust :: u32
  side_OURS :: channel_oneside
  side_THEIRS :: channel_oneside

fun side :: "channel_state \<Rightarrow> channel_side \<Rightarrow> channel_oneside" where
  "side cs OURS = side_OURS cs"
| "side cs THEIRS = side_THEIRS cs"

fun set_side :: "channel_state \<Rightarrow> channel_side \<Rightarrow> channel_oneside \<Rightarrow> channel_state" where
  "set_side cs OURS v = cs\<lparr>side_OURS := v\<rparr>"
| "set_side cs THEIRS v = cs\<lparr>side_THEIRS := v\<rparr>"

text \<open>
  Modelled from the spec: \<open>struct htlc\<close> (htlc.h is not among the sources). The spec's data
  model gives an HTLC an id, an owner in \<open>{LOCAL, REMOTE}\<close>, its value in milli-satoshi and
  a state; \<open>htlc_channel_side\<close> maps an HTLC owned by LOCAL to \<open>OURS\<close> and one owned by
  REMOTE to \<open>THEIRS\<close>.
\<close>

datatype htlc_side = LOCAL | REMOTE

datatype htlc_state =
    SENT_ADD_HTLC | SENT_ADD_COMMIT | RCVD_ADD_REVOCATION | RCVD_ADD_ACK_COMMIT
  | SENT_ADD_ACK_REVOCATION
  | RCVD_ADD_HTLC | RCVD_ADD_COMMIT | SENT_ADD_REVOCATION | SENT_ADD_ACK_COMMIT
  | RCVD_ADD_ACK_REVOCATION
  | SENT_REMOVE_HTLC | SENT_REMOVE_ACK_REVOCATION
  | RCVD_REMOVE_HTLC | RCVD_REMOVE_ACK_REVOCATION

record htlc =
  htlc_id :: u64
  owner :: htlc_side
  msatoshis :: u64
  rhash :: "u8 list"
  expiry :: u32
  routing :: "u8 list"
  state :: htlc_state
  htlc_r :: "u8 list option"

fun htlc_channel_side :: "htlc \<Rightarrow> channel_side" where
  "htlc_channel_side h = (case owner h of LOCAL \<Rightarrow> OURS | REMOTE \<Rightarrow> THEIRS)"

text \<open>\<open>fee_by_feerate\<close>: \<open>txsize * fee_rate / 2000 * 2\<close> in 64-bit unsigned arithmetic.\<close>

definition fee_by_feerate :: "u64 \<Rightarrow> u64 \<Rightarrow> u64" where
  "fee_by_feerate txsize rate = txsize * rate div 2000 * 2"

definition calculate_fee_msat :: "u64 \<Rightarrow> u64 \<Rightarrow> u64" where
  "calculate_fee_msat nondust rate =
     (let bytes = 338 + 32 * nondust in fee_by_feerate bytes rate * 1000)"

text \<open>
  \<open>pay_fee\<close>: the fields are \<open>uint32_t\<close>, the fee is \<open>uint64_t\<close>; the comparison and the
  arithmetic are done in 64 bits and the results are truncated on assignment.
  Returns the updated side and the amount left unpaid.
\<close>

definition pay_fee :: "channel_oneside \<Rightarrow> u64 \<Rightarrow> channel_oneside \<times> u64" where
  "pay_fee s fee =
     (if (ucast (pay_msat s) :: u64) \<ge> fee
      then (s\<lparr>pay_msat := ucast ((ucast (pay_msat s) :: u64) - fee),
               fee_msat := ucast ((ucast (fee_msat s) :: u64) + fee)\<rparr>, 0)
      else (let remainder = fee - ucast (pay_msat s)
            in (s\<lparr>fee_msat := fee_msat s + pay_msat s, pay_msat := 0\<rparr>, remainder)))"

definition recalculate_fees ::
  "channel_oneside \<Rightarrow> channel_oneside \<Rightarrow> u64 \<Rightarrow> channel_oneside \<times> channel_oneside" where
  "recalculate_fees a b fee =
     (let a1 = a\<lparr>pay_msat := pay_msat a + fee_msat a, fee_msat := 0\<rparr>;
          b1 = b\<lparr>pay_msat := pay_msat b + fee_msat b, fee_msat := 0\<rparr>;
          (a2, ra) = pay_fee a1 (fee div 2);
          (b2, rb) = pay_fee b1 (fee div 2);
          remainder = ra + rb;
          (a3, remainder') = pay_fee a2 remainder;
          (b3, unpaid) = pay_fee b2 remainder'
      in (a3, b3))"

text \<open>The 32-bit sum \<open>a->pay_msat + a->fee_msat + b->pay_msat + b->fee_msat\<close>.\<close>

definition funds32 :: "channel_oneside \<Rightarrow> channel_oneside \<Rightarrow> u32" where
  "funds32 a b = pay_msat a + fee_msat a + pay_msat b + fee_msat b"

text \<open>
  \<open>change_funding\<close>. \<open>htlc_msat\<close> is an \<open>int64_t\<close>, held here as a 64-bit word read in
  two's complement (\<open>0 <s htlc_msat\<close> is the signed test \<open>htlc_msat > 0\<close>). The result
  is the returned flag with both sides; on \<open>false\<close> nothing has been written.
\<close>

definition change_funding ::
  "u64 \<Rightarrow> u64 \<Rightarrow> u64 \<Rightarrow> channel_oneside \<Rightarrow> channel_oneside \<Rightarrow> u64
     \<Rightarrow> error + (bool \<times> channel_oneside \<times> channel_oneside)" where
  "change_funding anchor_satoshis rate htlc_msat a b nondust =
     (let htlcs_total = anchor_satoshis * 1000 - ucast (funds32 a b);
          fee = calculate_fee_msat nondust rate
      in if 0 <s htlc_msat \<and> htlc_msat + fee div 2 > ucast (pay_msat a + fee_msat a)
         then Inr (False, a, b)
         else
           (let a1 = a\<lparr>pay_msat := ucast ((ucast (pay_msat a) :: u64) - htlc_msat)\<rparr>;
                (a2, b2) = recalculate_fees a1 b fee;
                htlcs_total' = htlcs_total + htlc_msat
            in if htlcs_total' = anchor_satoshis * 1000 - ucast (funds32 a2 b2)
               then Inr (True, a2, b2)
               else Inl AssertionFailed))"

definition zero_oneside :: channel_oneside where
  "zero_oneside = \<lparr>pay_msat = 0, fee_msat = 0, num_htlcs = 0\<rparr>"

text \<open>
  \<open>initial_cstate\<close>: \<open>Inr None\<close> is the \<open>NULL\<close> return. The state is allocated zeroed
  (\<open>talz\<close>); the \<open>uint64_t\<close> fee rate is stored in the \<open>uint32_t\<close> field.
\<close>

definition initial_cstate :: "u64 \<Rightarrow> u64 \<Rightarrow> channel_side \<Rightarrow> error + channel_state option" where
  "initial_cstate anchor_satoshis rate funding =
     (let cstate = \<lparr>anchor = anchor_satoshis, fee_rate = ucast rate, num_nondust = 0,
                    side_OURS = zero_oneside, side_THEIRS = zero_oneside\<rparr>
      in if anchor_satoshis \<ge> 2 ^ 32 div 1000 then Inr None
         else
           (let fee = calculate_fee_msat 0 rate
            in if fee > anchor_satoshis * 1000 then Inr None
               else
                 (let funder = (side cstate funding)
                        \<lparr>num_htlcs := 0, pay_msat := ucast (anchor_satoshis * 1000 - fee),
                          fee_msat := ucast fee\<rparr>;
                      fundee = (side cstate (other_side funding))\<lparr>num_htlcs := 0\<rparr>
                  in case change_funding anchor_satoshis rate 0 funder fundee 0 of
                       Inl e \<Rightarrow> Inl e
                     | Inr (ok, funder', fundee') \<Rightarrow>
                         if \<not> ok then Inl AssertionFailed
                         else if (ucast (fee_msat funder') :: u64) \<noteq> fee then Inl AssertionFailed
                         else if fee_msat fundee' \<noteq> 0 then Inl AssertionFailed
                         else Inr (Some (set_side (set_side cstate funding funder')
                                                  (other_side funding) fundee')))))"

text \<open>\<open>adjust_fee\<close> recomputes the fee split for a new rate; it does not store the rate.\<close>

definition adjust_fee :: "channel_state \<Rightarrow> u64 \<Rightarrow> channel_state" where
  "adjust_fee cstate rate =
     (let fee = calculate_fee_msat (ucast (num_nondust cstate)) rate;
          (a, b) = recalculate_fees (side cstate OURS) (side cstate THEIRS) fee
      in set_side (set_side cstate OURS a) THEIRS b)"

text \<open>
  \<open>cstate_add_htlc\<close>. The dust predicate \<open>is_dust\<close> (remove_dust.h) is not among the
  sources and is a parameter. \<open>htlc->msatoshis\<close> is passed as the \<open>int64_t\<close> argument.
\<close>

definition cstate_add_htlc ::
  "(u64 \<Rightarrow> bool) \<Rightarrow> channel_state \<Rightarrow> htlc \<Rightarrow> error + (bool \<times> channel_state)" where
  "cstate_add_htlc is_dust cstate h =
     (let cside = htlc_channel_side h;
          creator = side cstate cside;
          recipient = side cstate (other_side cside);
          nondust = (ucast (num_nondust cstate) :: u64);
          nondust = (if \<not> is_dust (msatoshis h div 1000) then nondust + 1 else nondust)
      in case change_funding (anchor cstate) (ucast (fee_rate cstate)) (msatoshis h)
                creator recipient nondust of
           Inl e \<Rightarrow> Inl e
         | Inr (ok, creator', recipient') \<Rightarrow>
             if \<not> ok then Inr (False, cstate)
             else Inr (True,
                    (set_side (set_side cstate cside (creator'\<lparr>num_htlcs := num_htlcs creator' + 1\<rparr>))
                              (other_side cside) recipient')\<lparr>num_nondust := ucast nondust\<rparr>))"

text \<open>
  \<open>remove_htlc\<close>: the HTLC's value goes to \<open>beneficiary\<close>; \<open>-(int64_t)htlc->msatoshis\<close> is
  the two's complement negation. A \<open>false\<close> from \<open>change_funding\<close> calls \<open>abort()\<close>.
\<close>

definition remove_htlc ::
  "(u64 \<Rightarrow> bool) \<Rightarrow> channel_state \<Rightarrow> channel_side \<Rightarrow> channel_side \<Rightarrow> htlc
     \<Rightarrow> error + channel_state" where
  "remove_htlc is_dust cstate creator beneficiary h =
     (let nondust = (ucast (num_nondust cstate) :: u64);
          dusty = is_dust (msatoshis h div 1000)
      in if \<not> dusty \<and> \<not> nondust > 0 then Inl AssertionFailed
         else
           (let nondust = (if \<not> dusty then nondust - 1 else nondust)
            in case change_funding (anchor cstate) (ucast (fee_rate cstate)) (- msatoshis h)
                      (side cstate beneficiary) (side cstate (other_side beneficiary)) nondust of
                 Inl e \<Rightarrow> Inl e
               | Inr (ok, ben', oth') \<Rightarrow>
                   if \<not> ok then Inl Aborted
                   else
                     (let cstate1 = set_side (set_side cstate beneficiary ben')
                                       (other_side beneficiary) oth'
                      in if \<not> num_htlcs (side cstate1 creator) > 0 then Inl AssertionFailed
                         else
                           Inr ((set_side cstate1 creator
                                   ((side cstate1 creator)
                                      \<lparr>num_htlcs := num_htlcs (side cstate1 creator) - 1\<rparr>))
                                \<lparr>num_nondust := ucast nondust\<rparr>))))"

definition cstate_fail_htlc :: "(u64 \<Rightarrow> bool) \<Rightarrow> channel_state \<Rightarrow> htlc \<Rightarrow> error + channel_state" where
  "cstate_fail_htlc is_dust cstate h =
     remove_htlc is_dust cstate (htlc_channel_side h) (htlc_channel_side h) h"

definition cstate_fulfill_htlc :: "(u64 \<Rightarrow> bool) \<Rightarrow> channel_state \<Rightarrow> htlc \<Rightarrow> error + channel_state" where
  "cstate_fulfill_htlc is_dust cstate h =
     remove_htlc is_dust cstate (htlc_channel_side h) (other_side (htlc_channel_side h)) h"

text \<open>
  The fee one side ends up paying, in the words of the BOLT comment in
  \<open>recalculate_fees\<close>: \<open>A\<close> is that side's balance after the old fee is folded back,
  \<open>B\<close> the other side's, \<open>h\<close> half the fee. A side that can afford its half pays it,
  plus as much of the other side's shortfall as is left to it; a side that cannot pays
  everything it has.
\<close>

definition fee_paid :: "nat \<Rightarrow> nat \<Rightarrow> nat \<Rightarrow> nat" where
  "fee_paid A B h = (if h \<le> A then (if h \<le> B then h else min A (h + (h - B))) else A)"

text \<open>The four balances of a channel state, added as natural numbers.\<close>

definition funds_msat :: "channel_state \<Rightarrow> nat" where
  "funds_msat cs =
     unat (pay_msat (side cs OURS)) + unat (fee_msat (side cs OURS))
     + unat (pay_msat (side cs THEIRS)) + unat (fee_msat (side cs THEIRS))"

text \<open>The milli-satoshi held by a list of HTLCs, added as natural numbers.\<close>

definition held_msat :: "htlc list \<Rightarrow> nat" where
  "held_msat hs = sum_list (map (\<lambda>h. unat (msatoshis h)) hs)"

text \<open>
  The channel states the operations can produce, each with the HTLCs added and not yet
  removed. An HTLC joins the list when \<open>cstate_add_htlc\<close> returns true for it and leaves
  it when it is fulfilled or failed; only an HTLC on the list is fulfilled or failed.
  The HTLCs added are those whose value is not negative as the \<open>int64_t\<close> argument of
  \<open>change_funding\<close>. A failed assertion or \<open>abort()\<close> produces no state.
\<close>

inductive reachable :: "(u64 \<Rightarrow> bool) \<Rightarrow> channel_state \<Rightarrow> htlc list \<Rightarrow> bool"
  for is_dust :: "u64 \<Rightarrow> bool" where
  reach_initial:
    "initial_cstate an rate funding = Inr (Some cs) \<Longrightarrow> reachable is_dust cs []"
| reach_add:
    "reachable is_dust cs hs \<Longrightarrow> unat (msatoshis h) < 2 ^ 63
     \<Longrightarrow> cstate_add_htlc is_dust cs h = Inr (True, cs')
     \<Longrightarrow> reachable is_dust cs' (h # hs)"
| reach_fulfill:
    "reachable is_dust cs hs \<Longrightarrow> h \<in> set hs
     \<Longrightarrow> cstate_fulfill_htlc is_dust cs h = Inr cs'
     \<Longrightarrow> reachable is_dust cs' (remove1 h hs)"
| reach_fail:
    "reachable is_dust cs hs \<Longrightarrow> h \<in> set hs
     \<Longrightarrow> cstate_fail_htlc is_dust cs h = Inr cs'
     \<Longrightarrow> reachable is_dust cs' (remove1 h hs)"
| reach_adjust:
    "reachable is_dust cs hs \<Longrightarrow> reachable is_dust (adjust_fee cs rate) hs"

text \<open>
  A dust predicate to run the model on concrete inputs: outputs below 546 satoshi are
  dust (the threshold Bitcoin nodes customarily relay at). The theorems hold for every
  predicate.
\<close>

definition dust_below_546 :: "u64 \<Rightarrow> bool" where
  "dust_below_546 satoshis = (satoshis < 546)"

text \<open>The HTLC of scenario 2: 100000 satoshi offered by the local side.\<close>

definition funder_htlc :: htlc where
  "funder_htlc = \<lparr>htlc_id = 0, owner = LOCAL, msatoshis = 100000000, rhash = [], expiry = 0,
      routing = [], state = SENT_ADD_HTLC, htlc_r = None\<rparr>"

text \<open>
  Concrete values for the scenarios of the specification: the state after opening a
  1000000-satoshi anchor at 50000 satoshi per kilobyte funded by us, the state after the
  HTLC of scenario 2 is added to it, and an HTLC of value 0 offered by the remote side.
\<close>

definition scenario_1_state :: channel_state where
  "scenario_1_state =
     \<lparr>anchor = 1000000, fee_rate = 50000, num_nondust = 0,
      side_OURS = \<lparr>pay_msat = 983100000, fee_msat = 16900000, num_htlcs = 0\<rparr>,
      side_THEIRS = \<lparr>pay_msat = 0, fee_msat = 0, num_htlcs = 0\<rparr>\<rparr>"

definition scenario_2_state :: channel_state where
  "scenario_2_state =
     \<lparr>anchor = 1000000, fee_rate = 50000, num_nondust = 1,
      side_OURS = \<lparr>pay_msat = 881500000, fee_msat = 18500000, num_htlcs = 1\<rparr>,
      side_THEIRS = \<lparr>pay_msat = 0, fee_msat = 0, num_htlcs = 0\<rparr>\<rparr>"


text \<open>
  Two inputs outside the intended use of the operations: an HTLC whose value is negative
  as an \<open>int64_t\<close> (\<open>2 ^ 64 - 1000\<close>, that is \<open>-1000\<close>), and an HTLC of 200000000 msat
  that was never added.
\<close>

definition negative_htlc :: htlc where
  "negative_htlc = \<lparr>htlc_id = 1, owner = LOCAL, msatoshis = 0xFFFFFFFFFFFFFC18, rhash = [],
      expiry = 0, routing = [], state = SENT_ADD_HTLC, htlc_r = None\<rparr>"

definition stranger_htlc :: htlc where
  "stranger_htlc = \<lparr>htlc_id = 2, owner = LOCAL, msatoshis = 200000000, rhash = [],
      expiry = 0, routing = [], state = SENT_ADD_HTLC, htlc_r = None\<rparr>"
section \<open>Canonical transaction ordering (permute_tx.c)\<close>

text \<open>
  The parts of \<open>struct bitcoin_tx_input\<close> and \<open>struct bitcoin_tx_output\<close> (bitcoin/tx.h,
  not among the sources) that permute_tx.c reads. A script is the buffer \<open>script\<close> with
  its length \<open>script_length\<close>; a txid is a 32-byte array.
\<close>

record tx_script =
  script_length :: u64
  script :: "u8 list"

record bitcoin_tx_input = tx_script +
  txid :: "u8 list"
  index :: u32
  sequence_number :: u32

record bitcoin_tx_output = tx_script +
  amount :: u64

text \<open>
  \<open>memcmp\<close> on the first \<open>n\<close> bytes: negative, zero or positive. Reading past the end
  of a buffer is undefined in C; the model stops comparing there, and the theorems are
  about buffers at least as long as the length compared.
\<close>

fun memcmp :: "u8 list \<Rightarrow> u8 list \<Rightarrow> nat \<Rightarrow> int" where
  "memcmp (x # xs) (y # ys) (Suc n) =
     (if x < y then - 1 else if y < x then 1 else memcmp xs ys n)"
| "memcmp _ _ _ = 0"

definition input_better :: "bitcoin_tx_input \<Rightarrow> bitcoin_tx_input \<Rightarrow> bool" where
  "input_better a b =
     (let cmp = memcmp (txid a) (txid b) 32
      in if cmp \<noteq> 0 then cmp < 0
         else if index a \<noteq> index b then index a < index b
         else if script_length a \<noteq> script_length b then script_length a < script_length b
         else
           (let cmp = memcmp (script a) (script b) (unat (script_length a))
            in if cmp \<noteq> 0 then cmp < 0
               else sequence_number a < sequence_number b))"

definition output_better :: "bitcoin_tx_output \<Rightarrow> bitcoin_tx_output \<Rightarrow> bool" where
  "output_better a b =
     (if amount a \<noteq> amount b then amount a < amount b
      else
        (let len = (if script_length a < script_length b then script_length a
                    else script_length b);
             ret = memcmp (script a) (script b) (unat len)
         in if ret \<noteq> 0 then ret < 0
            else script_length a < script_length b))"

text \<open>
  \<open>find_best_in\<close> and \<open>find_best_out\<close> are the same loop over their comparison:
  \<open>for (i = 1; i < num; i++) if (better(&xs[i], &xs[best])) best = i;\<close>
\<close>

function find_best_loop :: "('a \<Rightarrow> 'a \<Rightarrow> bool) \<Rightarrow> 'a list \<Rightarrow> nat \<Rightarrow> nat \<Rightarrow> nat" where
  "find_best_loop better xs i best =
     (if i < length xs
      then find_best_loop better xs (Suc i) (if better (xs ! i) (xs ! best) then i else best)
      else best)"
  by pat_completeness auto
termination
  by (relation "measure (\<lambda>(better, xs, i, best). length xs - i)") auto

definition find_best_in :: "bitcoin_tx_input list \<Rightarrow> nat" where
  "find_best_in inputs = find_best_loop input_better inputs 1 0"

definition find_best_out :: "bitcoin_tx_output list \<Rightarrow> nat" where
  "find_best_out outputs = find_best_loop output_better outputs 1 0"

text \<open>\<open>swap_inputs\<close> and \<open>swap_outputs\<close>: exchange two elements of the array.\<close>

definition swap :: "'a list \<Rightarrow> nat \<Rightarrow> nat \<Rightarrow> 'a list" where
  "swap xs i1 i2 = (let tmp = xs ! i1 in (xs[i1 := xs ! i2])[i2 := tmp])"

text \<open>
  \<open>permute_inputs\<close>: \<open>for (i = 0; i < num; i++) swap(xs, i, i + find_best(xs + i, num - i))\<close>.
  The array with its length is a list; \<open>xs + i\<close> with \<open>num - i\<close> is \<open>drop i xs\<close>.
\<close>

function permute_inputs_loop :: "bitcoin_tx_input list \<Rightarrow> nat \<Rightarrow> bitcoin_tx_input list" where
  "permute_inputs_loop inputs i =
     (if i < length inputs
      then permute_inputs_loop (swap inputs i (i + find_best_in (drop i inputs))) (Suc i)
      else inputs)"
  by pat_completeness auto
termination
  by (relation "measure (\<lambda>(inputs, i). length inputs - i)") (auto simp: swap_def Let_def)

definition permute_inputs :: "bitcoin_tx_input list \<Rightarrow> bitcoin_tx_input list" where
  "permute_inputs inputs = permute_inputs_loop inputs 0"

function permute_outputs_loop :: "bitcoin_tx_output list \<Rightarrow> nat \<Rightarrow> bitcoin_tx_output list" where
  "permute_outputs_loop outputs i =
     (if i < length outputs
      then permute_outputs_loop (swap outputs i (i + find_best_out (drop i outputs))) (Suc i)
      else outputs)"
  by pat_completeness auto
termination
  by (relation "measure (\<lambda>(outputs, i). length outputs - i)") (auto simp: swap_def Let_def)

definition permute_outputs :: "bitcoin_tx_output list \<Rightarrow> bitcoin_tx_output list" where
  "permute_outputs outputs = permute_outputs_loop outputs 0"

text \<open>
  The order the claim names, as a key under the lexicographic order of tuples and of
  byte strings (where a proper prefix comes first).
\<close>

definition input_key :: "bitcoin_tx_input \<Rightarrow> u8 list \<times> u32 \<times> u64 \<times> u8 list \<times> u32" where
  "input_key a = (txid a, index a, script_length a, script a, sequence_number a)"

definition output_key :: "bitcoin_tx_output \<Rightarrow> u64 \<times> u8 list" where
  "output_key a = (amount a, script a)"

text \<open>
  What the C types promise of the data: a txid of 32 bytes, and a script buffer of
  \<open>script_length\<close> bytes.
\<close>

definition wf_input :: "bitcoin_tx_input \<Rightarrow> bool" where
  "wf_input a = (length (txid a) = 32 \<and> length (script a) = unat (script_length a))"

definition wf_output :: "bitcoin_tx_output \<Rightarrow> bool" where
  "wf_output a = (length (script a) = unat (script_length a))"

text \<open>
  The loop invariant of the selection sort: the first \<open>i\<close> elements are in order and
  none of them is above a later element.
\<close>

definition sorted_upto :: "('a \<Rightarrow> 'k::linorder) \<Rightarrow> 'a list \<Rightarrow> nat \<Rightarrow> bool" where
  "sorted_upto key xs i = (\<forall>p q. p < i \<and> p \<le> q \<and> q < length xs \<longrightarrow> key (xs ! p) \<le> key (xs ! q))"

text \<open>Three inputs and three outputs, out of order, to run the sort on.\<close>

definition example_inputs :: "bitcoin_tx_input list" where
  "example_inputs =
     [\<lparr>script_length = 0, script = [], txid = replicate 32 1, index = 3, sequence_number = 0\<rparr>,
      \<lparr>script_length = 0, script = [], txid = replicate 32 1, index = 2, sequence_number = 0\<rparr>,
      \<lparr>script_length = 0, script = [], txid = replicate 32 0, index = 7, sequence_number = 0\<rparr>]"

definition example_outputs :: "bitcoin_tx_output list" where
  "example_outputs =
     [\<lparr>script_length = 3, script = [1, 2, 3], amount = 5000\<rparr>,
      \<lparr>script_length = 2, script = [1, 2], amount = 5000\<rparr>,
      \<lparr>script_length = 1, script = [9], amount = 1000\<rparr>]"

section \<open>Shachain persistence (daemon/db.c)\<close>

text \<open>
  Modelled from the spec: \<open>struct shachain\<close> (ccan/crypto/shachain, not among the
  sources), which the spec gives as \<open>(min_index, num_valid, known[0..64] of {index,
  32-byte hash})\<close>. The array \<open>known\<close> is a list; \<open>wf_shachain\<close> says that it has its 65
  slots and every hash its 32 bytes.
\<close>

record shachain_entry =
  sc_index :: u64
  sc_hash :: "u8 list"

record shachain =
  min_index :: u64
  num_valid :: u32
  known :: "shachain_entry list"

definition wf_shachain :: "shachain \<Rightarrow> bool" where
  "wf_shachain sc = (length (known sc) = 65 \<and> list_all (\<lambda>e. length (sc_hash e) = 32) (known sc))"

text \<open>
  Modelled from the spec: the push and pull helpers of bitcoin/pullpush.c (not among the
  sources). The spec fixes the layout as little-endian integers; a pull that runs past
  the end of the data leaves a null cursor (\<open>None\<close>), hands back zeroes, and every later
  pull fails as well.
\<close>

definition push_le64 :: "u64 \<Rightarrow> u8 list" where
  "push_le64 v = map (\<lambda>i. ucast (drop_bit (8 * i) v)) [0..<8]"

definition push_le32 :: "u32 \<Rightarrow> u8 list" where
  "push_le32 v = map (\<lambda>i. ucast (drop_bit (8 * i) v)) [0..<4]"

fun le_to_cpu :: "u8 list \<Rightarrow> 'a::len word" where
  "le_to_cpu [] = 0"
| "le_to_cpu (b # bs) = or (ucast b) (push_bit 8 (le_to_cpu bs))"

definition pull :: "u8 list option \<Rightarrow> nat \<Rightarrow> u8 list option \<times> u8 list" where
  "pull cursor n =
     (case cursor of
        None \<Rightarrow> (None, replicate n 0)
      | Some p \<Rightarrow> if length p < n then (None, replicate n 0) else (Some (drop n p), take n p))"

definition pull_le64 :: "u8 list option \<Rightarrow> u8 list option \<times> u64" where
  "pull_le64 cursor = (let (c, bs) = pull cursor 8 in (c, if c = None then 0 else le_to_cpu bs))"

definition pull_le32 :: "u8 list option \<Rightarrow> u8 list option \<times> u32" where
  "pull_le32 cursor = (let (c, bs) = pull cursor 4 in (c, if c = None then 0 else le_to_cpu bs))"

text \<open>
  \<open>linearize_shachain\<close>: the buffer \<open>p\<close> as it stands at the assertion. (The C function
  returns it as a hexadecimal string, to be spliced into the SQL statement as a blob
  literal.) With \<open>num_valid\<close> above the 65 slots the first loop reads past the array and
  leaves more than \<open>SHACHAIN_SIZE\<close> bytes: the assertion fails.
\<close>

definition SHACHAIN_SIZE :: nat where
  "SHACHAIN_SIZE = 2612"

definition linearize_shachain :: "shachain \<Rightarrow> error + u8 list" where
  "linearize_shachain sc =
     (if length (known sc) < unat (num_valid sc) then Inl AssertionFailed
      else
        (let p = push_le64 (min_index sc) @ push_le32 (num_valid sc)
                 @ concat (map (\<lambda>e. push_le64 (sc_index e) @ sc_hash e)
                             (take (unat (num_valid sc)) (known sc)))
                 @ concat (map (\<lambda>i. push_le64 0 @ replicate 32 0)
                             [unat (num_valid sc)..<length (known sc)])
         in if length p = SHACHAIN_SIZE then Inr p else Inl AssertionFailed))"

text \<open>The loop of \<open>delinearize_shachain\<close> over the slots of \<open>known\<close>.\<close>

fun pull_known :: "nat \<Rightarrow> u8 list option \<Rightarrow> shachain_entry list \<times> u8 list option" where
  "pull_known 0 cursor = ([], cursor)"
| "pull_known (Suc n) cursor =
     (let (c1, i) = pull_le64 cursor;
          (c2, h) = pull c1 32;
          (es, c3) = pull_known n c2
      in (\<lparr>sc_index = i, sc_hash = h\<rparr> # es, c3))"

text \<open>
  \<open>delinearize_shachain\<close> overwrites every field of its out-parameter and returns
  \<open>p && len == 0\<close>: the cursor is not null and no byte is left.
\<close>

definition delinearize_shachain :: "u8 list \<Rightarrow> bool \<times> shachain" where
  "delinearize_shachain data =
     (let (c1, mi) = pull_le64 (Some data);
          (c2, nv) = pull_le32 c1;
          (es, c3) = pull_known 65 c2
      in (c3 = Some [], \<lparr>min_index = mi, num_valid = nv, known = es\<rparr>))"

definition zero_entry :: shachain_entry where
  "zero_entry = \<lparr>sc_index = 0, sc_hash = replicate 32 0\<rparr>"

text \<open>A shachain with every slot from \<open>num_valid\<close> on set to zero.\<close>

definition zero_unused :: "shachain \<Rightarrow> shachain" where
  "zero_unused sc = sc\<lparr>known := take (unat (num_valid sc)) (known sc)
                               @ replicate (65 - unat (num_valid sc)) zero_entry\<rparr>"

text \<open>A shachain with no valid entry whose last slot still holds data.\<close>

definition stale_shachain :: shachain where
  "stale_shachain = \<lparr>min_index = 0, num_valid = 0,
      known = replicate 64 zero_entry @ [\<lparr>sc_index = 1, sc_hash = replicate 32 0\<rparr>]\<rparr>"

text \<open>A shachain with one valid entry and clean unused slots.\<close>

definition one_entry_shachain :: shachain where
  "one_entry_shachain = \<lparr>min_index = 0xFFFFFFFFFFFFFFFF, num_valid = 1,
      known = \<lparr>sc_index = 0xFFFFFFFFFFFFFFFF, sc_hash = replicate 32 7\<rparr> # replicate 64 zero_entry\<rparr>"

section \<open>The database's transaction flag (daemon/db.c)\<close>

text \<open>
  \<open>struct db\<close>: the flag \<open>in_transaction\<close> and the SQLite handle. Of the handle the model
  keeps the statements executed so far; which table a statement touches is all that
  matters here. SQLite itself is outside the sources: whether a statement fails is a
  parameter, a function of the statements executed before it and the statement itself.
\<close>

datatype sql =
    BEGIN_IMMEDIATE | COMMIT | ROLLBACK
  | INSERT string | UPDATE string | DELETE string

record db =
  in_transaction :: bool
  statements :: "sql list"

type_synonym engine = "sql list \<Rightarrow> sql \<Rightarrow> bool"

text \<open>\<open>db_exec\<close>: runs one statement; the flag returned says that an error message came back.\<close>

definition db_exec :: "engine \<Rightarrow> sql \<Rightarrow> db \<Rightarrow> bool \<times> db" where
  "db_exec fails q d = (fails (statements d) q, d\<lparr>statements := statements d @ [q]\<rparr>)"

text \<open>
  A run of \<open>errmsg = db_exec(...); if (errmsg) goto out;\<close>: the statements in order up to
  the first that fails.
\<close>

fun db_exec_all :: "engine \<Rightarrow> sql list \<Rightarrow> db \<Rightarrow> bool \<times> db" where
  "db_exec_all fails [] d = (False, d)"
| "db_exec_all fails (q # qs) d =
     (let (errmsg, d1) = db_exec fails q d
      in if errmsg then (True, d1) else db_exec_all fails qs d1)"

definition db_start_transaction :: "engine \<Rightarrow> db \<Rightarrow> error + (bool \<times> db)" where
  "db_start_transaction fails d =
     (if in_transaction d then Inl AssertionFailed
      else
        (let (errmsg, d1) = db_exec fails BEGIN_IMMEDIATE d
         in if \<not> errmsg then Inr (True, d1\<lparr>in_transaction := True\<rparr>) else Inr (False, d1)))"

definition db_abort_transaction :: "engine \<Rightarrow> db \<Rightarrow> error + db" where
  "db_abort_transaction fails d =
     (if \<not> in_transaction d then Inl AssertionFailed
      else
        (let d1 = d\<lparr>in_transaction := False\<rparr>;
             (errmsg, d2) = db_exec fails ROLLBACK d1
         in Inr d2))"

definition db_commit_transaction :: "engine \<Rightarrow> db \<Rightarrow> error + (bool \<times> db)" where
  "db_commit_transaction fails d =
     (if \<not> in_transaction d then Inl AssertionFailed
      else
        (let d1 = d\<lparr>in_transaction := False\<rparr>;
             (errmsg, d2) = db_exec fails COMMIT d1
         in Inr (\<not> errmsg, d2)))"

text \<open>
  The three shapes the writers of db.c have: \<open>assert(in_transaction)\<close> first,
  \<open>assert(!in_transaction)\<close> first, or no assertion at all; then the statements, and
  \<open>return !errmsg\<close>.
\<close>

definition write_in_transaction :: "engine \<Rightarrow> sql list \<Rightarrow> db \<Rightarrow> error + (bool \<times> db)" where
  "write_in_transaction fails qs d =
     (if \<not> in_transaction d then Inl AssertionFailed
      else (let (errmsg, d1) = db_exec_all fails qs d in Inr (\<not> errmsg, d1)))"

definition write_outside_transaction :: "engine \<Rightarrow> sql list \<Rightarrow> db \<Rightarrow> error + (bool \<times> db)" where
  "write_outside_transaction fails qs d =
     (if in_transaction d then Inl AssertionFailed
      else (let (errmsg, d1) = db_exec_all fails qs d in Inr (\<not> errmsg, d1)))"

definition write_unchecked :: "engine \<Rightarrow> sql list \<Rightarrow> db \<Rightarrow> error + (bool \<times> db)" where
  "write_unchecked fails qs d = (let (errmsg, d1) = db_exec_all fails qs d in Inr (\<not> errmsg, d1))"

definition db_set_anchor :: "engine \<Rightarrow> db \<Rightarrow> error + (bool \<times> db)" where
  "db_set_anchor fails =
     write_in_transaction fails
       [INSERT ''anchors'', INSERT ''commit_info'', INSERT ''commit_info'', INSERT ''shachain'']"

definition db_update_next_revocation_hash :: "engine \<Rightarrow> db \<Rightarrow> error + (bool \<times> db)" where
  "db_update_next_revocation_hash fails =
     write_in_transaction fails [UPDATE ''their_visible_state'']"

definition db_new_htlc :: "engine \<Rightarrow> db \<Rightarrow> error + (bool \<times> db)" where
  "db_new_htlc fails = write_in_transaction fails [INSERT ''htlcs'']"

definition db_update_htlc_state :: "engine \<Rightarrow> db \<Rightarrow> error + (bool \<times> db)" where
  "db_update_htlc_state fails = write_in_transaction fails [UPDATE ''htlcs'']"

definition db_update_state :: "engine \<Rightarrow> db \<Rightarrow> error + (bool \<times> db)" where
  "db_update_state fails = write_in_transaction fails [UPDATE ''peers'']"

text \<open>
  \<open>db_htlc_fulfilled\<close> asserts nothing: ``When called from their_htlc_added() and it's a
  payment to us, we are in a transaction. When called due to PKT_UPDATE_FULFILL_HTLC we
  are not.''
\<close>

definition db_htlc_fulfilled :: "engine \<Rightarrow> db \<Rightarrow> error + (bool \<times> db)" where
  "db_htlc_fulfilled fails = write_unchecked fails [UPDATE ''htlcs'']"

definition db_new_commit_info :: "engine \<Rightarrow> db \<Rightarrow> error + (bool \<times> db)" where
  "db_new_commit_info fails = write_in_transaction fails [UPDATE ''commit_info'']"

definition db_remove_their_prev_revocation_hash :: "engine \<Rightarrow> db \<Rightarrow> error + (bool \<times> db)" where
  "db_remove_their_prev_revocation_hash fails =
     write_in_transaction fails [UPDATE ''commit_info'']"

definition db_save_shachain :: "engine \<Rightarrow> db \<Rightarrow> error + (bool \<times> db)" where
  "db_save_shachain fails = write_in_transaction fails [UPDATE ''shachain'']"

definition db_add_commit_map :: "engine \<Rightarrow> db \<Rightarrow> error + (bool \<times> db)" where
  "db_add_commit_map fails = write_in_transaction fails [INSERT ''their_commitments'']"

definition db_begin_shutdown :: "engine \<Rightarrow> db \<Rightarrow> error + (bool \<times> db)" where
  "db_begin_shutdown fails = write_in_transaction fails [INSERT ''closing'']"

definition db_set_our_closing_script :: "engine \<Rightarrow> db \<Rightarrow> error + (bool \<times> db)" where
  "db_set_our_closing_script fails = write_in_transaction fails [UPDATE ''closing'']"

definition db_set_their_closing_script :: "engine \<Rightarrow> db \<Rightarrow> error + (bool \<times> db)" where
  "db_set_their_closing_script fails = write_outside_transaction fails [UPDATE ''closing'']"

text \<open>
  \<open>db_update_our_closing\<close> asserts nothing: ``For first time, we are in transaction to
  make it atomic with peer->state update. Later calls are not.''
\<close>

definition db_update_our_closing :: "engine \<Rightarrow> db \<Rightarrow> error + (bool \<times> db)" where
  "db_update_our_closing fails = write_unchecked fails [UPDATE ''closing'']"

definition db_update_their_closing :: "engine \<Rightarrow> db \<Rightarrow> error + (bool \<times> db)" where
  "db_update_their_closing fails = write_outside_transaction fails [UPDATE ''closing'']"

text \<open>
  \<open>db_set_visible_state\<close> and \<open>db_create_peer\<close> open and close their own transaction:
  begin, the inserts, commit; on any error message, \<open>db_abort_transaction\<close>.
\<close>

definition own_transaction :: "engine \<Rightarrow> sql list \<Rightarrow> db \<Rightarrow> error + (bool \<times> db)" where
  "own_transaction fails qs d =
     (case db_start_transaction fails d of
        Inl e \<Rightarrow> Inl e
      | Inr (started, d1) \<Rightarrow>
          if \<not> started then Inr (False, d1)
          else
            (let (errmsg, d2) = db_exec_all fails qs d1
             in if errmsg
                then (case db_abort_transaction fails d2 of
                        Inl e \<Rightarrow> Inl e | Inr d3 \<Rightarrow> Inr (False, d3))
                else
                  (case db_commit_transaction fails d2 of
                     Inl e \<Rightarrow> Inl e
                   | Inr (committed, d3) \<Rightarrow>
                       if committed then Inr (True, d3)
                       else (case db_abort_transaction fails d3 of
                               Inl e \<Rightarrow> Inl e | Inr d4 \<Rightarrow> Inr (False, d4)))))"

definition db_set_visible_state :: "engine \<Rightarrow> db \<Rightarrow> error + (bool \<times> db)" where
  "db_set_visible_state fails = own_transaction fails [INSERT ''their_visible_state'']"

definition db_create_peer :: "engine \<Rightarrow> db \<Rightarrow> error + (bool \<times> db)" where
  "db_create_peer fails =
     own_transaction fails [INSERT ''peers'', INSERT ''peer_secrets'', INSERT ''peer_address'']"

text \<open>
  \<open>db_forget_peer\<close>: asserts that the peer is closed, then deletes the peer's rows from
  every table in a transaction of its own; any failure is \<open>fatal\<close>.
\<close>

definition db_forget_peer :: "engine \<Rightarrow> bool \<Rightarrow> db \<Rightarrow> error + db" where
  "db_forget_peer fails closed d =
     (if \<not> closed then Inl AssertionFailed
      else
        (case db_start_transaction fails d of
           Inl e \<Rightarrow> Inl e
         | Inr (started, d1) \<Rightarrow>
             if \<not> started then Inl Fatal
             else
               (let (errmsg, d2) = db_exec_all fails
                      (map DELETE [''anchors'', ''htlcs'', ''commit_info'', ''shachain'',
                         ''their_visible_state'', ''their_commitments'', ''peer_secrets'',
                         ''closing'', ''peers'']) d1
                in if errmsg then Inl Fatal
                   else
                     (case db_commit_transaction fails d2 of
                        Inl e \<Rightarrow> Inl e
                      | Inr (committed, d3) \<Rightarrow> if committed then Inr d3 else Inl Fatal))))"

text \<open>
  The writers of db.c that are called within a protocol step, by the flag they insist on.
\<close>

definition asserting_writers :: "(engine \<Rightarrow> db \<Rightarrow> error + (bool \<times> db)) list" where
  "asserting_writers =
     [db_set_anchor, db_update_next_revocation_hash, db_new_htlc, db_update_htlc_state,
      db_update_state, db_new_commit_info, db_remove_their_prev_revocation_hash,
      db_save_shachain, db_add_commit_map, db_begin_shutdown, db_set_our_closing_script]"

definition unchecked_writers :: "(engine \<Rightarrow> db \<Rightarrow> error + (bool \<times> db)) list" where
  "unchecked_writers = [db_htlc_fulfilled, db_update_our_closing]"

text \<open>A database engine on which no statement fails, to run the model.\<close>

definition never_fails :: engine where
  "never_fails history q = False"

text \<open>An engine on which every \<open>COMMIT\<close> fails and nothing else does.\<close>

definition commit_fails :: engine where
  "commit_fails history q = (q = COMMIT)"

text \<open>The database as \<open>db_init\<close> leaves it: the flag cleared, nothing executed yet.\<close>

definition fresh_db :: db where
  "fresh_db = \<lparr>in_transaction = False, statements = []\<rparr>"
section \<open>Accepting packets (daemon/packets.c)\<close>

text \<open>
  An acceptor returns \<open>NULL\<close> or an \<open>ERROR\<close> packet made by \<open>pkt_err\<close>; only the error
  packet's \<open>problem\<close> text is kept. \<open>%PRIu64\<close> in a format string prints the decimal
  digits.
\<close>

datatype pkt = PKT_ERROR string

function decimal :: "nat \<Rightarrow> string" where
  "decimal n = (if n < 10 then [char_of (48 + n)]
                else decimal (n div 10) @ [char_of (48 + n mod 10)])"
  by pat_completeness auto
termination
  by (relation "measure id") auto

text \<open>
  The \<open>Locktime\<close> message of the wire protocol, which carries either seconds or blocks
  (or, as any protobuf \<open>oneof\<close>, nothing), and the packets read here.
\<close>

datatype locktime = LOCKTIME_NOT_SET | LOCKTIME_SECONDS u32 | LOCKTIME_BLOCKS u32

record UpdateAddHtlc =
  u_id :: u64
  u_amount_msat :: u64
  u_r_hash :: "u8 list"
  u_expiry :: locktime
  u_route :: "u8 list"

record UpdateRevocation =
  r_revocation_preimage :: "u8 list"
  r_next_revocation_hash :: "u8 list"

text \<open>
  The conversions of bitcoin/locktime.c and protobuf_convert.c are not among the sources
  and are parameters: \<open>proto_to_abs_locktime\<close> (\<open>None\<close> when it returns false),
  \<open>abs_locktime_is_seconds\<close> and \<open>abs_locktime_to_blocks\<close> on \<open>struct abs_locktime\<close>, a
  32-bit value.
\<close>

record locktime_ops =
  proto_to_abs_locktime :: "locktime \<Rightarrow> u32 option"
  abs_locktime_is_seconds :: "u32 \<Rightarrow> bool"
  abs_locktime_to_blocks :: "u32 \<Rightarrow> u32"

text \<open>
  What the acceptors read and write of \<open>struct peer\<close> (peer.h, not among the sources):
  \<open>peer->their_prev_revocation_hash\<close> (a pointer, \<open>None\<close> when null),
  \<open>peer->their_preimages\<close>, \<open>peer->remote.commit->commit_num\<close>,
  \<open>peer->remote.next_revocation_hash\<close>, \<open>peer->remote.staging_cstate\<close> and the HTLC
  registry \<open>peer->htlcs\<close>.
\<close>

record peer =
  their_prev_revocation_hash :: "u8 list option"
  their_preimages :: shachain
  remote_commit_num :: u64
  remote_next_revocation_hash :: "u8 list"
  remote_staging_cstate :: channel_state
  htlcs :: "htlc_side \<times> u64 \<Rightarrow> htlc option"

text \<open>
  Modelled from the spec: the HTLC registry (htlc.h and peer.c are not among the
  sources), a collection keyed by (owner, id) with \<open>get(owner, id)\<close> and \<open>new_htlc\<close>. The
  owner of an HTLC follows from its state: the ladder of an HTLC offered locally and the
  removal we receive belong to LOCAL, the ladder of an HTLC received and the removal we
  send to REMOTE.
\<close>

fun htlc_state_owner :: "htlc_state \<Rightarrow> htlc_side" where
  "htlc_state_owner SENT_ADD_HTLC = LOCAL"
| "htlc_state_owner SENT_ADD_COMMIT = LOCAL"
| "htlc_state_owner RCVD_ADD_REVOCATION = LOCAL"
| "htlc_state_owner RCVD_ADD_ACK_COMMIT = LOCAL"
| "htlc_state_owner SENT_ADD_ACK_REVOCATION = LOCAL"
| "htlc_state_owner RCVD_REMOVE_HTLC = LOCAL"
| "htlc_state_owner RCVD_REMOVE_ACK_REVOCATION = LOCAL"
| "htlc_state_owner RCVD_ADD_HTLC = REMOTE"
| "htlc_state_owner RCVD_ADD_COMMIT = REMOTE"
| "htlc_state_owner SENT_ADD_REVOCATION = REMOTE"
| "htlc_state_owner SENT_ADD_ACK_COMMIT = REMOTE"
| "htlc_state_owner RCVD_ADD_ACK_REVOCATION = REMOTE"
| "htlc_state_owner SENT_REMOVE_HTLC = REMOTE"
| "htlc_state_owner SENT_REMOVE_ACK_REVOCATION = REMOTE"

definition htlc_get :: "(htlc_side \<times> u64 \<Rightarrow> htlc option) \<Rightarrow> u64 \<Rightarrow> htlc_side \<Rightarrow> htlc option" where
  "htlc_get registry i sd = registry (sd, i)"

definition peer_new_htlc ::
  "peer \<Rightarrow> u64 \<Rightarrow> u64 \<Rightarrow> u8 list \<Rightarrow> u32 \<Rightarrow> u8 list \<Rightarrow> htlc_state \<Rightarrow> htlc \<times> peer" where
  "peer_new_htlc p i msat rh exp route st =
     (let h = \<lparr>htlc_id = i, owner = htlc_state_owner st, msatoshis = msat, rhash = rh,
                expiry = exp, routing = route, state = st, htlc_r = None\<rparr>
      in (h, p\<lparr>htlcs := (htlcs p)((htlc_state_owner st, i) \<mapsto> h)\<rparr>))"

text \<open>
  \<open>accept_pkt_htlc_add\<close>: the packet returned (\<open>None\<close> is \<open>NULL\<close>), the peer afterwards,
  and the HTLC stored through \<open>h\<close> when there is one.
\<close>

definition accept_pkt_htlc_add ::
  "locktime_ops \<Rightarrow> peer \<Rightarrow> UpdateAddHtlc \<Rightarrow> pkt option \<times> peer \<times> htlc option" where
  "accept_pkt_htlc_add ops p u =
     (if u_amount_msat u = 0 then (Some (PKT_ERROR ''Invalid amount_msat''), p, None)
      else
        (case proto_to_abs_locktime ops (u_expiry u) of
           None \<Rightarrow> (Some (PKT_ERROR ''Invalid HTLC expiry''), p, None)
         | Some e \<Rightarrow>
             if abs_locktime_is_seconds ops e
             then (Some (PKT_ERROR ''HTLC expiry in seconds not supported!''), p, None)
             else if num_htlcs (side (remote_staging_cstate p) THEIRS) = 300
             then (Some (PKT_ERROR ''Too many HTLCs''), p, None)
             else if htlc_get (htlcs p) (u_id u) REMOTE \<noteq> None
             then (Some (PKT_ERROR (''HTLC id '' @ decimal (unat (u_id u)) @ '' clashes for you'')),
                   p, None)
             else
               (let (h, p') = peer_new_htlc p (u_id u) (u_amount_msat u) (u_r_hash u)
                                (abs_locktime_to_blocks ops e) (u_route u) RCVD_ADD_HTLC
                in (None, p', Some h))))"

text \<open>
  \<open>accept_pkt_revocation\<close>. SHA-256 and \<open>shachain_add_hash\<close> (ccan) are not among the
  sources and are parameters; \<open>shachain_add_hash\<close> gives the updated chain, or \<open>None\<close>
  when it returns false.
\<close>

definition accept_pkt_revocation ::
  "(u8 list \<Rightarrow> u8 list) \<Rightarrow> (shachain \<Rightarrow> u64 \<Rightarrow> u8 list \<Rightarrow> shachain option)
     \<Rightarrow> peer \<Rightarrow> UpdateRevocation \<Rightarrow> error + (pkt option \<times> peer)" where
  "accept_pkt_revocation sha256 shachain_add_hash p rv =
     (case their_prev_revocation_hash p of
        None \<Rightarrow> Inl AssertionFailed
      | Some prev \<Rightarrow>
          (let preimage = r_revocation_preimage rv;
               h = sha256 preimage
           in if h \<noteq> prev then Inr (Some (PKT_ERROR ''complete preimage incorrect''), p)
              else
                (case shachain_add_hash (their_preimages p)
                        (0xFFFFFFFFFFFFFFFF - (remote_commit_num p - 1)) preimage of
                   None \<Rightarrow> Inr (Some (PKT_ERROR ''preimage not next in shachain''), p)
                 | Some chain \<Rightarrow>
                     Inr (None, p\<lparr>their_preimages := chain,
                                  their_prev_revocation_hash := None,
                                  remote_next_revocation_hash := r_next_revocation_hash rv\<rparr>))))"

text \<open>
  Stand-ins for the parameters, to run the model; the theorems hold for every choice.
  The locktime conversions follow Bitcoin's convention (values below 500000000 are block
  heights, the others seconds). The hash is not SHA-256, only some function on bytes.
  The shachain follows the spec's words: it accepts the first hash and after that only
  an index below the last one, and files the hash in the slot given by the number of
  trailing zero bits of the index.
\<close>

definition bitcoin_locktime_ops :: locktime_ops where
  "bitcoin_locktime_ops =
     \<lparr>proto_to_abs_locktime =
        (\<lambda>l. case l of
                LOCKTIME_NOT_SET \<Rightarrow> None
              | LOCKTIME_SECONDS s \<Rightarrow> if s < 500000000 then None else Some s
              | LOCKTIME_BLOCKS b \<Rightarrow> if b < 500000000 then Some b else None),
      abs_locktime_is_seconds = (\<lambda>l. 500000000 \<le> l),
      abs_locktime_to_blocks = (\<lambda>l. l)\<rparr>"

definition stand_in_hash :: "u8 list \<Rightarrow> u8 list" where
  "stand_in_hash bs = map (\<lambda>b. b + 1) (rev bs)"

fun count_trailing_zeroes :: "nat \<Rightarrow> u64 \<Rightarrow> nat" where
  "count_trailing_zeroes 0 w = 0"
| "count_trailing_zeroes (Suc n) w =
     (if bit w 0 then 0 else Suc (count_trailing_zeroes n (drop_bit 1 w)))"

definition descending_shachain_add_hash :: "shachain \<Rightarrow> u64 \<Rightarrow> u8 list \<Rightarrow> shachain option" where
  "descending_shachain_add_hash chain i h =
     (if num_valid chain \<noteq> 0 \<and> \<not> i < min_index chain then None
      else
        (let pos = count_trailing_zeroes 64 i
         in if length (known chain) \<le> pos then None
            else Some (chain\<lparr>known := (known chain)[pos := \<lparr>sc_index = i, sc_hash = h\<rparr>],
                             num_valid := (if num_valid chain < of_nat (pos + 1)
                                           then of_nat (pos + 1) else num_valid chain),
                             min_index := i\<rparr>)))"

text \<open>
  A peer that has sent its first commitment and waits for the revocation; the same peer
  once the revocation is accepted; the same peer with 300 and with 301 HTLCs counted on
  the remote staging side; and two packets.
\<close>

definition example_peer :: peer where
  "example_peer =
     \<lparr>their_prev_revocation_hash = Some (stand_in_hash (replicate 32 97)),
      their_preimages = \<lparr>min_index = 0, num_valid = 0, known = replicate 65 zero_entry\<rparr>,
      remote_commit_num = 1,
      remote_next_revocation_hash = replicate 32 0,
      remote_staging_cstate = scenario_1_state,
      htlcs = Map.empty\<rparr>"

definition revoked_peer :: peer where
  "revoked_peer =
     example_peer
       \<lparr>their_preimages :=
          \<lparr>min_index = 0xFFFFFFFFFFFFFFFF, num_valid = 1,
           known = \<lparr>sc_index = 0xFFFFFFFFFFFFFFFF, sc_hash = replicate 32 97\<rparr>
                   # replicate 64 zero_entry\<rparr>,
        their_prev_revocation_hash := None,
        remote_next_revocation_hash := replicate 32 5\<rparr>"

definition full_peer :: peer where
  "full_peer =
     example_peer
       \<lparr>remote_staging_cstate := scenario_1_state
          \<lparr>side_THEIRS := \<lparr>pay_msat = 0, fee_msat = 0, num_htlcs = 300\<rparr>\<rparr>\<rparr>"

definition crowded_peer :: peer where
  "crowded_peer =
     example_peer
       \<lparr>remote_staging_cstate := scenario_1_state
          \<lparr>side_THEIRS := \<lparr>pay_msat = 0, fee_msat = 0, num_htlcs = 301\<rparr>\<rparr>\<rparr>"

definition example_add :: UpdateAddHtlc where
  "example_add = \<lparr>u_id = 0, u_amount_msat = 1000, u_r_hash = replicate 32 0,
      u_expiry = LOCKTIME_BLOCKS 500, u_route = []\<rparr>"

definition example_revocation :: UpdateRevocation where
  "example_revocation =
     \<lparr>r_revocation_preimage = replicate 32 97, r_next_revocation_hash = replicate 32 5\<rparr>"

section \<open>Word arithmetic used throughout\<close>

lemma unat32_lt: "unat (x::u32) < 4294967296"
  using unsigned_less[of x, where 'a=nat] by simp

lemma unat64_lt: "unat (x::u64) < 18446744073709551616"
  using unsigned_less[of x, where 'a=nat] by simp

lemma unat_ucast_up32: "unat (ucast (p::u32) :: u64) = unat p"
proof -
  have "unat p < 2 ^ 64" using unat32_lt[of p] by simp
  then show ?thesis by (simp add: unsigned_ucast_eq take_bit_nat_eq_self)
qed

lemma unat_ucast_down32: "unat (ucast (x::u64) :: u32) = unat x mod 2 ^ 32"
  by (simp add: unsigned_ucast_eq take_bit_eq_mod)

lemma mod64_mod32: "(x mod 18446744073709551616) mod 4294967296 = (x::nat) mod 4294967296"
  by (rule mod_mod_cancel) simp

lemma ucast_down_add: "(ucast ((ucast (p::u32) :: u64) + fee) :: u32) = p + ucast fee"
  by (simp add: word_unat_eq_iff unat_ucast_down32 unat_ucast_up32 unat_word_ariths mod64_mod32)
     (simp add: mod_simps)

lemma ucast_down_sub: "(ucast ((ucast (p::u32) :: u64) - fee) :: u32) = p - ucast fee"
proof -
  have "(ucast ((ucast p :: u64) - fee) :: u32) + ucast fee = ucast ((ucast p :: u64) - fee + fee)"
    by (simp only: word_unat_eq_iff unat_ucast_down32 unat_word_ariths)
       (simp add: mod64_mod32 mod_simps)
  also have "\<dots> = p" by (simp add: ucast_up_ucast_id is_up)
  finally show ?thesis by (simp add: algebra_simps)
qed

lemma unat_mul_lt:
  "unat (a::u64) * unat b < 18446744073709551616 \<Longrightarrow> unat (a * b) = unat a * unat b"
  by (simp add: unat_word_ariths)

lemma unat_add_lt:
  "unat (a::u64) + unat b < 18446744073709551616 \<Longrightarrow> unat (a + b) = unat a + unat b"
  by (simp add: unat_word_ariths)

section \<open>The commitment fee\<close>

text \<open>
  Read in the natural numbers, the fee is the formula of BOLT 2 whenever the byte count
  times the rate fits in 64 bits; beyond that the C multiplication wraps.
\<close>

lemma calculate_fee_msat_nat:
  assumes fit: "(338 + 32 * unat n) * unat rate < 18446744073709551616"
  shows "unat (calculate_fee_msat n rate) = (338 + 32 * unat n) * unat rate div 2000 * 2 * 1000"
proof (cases "rate = 0")
  case True
  then show ?thesis by (simp add: calculate_fee_msat_def fee_by_feerate_def)
next
  case False
  then have rpos: "1 \<le> unat rate" by (simp add: unat_gt_0 Suc_leI)
  define x where "x = (338 + 32 * unat n) * unat rate"
  have xl: "x < 18446744073709551616" using fit by (simp add: x_def)
  have "(338 + 32 * unat n) * 1 \<le> (338 + 32 * unat n) * unat rate"
    using rpos by (rule mult_le_mono2)
  then have "338 + 32 * unat n \<le> x" by (simp only: x_def mult_1_right)
  then have b: "338 + 32 * unat n < 18446744073709551616" using xl by linarith
  have u32n: "unat (32 * n) = 32 * unat n" using b by (simp add: unat_mul_lt)
  have ub: "unat (338 + 32 * n) = 338 + 32 * unat n" using b u32n by (simp add: unat_add_lt)
  have ux: "unat ((338 + 32 * n) * rate) = x" using fit ub by (simp add: unat_mul_lt x_def)
  define d where "d = (338 + 32 * n) * rate div 2000"
  have ud: "unat d = x div 2000" by (simp add: unat_div ux d_def)
  have le: "x div 2000 * 2 * 1000 \<le> x" by simp
  have "unat d * unat (2::u64) < 18446744073709551616" using le xl ud by simp
  then have u2: "unat (d * 2) = unat d * 2" using unat_mul_lt[of d 2] by simp
  have "unat (d * 2) * unat (1000::u64) < 18446744073709551616" using le xl ud u2 by simp
  then have u3: "unat (d * 2 * 1000) = unat (d * 2) * 1000"
    using unat_mul_lt[of "d * 2" 1000] by simp
  have "calculate_fee_msat n rate = d * 2 * 1000"
    by (simp only: calculate_fee_msat_def fee_by_feerate_def Let_def d_def)
  then show ?thesis by (simp only: u3 u2 ud x_def)
qed

lemma calculate_fee_msat_even: "even (calculate_fee_msat n rate)"
  by (simp add: calculate_fee_msat_def fee_by_feerate_def)

lemma fee_scenario_1: "calculate_fee_msat 0 50000 = 16900000"
  by (simp add: calculate_fee_msat_def fee_by_feerate_def)

lemma initial_cstate_scenario_1:
  "initial_cstate 1000000 50000 funder = Inr (Some
     (set_side (set_side
        \<lparr>anchor = 1000000, fee_rate = 50000, num_nondust = 0,
          side_OURS = zero_oneside, side_THEIRS = zero_oneside\<rparr>
        funder \<lparr>pay_msat = 983100000, fee_msat = 16900000, num_htlcs = 0\<rparr>)
        (other_side funder) \<lparr>pay_msat = 0, fee_msat = 0, num_htlcs = 0\<rparr>))"
  by (cases funder)
     (simp_all add: initial_cstate_def fee_scenario_1 change_funding_def Let_def
        recalculate_fees_def pay_fee_def funds32_def zero_oneside_def)

lemma fee_rate_overflow: "calculate_fee_msat 0 0x8000000000000000 = 0"
  by (simp add: calculate_fee_msat_def fee_by_feerate_def)

text \<open>
  C2 (as amended). For every number of non-dust HTLCs \<open>n\<close> and fee rate \<open>r\<close> whose product
  \<open>(338 + 32 * n) * r\<close> is below \<open>2 ^ 64\<close>, the commitment fee in milli-satoshi is the
  integer \<open>((338 + 32 * n) * r / 2000 * 2) * 1000\<close> with truncating division; without the
  bound the code computes the same expression in wrap-around 64-bit arithmetic. For
  \<open>n = 0\<close> and \<open>r = 50000\<close> the fee is 16900000 msat, and the initial state of a
  1000000-satoshi anchor gives the funder \<open>pay_msat = 983100000\<close>, \<open>fee_msat = 16900000\<close>
  and the fundee 0 and 0.
\<close>

theorem C2_fee_computation:
  "((338 + 32 * unat n) * unat rate < 2 ^ 64 \<longrightarrow>
        unat (calculate_fee_msat n rate) = ((338 + 32 * unat n) * unat rate div 2000 * 2) * 1000)
   \<and> calculate_fee_msat n rate = ((338 + 32 * n) * rate div 2000 * 2) * 1000
   \<and> unat (calculate_fee_msat 0 50000) = 16900000
   \<and> initial_cstate 1000000 50000 funder = Inr (Some
        (set_side (set_side
           \<lparr>anchor = 1000000, fee_rate = 50000, num_nondust = 0,
             side_OURS = zero_oneside, side_THEIRS = zero_oneside\<rparr>
           funder \<lparr>pay_msat = 983100000, fee_msat = 16900000, num_htlcs = 0\<rparr>)
           (other_side funder) \<lparr>pay_msat = 0, fee_msat = 0, num_htlcs = 0\<rparr>))"
proof (intro conjI impI)
  show "calculate_fee_msat n rate = ((338 + 32 * n) * rate div 2000 * 2) * 1000"
    by (simp only: calculate_fee_msat_def fee_by_feerate_def Let_def)
  show "unat (calculate_fee_msat n rate) = ((338 + 32 * unat n) * unat rate div 2000 * 2) * 1000"
    if "(338 + 32 * unat n) * unat rate < 2 ^ 64"
    using that calculate_fee_msat_nat[of n rate] by simp
  show "unat (calculate_fee_msat 0 50000) = 16900000" by (simp add: fee_scenario_1)
  show "initial_cstate 1000000 50000 funder = Inr (Some
        (set_side (set_side
           \<lparr>anchor = 1000000, fee_rate = 50000, num_nondust = 0,
             side_OURS = zero_oneside, side_THEIRS = zero_oneside\<rparr>
           funder \<lparr>pay_msat = 983100000, fee_msat = 16900000, num_htlcs = 0\<rparr>)
           (other_side funder) \<lparr>pay_msat = 0, fee_msat = 0, num_htlcs = 0\<rparr>))"
    by (rule initial_cstate_scenario_1)
qed

theorem C2_fee_computation_witness:
  "(338 + 32 * unat (1::u64)) * unat (50000::u64) < 2 ^ 64
   \<and> unat (calculate_fee_msat 1 50000) = 18500000
   \<and> initial_cstate 1000000 50000 OURS = Inr (Some scenario_1_state)"
  using C2_fee_computation[of 1 50000 OURS]
  by (simp add: scenario_1_state_def zero_oneside_def)

text \<open>
  The claim as stated, for every \<open>n\<close> and \<open>r\<close>, fails where the 64-bit product wraps: at
  \<open>n = 0\<close> and \<open>r = 2 ^ 63\<close> the product \<open>338 * 2 ^ 63\<close> is a multiple of \<open>2 ^ 64\<close>, the code
  returns a fee of 0 and the formula gives 3117499748456914222000.
\<close>

theorem C2_overflow_counterexample:
  "unat (calculate_fee_msat 0 0x8000000000000000) = 0
   \<and> ((338 + 32 * unat (0::u64)) * unat (0x8000000000000000::u64) div 2000 * 2) * 1000
       = (3117499748456914222000::nat)"
  by (simp add: fee_rate_overflow)
lemma spos64_iff: "0 <s (m::u64) \<longleftrightarrow> 0 < unat m \<and> unat m < 9223372036854775808"
proof -
  have s: "sint m = (uint m + 9223372036854775808) mod 18446744073709551616 - 9223372036854775808"
    by (simp add: sint_uint signed_take_bit_eq_take_bit_shift take_bit_eq_mod)
  have b: "0 \<le> uint m" "uint m < 18446744073709551616"
    using uint_lt2p[of m] by simp_all
  have u: "int (unat m) = uint m" by simp
  have lt_iff: "(unat m < 9223372036854775808) = (uint m < 9223372036854775808)"
    using u by linarith
  have pos_iff: "(0 < unat m) = (0 < uint m)" using u by linarith
  show ?thesis
  proof (cases "uint m < 9223372036854775808")
    case True
    then have "(uint m + 9223372036854775808) mod 18446744073709551616 = uint m + 9223372036854775808"
      using b by (simp add: mod_pos_pos_trivial)
    then have "sint m = uint m" using s by simp
    then show ?thesis using True by (simp add: word_sless_alt lt_iff pos_iff)
  next
    case False
    have "uint m + 9223372036854775808 = (uint m - 9223372036854775808) + 18446744073709551616"
      by linarith
    then have "(uint m + 9223372036854775808) mod 18446744073709551616
          = ((uint m - 9223372036854775808) + 18446744073709551616) mod 18446744073709551616"
      by (simp only:)
    also have "\<dots> = (uint m - 9223372036854775808) mod 18446744073709551616"
      by (rule mod_add_self2)
    also have "\<dots> = uint m - 9223372036854775808"
      using False b by (simp add: mod_pos_pos_trivial)
    finally have "sint m = uint m - 18446744073709551616" using s by simp
    then have "sint m < 0" using b by simp
    then show ?thesis using False by (simp add: word_sless_alt lt_iff pos_iff)
  qed
qed

section \<open>Fee sharing\<close>

lemma pay_fee_total:
  "pay_fee s fee = (s', rem) \<Longrightarrow> pay_msat s' + fee_msat s' = pay_msat s + fee_msat s"
  by (auto simp: pay_fee_def Let_def ucast_down_add ucast_down_sub split: if_splits)

lemma pay_fee_num_htlcs: "pay_fee s fee = (s', rem) \<Longrightarrow> num_htlcs s' = num_htlcs s"
  by (auto simp: pay_fee_def Let_def split: if_splits)

lemma pay_fee_nat:
  assumes pf: "pay_fee s fee = (s', rem)"
    and nw: "unat (pay_msat s) + unat (fee_msat s) < 4294967296"
  shows "unat (pay_msat s') = unat (pay_msat s) - min (unat (pay_msat s)) (unat fee)"
    and "unat (fee_msat s') = unat (fee_msat s) + min (unat (pay_msat s)) (unat fee)"
    and "unat rem = unat fee - min (unat (pay_msat s)) (unat fee)"
proof -
  show "unat (pay_msat s') = unat (pay_msat s) - min (unat (pay_msat s)) (unat fee)"
  proof (cases "fee \<le> ucast (pay_msat s)")
    case True
    then have le: "unat fee \<le> unat (pay_msat s)" by (simp add: word_le_nat_alt unat_ucast_up32)
    from True pf have "pay_msat s' = ucast ((ucast (pay_msat s) :: u64) - fee)"
      by (auto simp: pay_fee_def)
    then have "unat (pay_msat s') = (unat (pay_msat s) - unat fee) mod 4294967296"
      using True by (simp add: unat_ucast_down32 unat_sub unat_ucast_up32)
    then show ?thesis using le unat32_lt[of "pay_msat s"] by (simp add: min_def)
  next
    case False
    then have le: "unat (pay_msat s) < unat fee" by (simp add: word_le_nat_alt unat_ucast_up32)
    from False pf have "pay_msat s' = 0" by (auto simp: pay_fee_def Let_def)
    then show ?thesis using le by (simp add: min_def)
  qed
  show "unat (fee_msat s') = unat (fee_msat s) + min (unat (pay_msat s)) (unat fee)"
  proof (cases "fee \<le> ucast (pay_msat s)")
    case True
    then have le: "unat fee \<le> unat (pay_msat s)" by (simp add: word_le_nat_alt unat_ucast_up32)
    from True pf have "fee_msat s' = ucast ((ucast (fee_msat s) :: u64) + fee)"
      by (auto simp: pay_fee_def)
    then have "unat (fee_msat s') = (unat (fee_msat s) + unat fee) mod 4294967296"
      by (simp add: unat_ucast_down32 unat_word_ariths unat_ucast_up32 mod64_mod32)
    then show ?thesis using le nw by (simp add: min_def)
  next
    case False
    then have le: "unat (pay_msat s) < unat fee" by (simp add: word_le_nat_alt unat_ucast_up32)
    from False pf have "fee_msat s' = fee_msat s + pay_msat s" by (auto simp: pay_fee_def Let_def)
    then have "unat (fee_msat s') = (unat (fee_msat s) + unat (pay_msat s)) mod 4294967296"
      by (simp add: unat_word_ariths)
    then show ?thesis using le nw by (simp add: min_def)
  qed
  show "unat rem = unat fee - min (unat (pay_msat s)) (unat fee)"
  proof (cases "fee \<le> ucast (pay_msat s)")
    case True
    then have le: "unat fee \<le> unat (pay_msat s)" by (simp add: word_le_nat_alt unat_ucast_up32)
    from True pf have "rem = 0" by (auto simp: pay_fee_def)
    then show ?thesis using le by (simp add: min_def)
  next
    case False
    then have le: "unat (pay_msat s) < unat fee" by (simp add: word_le_nat_alt unat_ucast_up32)
    have le': "ucast (pay_msat s) \<le> fee" using False by simp
    from False pf have "rem = fee - ucast (pay_msat s)" by (auto simp: pay_fee_def Let_def)
    then show ?thesis using le by (simp add: unat_sub[OF le'] unat_ucast_up32 min_def)
  qed
qed

lemma recalculate_fees_steps:
  assumes rf: "recalculate_fees a b fee = (a', b')"
  obtains a2 ra b2 rb r3 r4 where
    "pay_fee (a\<lparr>pay_msat := pay_msat a + fee_msat a, fee_msat := 0\<rparr>) (fee div 2) = (a2, ra)"
    "pay_fee (b\<lparr>pay_msat := pay_msat b + fee_msat b, fee_msat := 0\<rparr>) (fee div 2) = (b2, rb)"
    "pay_fee a2 (ra + rb) = (a', r3)"
    "pay_fee b2 r3 = (b', r4)"
  using rf by (auto simp: recalculate_fees_def Let_def split: prod.splits)

lemma recalculate_fees_total:
  assumes rf: "recalculate_fees a b fee = (a', b')"
  shows "pay_msat a' + fee_msat a' = pay_msat a + fee_msat a"
    and "pay_msat b' + fee_msat b' = pay_msat b + fee_msat b"
    and "num_htlcs a' = num_htlcs a" and "num_htlcs b' = num_htlcs b"
proof -
  from rf obtain a2 ra b2 rb r3 r4 where
    1: "pay_fee (a\<lparr>pay_msat := pay_msat a + fee_msat a, fee_msat := 0\<rparr>) (fee div 2) = (a2, ra)" and
    2: "pay_fee (b\<lparr>pay_msat := pay_msat b + fee_msat b, fee_msat := 0\<rparr>) (fee div 2) = (b2, rb)" and
    3: "pay_fee a2 (ra + rb) = (a', r3)" and
    4: "pay_fee b2 r3 = (b', r4)"
    by (rule recalculate_fees_steps)
  show "pay_msat a' + fee_msat a' = pay_msat a + fee_msat a"
    using pay_fee_total[OF 1] pay_fee_total[OF 3] by simp
  show "pay_msat b' + fee_msat b' = pay_msat b + fee_msat b"
    using pay_fee_total[OF 2] pay_fee_total[OF 4] by simp
  show "num_htlcs a' = num_htlcs a"
    using pay_fee_num_htlcs[OF 1] pay_fee_num_htlcs[OF 3] by simp
  show "num_htlcs b' = num_htlcs b"
    using pay_fee_num_htlcs[OF 2] pay_fee_num_htlcs[OF 4] by simp
qed

lemma recalculate_fees_nat:
  assumes rf: "recalculate_fees a b fee = (a', b')"
  defines "A \<equiv> unat (pay_msat a + fee_msat a)" and "B \<equiv> unat (pay_msat b + fee_msat b)"
    and "h \<equiv> unat fee div 2"
  shows "unat (fee_msat a') = fee_paid A B h"
    and "unat (fee_msat b') = fee_paid B A h"
    and "unat (pay_msat a') = A - fee_paid A B h"
    and "unat (pay_msat b') = B - fee_paid B A h"
proof -
  define a1 where "a1 = a\<lparr>pay_msat := pay_msat a + fee_msat a, fee_msat := 0\<rparr>"
  define b1 where "b1 = b\<lparr>pay_msat := pay_msat b + fee_msat b, fee_msat := 0\<rparr>"
  have a1: "unat (pay_msat a1) = A" "unat (fee_msat a1) = 0" by (simp_all add: a1_def A_def)
  have b1: "unat (pay_msat b1) = B" "unat (fee_msat b1) = 0" by (simp_all add: b1_def B_def)
  have Alt: "A < 4294967296" unfolding A_def by (rule unat32_lt)
  have Blt: "B < 4294967296" unfolding B_def by (rule unat32_lt)
  have hh: "unat (fee div 2) = h" by (simp add: h_def unat_div)
  have hlt: "h < 9223372036854775808" using unat64_lt[of fee] by (simp add: h_def)
  from rf obtain a2 ra b2 rb r3 r4 where
    1: "pay_fee a1 (fee div 2) = (a2, ra)" and
    2: "pay_fee b1 (fee div 2) = (b2, rb)" and
    3: "pay_fee a2 (ra + rb) = (a', r3)" and
    4: "pay_fee b2 r3 = (b', r4)"
    unfolding a1_def b1_def by (rule recalculate_fees_steps)
  have nw1: "unat (pay_msat a1) + unat (fee_msat a1) < 4294967296" using a1 Alt by simp
  have nw2: "unat (pay_msat b1) + unat (fee_msat b1) < 4294967296" using b1 Blt by simp
  note s1 = pay_fee_nat[OF 1 nw1, unfolded a1 hh]
  note s2 = pay_fee_nat[OF 2 nw2, unfolded b1 hh]
  have a2: "unat (pay_msat a2) = A - min A h" "unat (fee_msat a2) = min A h" "unat ra = h - min A h"
    using s1 by simp_all
  have b2: "unat (pay_msat b2) = B - min B h" "unat (fee_msat b2) = min B h" "unat rb = h - min B h"
    using s2 by simp_all
  have rr: "unat (ra + rb) = (h - min A h) + (h - min B h)"
    using hlt by (simp add: unat_word_ariths a2 b2)
  have nw3: "unat (pay_msat a2) + unat (fee_msat a2) < 4294967296" using a2 Alt by simp
  have nw4: "unat (pay_msat b2) + unat (fee_msat b2) < 4294967296" using b2 Blt by simp
  note s3 = pay_fee_nat[OF 3 nw3, unfolded a2 rr]
  note s4 = pay_fee_nat[OF 4 nw4, unfolded b2]
  show fa: "unat (fee_msat a') = fee_paid A B h"
    unfolding s3(2) fee_paid_def by (auto simp: min_def)
  show fb: "unat (fee_msat b') = fee_paid B A h"
    unfolding s4(2) s3(3) fee_paid_def by (auto simp: min_def)
  show "unat (pay_msat a') = A - fee_paid A B h"
    unfolding s3(1) fee_paid_def by (auto simp: min_def)
  show "unat (pay_msat b') = B - fee_paid B A h"
    unfolding s4(1) s3(3) fee_paid_def by (auto simp: min_def)
qed

lemma recalculate_fees_funds32:
  assumes "recalculate_fees a b fee = (a', b')"
  shows "funds32 a' b' = funds32 a b"
  using recalculate_fees_total(1,2)[OF assms] by (simp add: funds32_def add.assoc)

lemma change_funding_eq:
  "change_funding an rate m a b n =
     (if 0 <s m \<and> ucast (pay_msat a + fee_msat a) < m + calculate_fee_msat n rate div 2
      then Inr (False, a, b)
      else if (ucast (funds32 a b) :: u64) - m = ucast (funds32 a b - ucast m)
           then Inr (True, recalculate_fees (a\<lparr>pay_msat := pay_msat a - ucast m\<rparr>) b
                             (calculate_fee_msat n rate))
           else Inl AssertionFailed)"
proof -
  define a1 where "a1 = a\<lparr>pay_msat := pay_msat a - ucast m\<rparr>"
  obtain a2 b2 where rf: "recalculate_fees a1 b (calculate_fee_msat n rate) = (a2, b2)"
    by (cases "recalculate_fees a1 b (calculate_fee_msat n rate)")
  have f: "funds32 a2 b2 = funds32 a b - ucast m"
    unfolding recalculate_fees_funds32[OF rf] by (simp add: funds32_def a1_def)
  have as: "(an * 1000 - ucast (funds32 a b) + m = an * 1000 - (ucast (funds32 a2 b2) :: u64))
            \<longleftrightarrow> ((ucast (funds32 a b) :: u64) - m = ucast (funds32 a b - ucast m))"
    unfolding f by (auto simp: algebra_simps)
  show ?thesis
    unfolding change_funding_def Let_def ucast_down_sub a1_def[symmetric] rf
    using as by simp
qed

lemma change_funding_zero:
  "change_funding an rate 0 a b n = Inr (True, recalculate_fees a b (calculate_fee_msat n rate))"
  by (simp add: change_funding_eq)

lemma oneside_eqI:
  "unat (pay_msat x) = unat (pay_msat y) \<Longrightarrow> unat (fee_msat x) = unat (fee_msat y)
   \<Longrightarrow> num_htlcs x = num_htlcs y \<Longrightarrow> (x::channel_oneside) = y"
  by (cases x, cases y) (simp add: word_unat_eq_iff)

lemma recalculate_fees_funder:
  assumes X: "unat x < 4294967296" and le: "fee \<le> x" and ev: "even fee"
  shows "recalculate_fees \<lparr>pay_msat = ucast (x - fee), fee_msat = ucast fee, num_htlcs = 0\<rparr>
           zero_oneside fee
         = (\<lparr>pay_msat = ucast (x - fee), fee_msat = ucast fee, num_htlcs = 0\<rparr>, zero_oneside)"
proof -
  define a where "a = \<lparr>pay_msat = ucast (x - fee) :: u32, fee_msat = ucast fee, num_htlcs = 0\<rparr>"
  obtain a' b' where rf: "recalculate_fees a zero_oneside fee = (a', b')"
    by (cases "recalculate_fees a zero_oneside fee")
  have fle: "unat fee \<le> unat x" using le by (simp add: word_le_nat_alt)
  have up: "unat (pay_msat a) = unat x - unat fee"
    using X fle by (simp add: a_def unat_ucast_down32 unat_sub[OF le])
  have uf: "unat (fee_msat a) = unat fee"
    using X fle by (simp add: a_def unat_ucast_down32)
  have A: "unat (pay_msat a + fee_msat a) = unat x"
    using X fle by (simp add: unat_word_ariths up uf)
  have B: "unat (pay_msat zero_oneside + fee_msat zero_oneside) = 0"
    by (simp add: zero_oneside_def)
  have ev': "2 * (unat fee div 2) = unat fee"
  proof -
    have "bit (unat fee) 0 = bit fee 0" by (simp add: bit_unsigned_iff)
    then have "even (unat fee)" using ev by (simp add: bit_0)
    then show ?thesis by simp
  qed
  note n = recalculate_fees_nat[OF rf, unfolded A B]
  note t = recalculate_fees_total(3,4)[OF rf]
  have fa: "fee_paid (unat x) 0 (unat fee div 2) = unat fee"
    using fle ev' by (auto simp: fee_paid_def min_def)
  have fb: "fee_paid 0 (unat x) (unat fee div 2) = 0"
    by (auto simp: fee_paid_def)
  have "a' = a"
    by (rule oneside_eqI) (simp_all add: n fa up uf t)
  moreover have "b' = zero_oneside"
    by (rule oneside_eqI) (simp_all add: n fb t, simp_all add: zero_oneside_def)
  ultimately show ?thesis using rf by (simp add: a_def)
qed

lemma anchor_msat_fits:
  assumes "\<not> (4294967::u64) \<le> an"
  shows "unat (an * 1000) = unat an * 1000" and "unat (an * 1000) < 4294967296"
proof -
  have l: "unat an < 4294967" using assms by (simp add: word_le_nat_alt not_le)
  then have "unat an * unat (1000::u64) < 18446744073709551616" by simp
  then show e: "unat (an * 1000) = unat an * 1000" using unat_mul_lt[of an 1000] by simp
  show "unat (an * 1000) < 4294967296" unfolding e using l by simp
qed

lemma initial_cstate_eq:
  "initial_cstate an rate funding =
     (if 4294967 \<le> an \<or> an * 1000 < calculate_fee_msat 0 rate then Inr None
      else Inr (Some (set_side (set_side
              \<lparr>anchor = an, fee_rate = ucast rate, num_nondust = 0,
                side_OURS = zero_oneside, side_THEIRS = zero_oneside\<rparr>
              funding \<lparr>pay_msat = ucast (an * 1000 - calculate_fee_msat 0 rate),
                       fee_msat = ucast (calculate_fee_msat 0 rate), num_htlcs = 0\<rparr>)
              (other_side funding) zero_oneside)))"
proof (cases "4294967 \<le> an \<or> an * 1000 < calculate_fee_msat 0 rate")
  case True
  then show ?thesis by (auto simp: initial_cstate_def Let_def)
next
  case False
  define fee where "fee = calculate_fee_msat 0 rate"
  from False have big: "\<not> (4294967::u64) \<le> an" and le: "fee \<le> an * 1000"
    by (simp_all add: fee_def not_less)
  have ev: "even fee" unfolding fee_def by (rule calculate_fee_msat_even)
  note rf = recalculate_fees_funder[OF anchor_msat_fits(2)[OF big] le ev]
  have fl: "unat fee < 4294967296"
    using le anchor_msat_fits(2)[OF big] by (simp add: word_le_nat_alt)
  have uu: "(ucast (ucast fee :: u32) :: u64) = fee"
    using fl by (simp add: word_unat_eq_iff unat_ucast_up32 unat_ucast_down32)
  show ?thesis
    using False
    by (cases funding)
       (simp_all add: initial_cstate_def Let_def change_funding_zero fee_def[symmetric]
          rf[unfolded zero_oneside_def] uu zero_oneside_def)
qed

section \<open>Fee sharing and scenario 2\<close>

lemma scenario_2:
  assumes m: "msatoshis h = 100000000" and nd: "\<not> is_dust 100000"
  shows "cstate_add_htlc is_dust
           (set_side (set_side
              \<lparr>anchor = 1000000, fee_rate = 50000, num_nondust = 0,
                side_OURS = zero_oneside, side_THEIRS = zero_oneside\<rparr>
              (htlc_channel_side h) \<lparr>pay_msat = 983100000, fee_msat = 16900000, num_htlcs = 0\<rparr>)
              (other_side (htlc_channel_side h)) \<lparr>pay_msat = 0, fee_msat = 0, num_htlcs = 0\<rparr>) h
         = Inr (True,
             set_side (set_side
              \<lparr>anchor = 1000000, fee_rate = 50000, num_nondust = 1,
                side_OURS = zero_oneside, side_THEIRS = zero_oneside\<rparr>
              (htlc_channel_side h) \<lparr>pay_msat = 881500000, fee_msat = 18500000, num_htlcs = 1\<rparr>)
              (other_side (htlc_channel_side h)) \<lparr>pay_msat = 0, fee_msat = 0, num_htlcs = 0\<rparr>)"
proof -
  have f: "calculate_fee_msat 1 50000 = 18500000"
    by (simp add: calculate_fee_msat_def fee_by_feerate_def)
  show ?thesis
    using nd
    by (cases "owner h")
       (simp_all add: cstate_add_htlc_def m Let_def f change_funding_def recalculate_fees_def
          pay_fee_def funds32_def zero_oneside_def)
qed

text \<open>
  C3. Recalculating fees folds each side's current \<open>fee_msat\<close> back into its
  \<open>pay_msat\<close> (\<open>A\<close> and \<open>B\<close> are the folded balances), then each side pays half the fee
  \<open>h\<close>; a side that cannot cover its half pays its whole balance, the shortfall goes to
  the other side, which pays at most what it has left. The balances that remain are the
  folded balances less the fees paid. Adding one non-dust 100000-satoshi HTLC from the
  funder to the initial state of scenario 1 leaves the funder with
  \<open>pay_msat = 881500000\<close> and \<open>fee_msat = 18500000\<close>, the fundee with 0 and 0.
\<close>

theorem C3_fee_sharing:
  "(recalculate_fees a b fee = (a', b') \<longrightarrow>
      (let A = unat (pay_msat a + fee_msat a); B = unat (pay_msat b + fee_msat b);
           h = unat fee div 2
       in unat (fee_msat a') = (if h \<le> A then (if h \<le> B then h else min A (h + (h - B))) else A)
        \<and> unat (fee_msat b') = (if h \<le> B then (if h \<le> A then h else min B (h + (h - A))) else B)
        \<and> unat (pay_msat a') = A - unat (fee_msat a')
        \<and> unat (pay_msat b') = B - unat (fee_msat b')))
   \<and> (msatoshis h = 100000000 \<and> \<not> is_dust 100000
        \<and> initial_cstate 1000000 50000 (htlc_channel_side h) = Inr (Some cs) \<longrightarrow>
        (\<exists>cs'. cstate_add_htlc is_dust cs h = Inr (True, cs')
           \<and> side cs' (htlc_channel_side h)
               = \<lparr>pay_msat = 881500000, fee_msat = 18500000, num_htlcs = 1\<rparr>
           \<and> side cs' (other_side (htlc_channel_side h))
               = \<lparr>pay_msat = 0, fee_msat = 0, num_htlcs = 0\<rparr>))"
proof (intro conjI impI)
  assume rf: "recalculate_fees a b fee = (a', b')"
  note n = recalculate_fees_nat[OF rf]
  show "let A = unat (pay_msat a + fee_msat a); B = unat (pay_msat b + fee_msat b);
           h = unat fee div 2
       in unat (fee_msat a') = (if h \<le> A then (if h \<le> B then h else min A (h + (h - B))) else A)
        \<and> unat (fee_msat b') = (if h \<le> B then (if h \<le> A then h else min B (h + (h - A))) else B)
        \<and> unat (pay_msat a') = A - unat (fee_msat a')
        \<and> unat (pay_msat b') = B - unat (fee_msat b')"
    unfolding Let_def n by (simp add: fee_paid_def)
next
  assume as: "msatoshis h = 100000000 \<and> \<not> is_dust 100000
        \<and> initial_cstate 1000000 50000 (htlc_channel_side h) = Inr (Some cs)"
  then have cs: "cs = set_side (set_side
              \<lparr>anchor = 1000000, fee_rate = 50000, num_nondust = 0,
                side_OURS = zero_oneside, side_THEIRS = zero_oneside\<rparr>
              (htlc_channel_side h) \<lparr>pay_msat = 983100000, fee_msat = 16900000, num_htlcs = 0\<rparr>)
              (other_side (htlc_channel_side h)) \<lparr>pay_msat = 0, fee_msat = 0, num_htlcs = 0\<rparr>"
    by (simp add: initial_cstate_scenario_1)
  from as have m: "msatoshis h = 100000000" and nd: "\<not> is_dust 100000" by simp_all
  show "\<exists>cs'. cstate_add_htlc is_dust cs h = Inr (True, cs')
           \<and> side cs' (htlc_channel_side h)
               = \<lparr>pay_msat = 881500000, fee_msat = 18500000, num_htlcs = 1\<rparr>
           \<and> side cs' (other_side (htlc_channel_side h))
               = \<lparr>pay_msat = 0, fee_msat = 0, num_htlcs = 0\<rparr>"
    unfolding cs using scenario_2[of h is_dust] m nd by (cases "owner h") simp_all
qed

theorem C3_fee_sharing_witness:
  "recalculate_fees \<lparr>pay_msat = 883100000, fee_msat = 16900000, num_htlcs = 0\<rparr>
      \<lparr>pay_msat = 0, fee_msat = 0, num_htlcs = 0\<rparr> 18500000
     = (\<lparr>pay_msat = 881500000, fee_msat = 18500000, num_htlcs = 0\<rparr>,
        \<lparr>pay_msat = 0, fee_msat = 0, num_htlcs = 0\<rparr>)
   \<and> msatoshis funder_htlc = 100000000 \<and> \<not> dust_below_546 100000
   \<and> initial_cstate 1000000 50000 (htlc_channel_side funder_htlc) = Inr (Some
        \<lparr>anchor = 1000000, fee_rate = 50000, num_nondust = 0,
         side_OURS = \<lparr>pay_msat = 983100000, fee_msat = 16900000, num_htlcs = 0\<rparr>,
         side_THEIRS = \<lparr>pay_msat = 0, fee_msat = 0, num_htlcs = 0\<rparr>\<rparr>)
   \<and> (\<exists>cs'. cstate_add_htlc dust_below_546
           \<lparr>anchor = 1000000, fee_rate = 50000, num_nondust = 0,
            side_OURS = \<lparr>pay_msat = 983100000, fee_msat = 16900000, num_htlcs = 0\<rparr>,
            side_THEIRS = \<lparr>pay_msat = 0, fee_msat = 0, num_htlcs = 0\<rparr>\<rparr> funder_htlc
          = Inr (True, cs')
         \<and> side cs' OURS = \<lparr>pay_msat = 881500000, fee_msat = 18500000, num_htlcs = 1\<rparr>
         \<and> side cs' THEIRS = \<lparr>pay_msat = 0, fee_msat = 0, num_htlcs = 0\<rparr>)"
proof -
  have r: "recalculate_fees \<lparr>pay_msat = 883100000, fee_msat = 16900000, num_htlcs = 0\<rparr>
      \<lparr>pay_msat = 0, fee_msat = 0, num_htlcs = 0\<rparr> 18500000
     = (\<lparr>pay_msat = 881500000, fee_msat = 18500000, num_htlcs = 0\<rparr>,
        \<lparr>pay_msat = 0, fee_msat = 0, num_htlcs = 0\<rparr>)"
    by (simp add: recalculate_fees_def pay_fee_def Let_def)
  have i: "initial_cstate 1000000 50000 (htlc_channel_side funder_htlc) = Inr (Some
        \<lparr>anchor = 1000000, fee_rate = 50000, num_nondust = 0,
         side_OURS = \<lparr>pay_msat = 983100000, fee_msat = 16900000, num_htlcs = 0\<rparr>,
         side_THEIRS = \<lparr>pay_msat = 0, fee_msat = 0, num_htlcs = 0\<rparr>\<rparr>)"
    by (simp add: initial_cstate_scenario_1 funder_htlc_def zero_oneside_def)
  have m: "msatoshis funder_htlc = 100000000" by (simp add: funder_htlc_def)
  have d: "\<not> dust_below_546 100000" by (simp add: dust_below_546_def)
  have s: "htlc_channel_side funder_htlc = OURS" by (simp add: funder_htlc_def)
  show ?thesis
    using C3_fee_sharing[of "\<lparr>pay_msat = 883100000, fee_msat = 16900000, num_htlcs = 0\<rparr>"
        "\<lparr>pay_msat = 0, fee_msat = 0, num_htlcs = 0\<rparr>" 18500000
        "\<lparr>pay_msat = 881500000, fee_msat = 18500000, num_htlcs = 0\<rparr>"
        "\<lparr>pay_msat = 0, fee_msat = 0, num_htlcs = 0\<rparr>" funder_htlc dust_below_546
        "\<lparr>anchor = 1000000, fee_rate = 50000, num_nondust = 0,
         side_OURS = \<lparr>pay_msat = 983100000, fee_msat = 16900000, num_htlcs = 0\<rparr>,
         side_THEIRS = \<lparr>pay_msat = 0, fee_msat = 0, num_htlcs = 0\<rparr>\<rparr>"]
      r i m d s
    by simp
qed

section \<open>The initial channel state\<close>

lemma fail_cond_nat:
  "(4294967 \<le> an \<or> an * 1000 < (fee::u64)) \<longleftrightarrow> (4294967 \<le> unat an \<or> unat an * 1000 < unat fee)"
proof (cases "(4294967::u64) \<le> an")
  case True
  then show ?thesis by (simp add: word_le_nat_alt)
next
  case False
  then show ?thesis
    using anchor_msat_fits(1)[OF False] by (simp add: word_le_nat_alt word_less_nat_alt)
qed

text \<open>
  C8 (amended). \<open>initial_cstate\<close> returns \<open>NULL\<close> exactly when the anchor is at least
  4294967 satoshi (the truncated quotient \<open>2^32 / 1000\<close>; the boundary value itself is
  refused) or \<open>anchor_satoshis * 1000\<close> is less than the fee computed for zero HTLCs at
  the given rate. Otherwise it returns a state, none of its assertions failing, with no
  HTLC on either side, in which the funder holds \<open>anchor_satoshis * 1000\<close> less the fee and
  pays the entire fee, and the fundee holds nothing.
\<close>

theorem C8_initial_cstate:
  "(initial_cstate an rate funding = Inr None
      \<longleftrightarrow> (4294967 \<le> unat an \<or> unat an * 1000 < unat (calculate_fee_msat 0 rate)))
   \<and> (\<not> (4294967 \<le> unat an \<or> unat an * 1000 < unat (calculate_fee_msat 0 rate)) \<longrightarrow>
        (\<exists>cs. initial_cstate an rate funding = Inr (Some cs)
           \<and> anchor cs = an \<and> num_nondust cs = 0
           \<and> num_htlcs (side cs funding) = 0 \<and> num_htlcs (side cs (other_side funding)) = 0
           \<and> unat (pay_msat (side cs funding)) = unat an * 1000 - unat (calculate_fee_msat 0 rate)
           \<and> unat (fee_msat (side cs funding)) = unat (calculate_fee_msat 0 rate)
           \<and> pay_msat (side cs (other_side funding)) = 0
           \<and> fee_msat (side cs (other_side funding)) = 0))"
proof (intro conjI impI)
  show "initial_cstate an rate funding = Inr None
      \<longleftrightarrow> (4294967 \<le> unat an \<or> unat an * 1000 < unat (calculate_fee_msat 0 rate))"
    unfolding fail_cond_nat[symmetric] by (simp add: initial_cstate_eq)
next
  define fee where "fee = calculate_fee_msat 0 rate"
  assume "\<not> (4294967 \<le> unat an \<or> unat an * 1000 < unat (calculate_fee_msat 0 rate))"
  then have ok: "\<not> (4294967 \<le> an \<or> an * 1000 < fee)"
    unfolding fail_cond_nat[symmetric] fee_def .
  then have big: "\<not> (4294967::u64) \<le> an" and le: "fee \<le> an * 1000" by (simp_all add: not_less)
  have fle: "unat fee \<le> unat an * 1000"
    using le anchor_msat_fits(1)[OF big] by (simp add: word_le_nat_alt)
  have X: "unat an * 1000 < 4294967296" using anchor_msat_fits[OF big] by simp
  have up: "unat (ucast (an * 1000 - fee) :: u32) = unat an * 1000 - unat fee"
    using X fle by (simp add: unat_ucast_down32 unat_sub[OF le] anchor_msat_fits(1)[OF big])
  have uf: "unat (ucast fee :: u32) = unat fee"
    using X fle by (simp add: unat_ucast_down32)
  show "\<exists>cs. initial_cstate an rate funding = Inr (Some cs)
           \<and> anchor cs = an \<and> num_nondust cs = 0
           \<and> num_htlcs (side cs funding) = 0 \<and> num_htlcs (side cs (other_side funding)) = 0
           \<and> unat (pay_msat (side cs funding)) = unat an * 1000 - unat (calculate_fee_msat 0 rate)
           \<and> unat (fee_msat (side cs funding)) = unat (calculate_fee_msat 0 rate)
           \<and> pay_msat (side cs (other_side funding)) = 0
           \<and> fee_msat (side cs (other_side funding)) = 0"
    using ok up uf unfolding initial_cstate_eq fee_def[symmetric]
    by (cases funding) (simp_all add: zero_oneside_def)
qed

theorem C8_initial_cstate_witness:
  "initial_cstate 1000000 50000 OURS \<noteq> Inr None
   \<and> \<not> (4294967 \<le> unat (1000000::u64) \<or> unat (1000000::u64) * 1000 < unat (calculate_fee_msat 0 50000))
   \<and> (\<exists>cs. initial_cstate 1000000 50000 OURS = Inr (Some cs)
         \<and> unat (pay_msat (side cs OURS)) = 983100000 \<and> unat (fee_msat (side cs OURS)) = 16900000
         \<and> pay_msat (side cs THEIRS) = 0 \<and> fee_msat (side cs THEIRS) = 0)"
  using C8_initial_cstate[of 1000000 50000 OURS] by (auto simp: fee_scenario_1)

text \<open>
  C8 as stated fails at the boundary: an anchor of 4294967 satoshi does not exceed
  \<open>2^32 / 1000\<close> (neither as the real quotient 4294967.296 nor as the truncated one), its
  4294967000 msat fit in 32 bits and cover the fee of 0 at rate 0, and yet
  \<open>initial_cstate\<close> returns \<open>NULL\<close>.
\<close>

theorem C8_boundary_counterexample:
  "initial_cstate 4294967 0 OURS = Inr None
   \<and> \<not> (unat (4294967::u64) * 1000 < unat (calculate_fee_msat 0 0))
   \<and> \<not> (unat (4294967::u64) * 1000 > 2 ^ 32)
   \<and> \<not> (unat (4294967::u64) > 2 ^ 32 div 1000)"
  by (simp add: initial_cstate_def calculate_fee_msat_def fee_by_feerate_def)

section \<open>Conservation of the anchor\<close>

lemma fee_paid_le: "fee_paid A B h \<le> A"
  by (simp add: fee_paid_def)

lemma unat_neg64: "m \<noteq> 0 \<Longrightarrow> unat (- (m::u64)) = 18446744073709551616 - unat m"
  using unat_sub_if'[of 0 m] by (simp add: unat_eq_0)

lemma neg_not_spos: "unat (m::u64) < 9223372036854775808 \<Longrightarrow> \<not> 0 <s - m"
  by (cases "m = 0") (simp_all add: spos64_iff unat_neg64)

lemma unat_add_half:
  "unat (m::u64) < 9223372036854775808 \<Longrightarrow> unat (m + fee div 2) = unat m + unat fee div 2"
  using unat64_lt[of fee] by (simp add: unat_add_lt unat_div)

lemma recalculate_fees_side_totals:
  assumes rf: "recalculate_fees a b fee = (a', b')"
  shows "unat (pay_msat a') + unat (fee_msat a') = unat (pay_msat a + fee_msat a)"
    and "unat (pay_msat b') + unat (fee_msat b') = unat (pay_msat b + fee_msat b)"
  using recalculate_fees_nat[OF rf] fee_paid_le by simp_all

lemma unat_add_lt32:
  "unat (a::u32) + unat b < 4294967296 \<Longrightarrow> unat (a + b) = unat a + unat b"
  by (simp add: unat_word_ariths)

lemma pow64_word: "(of_nat 18446744073709551616 :: u64) = 0"
  by simp

lemma change_funding_sum:
  assumes cf: "change_funding an rate m a b n = Inr (True, a', b')"
    and pre: "unat (pay_msat a) + unat (fee_msat a) + unat (pay_msat b) + unat (fee_msat b)
              < 4294967296"
  shows "unat (pay_msat a') + unat (fee_msat a') + unat (pay_msat b') + unat (fee_msat b')
           < 4294967296"
    and "(of_nat (unat (pay_msat a') + unat (fee_msat a') + unat (pay_msat b') + unat (fee_msat b')) :: u64)
           = of_nat (unat (pay_msat a) + unat (fee_msat a) + unat (pay_msat b) + unat (fee_msat b)) - m"
proof -
  define Na where "Na = unat (pay_msat a) + unat (fee_msat a)"
  define Nb where "Nb = unat (pay_msat b) + unat (fee_msat b)"
  define fee where "fee = calculate_fee_msat n rate"
  define a1 where "a1 = a\<lparr>pay_msat := pay_msat a - ucast m\<rparr>"
  define k where "k = unat (ucast m :: u32)"
  have lt: "Na + Nb < 4294967296" using pre by (simp add: Na_def Nb_def)
  have Wa: "unat (pay_msat a + fee_msat a) = Na" using lt by (simp add: unat_word_ariths Na_def)
  have Wb: "unat (pay_msat b + fee_msat b) = Nb" using lt by (simp add: unat_word_ariths Nb_def)
  have F: "unat (funds32 a b) = Na + Nb"
  proof -
    have "funds32 a b = (pay_msat a + fee_msat a) + (pay_msat b + fee_msat b)"
      by (simp add: funds32_def)
    moreover have "unat ((pay_msat a + fee_msat a) + (pay_msat b + fee_msat b))
        = unat (pay_msat a + fee_msat a) + unat (pay_msat b + fee_msat b)"
      by (rule unat_add_lt32) (simp add: Wa Wb lt)
    ultimately show ?thesis by (simp only: Wa Wb)
  qed
  from cf have g: "\<not> (0 <s m \<and> ucast (pay_msat a + fee_msat a) < m + fee div 2)"
    and as: "(ucast (funds32 a b) :: u64) - m = ucast (funds32 a b - ucast m)"
    and rf: "recalculate_fees a1 b fee = (a', b')"
    by (auto simp: change_funding_eq fee_def a1_def split: if_splits)
  note t = recalculate_fees_side_totals[OF rf]
  have A1: "unat (pay_msat a') + unat (fee_msat a') = (if k \<le> Na then Na - k else Na + 4294967296 - k)"
  proof -
    have "pay_msat a1 + fee_msat a1 = (pay_msat a + fee_msat a) - ucast m" by (simp add: a1_def)
    then show ?thesis unfolding t(1) by (simp add: unat_sub_if' Wa k_def)
  qed
  have B1: "unat (pay_msat b') + unat (fee_msat b') = Nb" using t(2) Wb by simp
  have kmod: "k = unat m mod 4294967296" by (simp add: k_def unat_ucast_down32)
  have main: "(unat (pay_msat a') + unat (fee_msat a')) + Nb < 4294967296 \<and>
     (of_nat ((unat (pay_msat a') + unat (fee_msat a')) + Nb) :: u64) = of_nat (Na + Nb) - m"
  proof (cases "0 <s m")
    case True
    then have mr: "0 < unat m" "unat m < 9223372036854775808" by (simp_all add: spos64_iff)
    from g True have "\<not> ucast (pay_msat a + fee_msat a) < m + fee div 2" by simp
    then have "unat m + unat fee div 2 \<le> Na"
      by (simp add: word_less_nat_alt unat_ucast_up32 Wa unat_add_half[OF mr(2)] not_less)
    then have mle: "unat m \<le> Na" by simp
    then have "unat m < 4294967296" using lt by simp
    then have kk: "k = unat m" by (simp add: kmod)
    have e: "unat (pay_msat a') + unat (fee_msat a') = Na - unat m" using A1 kk mle by simp
    have "(of_nat (Na - unat m + Nb) :: u64) = of_nat (Na + Nb - unat m)" using mle by simp
    also have "\<dots> = of_nat (Na + Nb) - of_nat (unat m)" using mle by (simp del: of_nat_add)
    finally show ?thesis using e lt by simp
  next
    case False
    show ?thesis
    proof (cases "m = 0")
      case True
      then have "k = 0" by (simp add: k_def)
      then show ?thesis using A1 lt True by simp
    next
      case nz: False
      then have mpos: "0 < unat m" by (simp add: unat_gt_0)
      with False have big: "9223372036854775808 \<le> unat m" by (simp add: spos64_iff)
      define c where "c = 18446744073709551616 - unat m"
      have cr: "0 < c" "c \<le> 9223372036854775808" "unat m = 18446744073709551616 - c"
        using big unat64_lt[of m] by (simp_all add: c_def)
      have "unat ((ucast (funds32 a b) :: u64) - m) = Na + Nb + c"
        using big lt unat64_lt[of m] by (simp add: unat_sub_if' unat_ucast_up32 F c_def)
      moreover have "unat (ucast (funds32 a b - ucast m) :: u64) < 4294967296"
        unfolding unat_ucast_up32 by (rule unat32_lt)
      ultimately have cl: "Na + Nb + c < 4294967296" using as by simp
      have "unat m = (4294967296 - c) + 4294967295 * 4294967296" using cr cl by simp
      then have "k = ((4294967296 - c) + 4294967295 * 4294967296) mod 4294967296"
        by (simp only: kmod)
      also have "\<dots> = (4294967296 - c) mod 4294967296" by (rule mod_mult_self1)
      also have "\<dots> = 4294967296 - c" using cr by simp
      finally have kk: "k = 4294967296 - c" .
      have e: "unat (pay_msat a') + unat (fee_msat a') = Na + c" using A1 kk cl cr by simp
      have "(of_nat c :: u64) + m = of_nat (c + unat m)" by simp
      also have "\<dots> = 0" using cr by (simp del: of_nat_add)
      finally have oc: "(of_nat c :: u64) = - m" by (simp add: add_eq_0_iff2)
      have "(of_nat (Na + c + Nb) :: u64) = of_nat (Na + Nb) + of_nat c" by simp
      then show ?thesis using e cl oc by simp
    qed
  qed
  show "unat (pay_msat a') + unat (fee_msat a') + unat (pay_msat b') + unat (fee_msat b')
           < 4294967296"
    using main B1 by simp
  show "(of_nat (unat (pay_msat a') + unat (fee_msat a') + unat (pay_msat b') + unat (fee_msat b')) :: u64)
           = of_nat (unat (pay_msat a) + unat (fee_msat a) + unat (pay_msat b) + unat (fee_msat b)) - m"
  proof -
    have "unat (pay_msat a') + unat (fee_msat a') + unat (pay_msat b') + unat (fee_msat b')
          = (unat (pay_msat a') + unat (fee_msat a')) + Nb" using B1 by simp
    moreover have "unat (pay_msat a) + unat (fee_msat a) + unat (pay_msat b) + unat (fee_msat b)
          = Na + Nb" by (simp add: Na_def Nb_def)
    ultimately show ?thesis using main by (simp only:)
  qed
qed

lemma funds_msat_sides:
  "funds_msat cs = unat (pay_msat (side cs sd)) + unat (fee_msat (side cs sd))
     + unat (pay_msat (side cs (other_side sd))) + unat (fee_msat (side cs (other_side sd)))"
  by (cases sd) (simp_all add: funds_msat_def)

lemma side_set_side:
  "side (set_side (set_side cs sd x) (other_side sd) y) sd = x"
  "side (set_side (set_side cs sd x) (other_side sd) y) (other_side sd) = y"
  "anchor (set_side (set_side cs sd x) (other_side sd) y) = anchor cs"
  by (cases sd; simp)+

lemma initial_cstate_funds:
  assumes "initial_cstate an rate funding = Inr (Some cs)"
  shows "anchor cs = an" and "funds_msat cs = unat an * 1000" and "unat an * 1000 < 4294967296"
    and "(of_nat (unat an * 1000) :: u64) = an * 1000"
proof -
  define fee where "fee = calculate_fee_msat 0 rate"
  from assms have ok: "\<not> (4294967 \<le> an \<or> an * 1000 < fee)"
    and cs: "cs = set_side (set_side
              \<lparr>anchor = an, fee_rate = ucast rate, num_nondust = 0,
                side_OURS = zero_oneside, side_THEIRS = zero_oneside\<rparr>
              funding \<lparr>pay_msat = ucast (an * 1000 - fee), fee_msat = ucast fee, num_htlcs = 0\<rparr>)
              (other_side funding) zero_oneside"
    by (auto simp: initial_cstate_eq fee_def split: if_splits)
  from ok have big: "\<not> (4294967::u64) \<le> an" and le: "fee \<le> an * 1000" by (simp_all add: not_less)
  note fit = anchor_msat_fits[OF big]
  have fle: "unat fee \<le> unat an * 1000" using le fit(1) by (simp add: word_le_nat_alt)
  have up: "unat (ucast (an * 1000 - fee) :: u32) = unat an * 1000 - unat fee"
    using fit fle by (simp add: unat_ucast_down32 unat_sub[OF le])
  have uf: "unat (ucast fee :: u32) = unat fee"
    using fit fle by (simp add: unat_ucast_down32)
  show "anchor cs = an" unfolding cs by (simp add: side_set_side)
  have sf: "side cs funding
       = \<lparr>pay_msat = ucast (an * 1000 - fee), fee_msat = ucast fee, num_htlcs = 0\<rparr>"
    unfolding cs by (rule side_set_side(1))
  have so: "side cs (other_side funding) = zero_oneside"
    unfolding cs by (rule side_set_side(2))
  show "funds_msat cs = unat an * 1000"
    unfolding funds_msat_sides[of cs funding] sf so
    using fle by (simp add: up uf zero_oneside_def)
  show "unat an * 1000 < 4294967296" using fit by simp
  show "(of_nat (unat an * 1000) :: u64) = an * 1000" by simp
qed

lemma cstate_add_htlc_TrueD:
  assumes "cstate_add_htlc is_dust cs h = Inr (True, cs')"
  obtains a' b' nd where
    "change_funding (anchor cs) (ucast (fee_rate cs)) (msatoshis h)
       (side cs (htlc_channel_side h)) (side cs (other_side (htlc_channel_side h))) nd
     = Inr (True, a', b')"
    "anchor cs' = anchor cs"
    "pay_msat (side cs' (htlc_channel_side h)) = pay_msat a'"
    "fee_msat (side cs' (htlc_channel_side h)) = fee_msat a'"
    "side cs' (other_side (htlc_channel_side h)) = b'"
proof -
  define nd where "nd = (if \<not> is_dust (msatoshis h div 1000)
     then (ucast (num_nondust cs) :: u64) + 1 else ucast (num_nondust cs))"
  define sd where "sd = htlc_channel_side h"
  from assms obtain a' b' where
    cf: "change_funding (anchor cs) (ucast (fee_rate cs)) (msatoshis h)
       (side cs sd) (side cs (other_side sd)) nd = Inr (True, a', b')"
    and cs': "cs' = (set_side (set_side cs sd (a'\<lparr>num_htlcs := num_htlcs a' + 1\<rparr>))
                              (other_side sd) b')\<lparr>num_nondust := ucast nd\<rparr>"
    unfolding cstate_add_htlc_def Let_def nd_def[symmetric] sd_def[symmetric]
    by (auto split: sum.splits if_splits)
  have 1: "anchor cs' = anchor cs" unfolding cs' by (cases sd) simp_all
  have 2: "pay_msat (side cs' sd) = pay_msat a'" unfolding cs' by (cases sd) simp_all
  have 3: "fee_msat (side cs' sd) = fee_msat a'" unfolding cs' by (cases sd) simp_all
  have 4: "side cs' (other_side sd) = b'" unfolding cs' by (cases sd) simp_all
  show ?thesis using that[OF cf[unfolded sd_def] 1 2[unfolded sd_def] 3[unfolded sd_def] 4[unfolded sd_def]] .
qed

lemma remove_htlc_InrD:
  assumes "remove_htlc is_dust cs creator ben h = Inr cs'"
  obtains a' b' nd where
    "change_funding (anchor cs) (ucast (fee_rate cs)) (- msatoshis h)
       (side cs ben) (side cs (other_side ben)) nd = Inr (True, a', b')"
    "anchor cs' = anchor cs"
    "pay_msat (side cs' ben) = pay_msat a'"
    "fee_msat (side cs' ben) = fee_msat a'"
    "pay_msat (side cs' (other_side ben)) = pay_msat b'"
    "fee_msat (side cs' (other_side ben)) = fee_msat b'"
proof -
  define nd where "nd = (if \<not> is_dust (msatoshis h div 1000)
     then (ucast (num_nondust cs) :: u64) - 1 else ucast (num_nondust cs))"
  from assms obtain a' b' where
    cf: "change_funding (anchor cs) (ucast (fee_rate cs)) (- msatoshis h)
       (side cs ben) (side cs (other_side ben)) nd = Inr (True, a', b')"
    and cs': "cs' = (let cstate1 = set_side (set_side cs ben a') (other_side ben) b'
       in (set_side cstate1 creator
             ((side cstate1 creator)\<lparr>num_htlcs := num_htlcs (side cstate1 creator) - 1\<rparr>))
           \<lparr>num_nondust := ucast nd\<rparr>)"
    unfolding remove_htlc_def Let_def nd_def[symmetric]
    by (auto split: sum.splits if_splits)
  have 1: "anchor cs' = anchor cs" unfolding cs' Let_def by (cases ben; cases creator) simp_all
  have 2: "pay_msat (side cs' ben) = pay_msat a'"
    unfolding cs' Let_def by (cases ben; cases creator) simp_all
  have 3: "fee_msat (side cs' ben) = fee_msat a'"
    unfolding cs' Let_def by (cases ben; cases creator) simp_all
  have 4: "pay_msat (side cs' (other_side ben)) = pay_msat b'"
    unfolding cs' Let_def by (cases ben; cases creator) simp_all
  have 5: "fee_msat (side cs' (other_side ben)) = fee_msat b'"
    unfolding cs' Let_def by (cases ben; cases creator) simp_all
  show ?thesis using that[OF cf 1 2 3 4 5] .
qed

lemma remove_htlc_sum:
  assumes rm: "remove_htlc is_dust cs creator ben h = Inr cs'"
    and pre: "funds_msat cs < 4294967296"
  shows "funds_msat cs' < 4294967296"
    and "(of_nat (funds_msat cs') :: u64) = of_nat (funds_msat cs) + msatoshis h"
    and "anchor cs' = anchor cs"
proof -
  from rm obtain a' b' nd where
    cf: "change_funding (anchor cs) (ucast (fee_rate cs)) (- msatoshis h)
       (side cs ben) (side cs (other_side ben)) nd = Inr (True, a', b')"
    and e: "anchor cs' = anchor cs"
    "pay_msat (side cs' ben) = pay_msat a'"
    "fee_msat (side cs' ben) = fee_msat a'"
    "pay_msat (side cs' (other_side ben)) = pay_msat b'"
    "fee_msat (side cs' (other_side ben)) = fee_msat b'"
    by (rule remove_htlc_InrD)
  note s = change_funding_sum[OF cf pre[unfolded funds_msat_sides[of cs ben]]]
  show "funds_msat cs' < 4294967296"
    unfolding funds_msat_sides[of cs' ben] e using s(1) .
  show "(of_nat (funds_msat cs') :: u64) = of_nat (funds_msat cs) + msatoshis h"
    unfolding funds_msat_sides[of cs' ben] funds_msat_sides[of cs ben] e using s(2) by simp
  show "anchor cs' = anchor cs" by (rule e)
qed

lemma adjust_fee_sum:
  assumes pre: "funds_msat cs < 4294967296"
  shows "funds_msat (adjust_fee cs rate) = funds_msat cs"
    and "anchor (adjust_fee cs rate) = anchor cs"
proof -
  define fee where "fee = calculate_fee_msat (ucast (num_nondust cs)) rate"
  obtain a b where rf: "recalculate_fees (side cs OURS) (side cs THEIRS) fee = (a, b)"
    by (cases "recalculate_fees (side cs OURS) (side cs THEIRS) fee")
  have cs': "adjust_fee cs rate = set_side (set_side cs OURS a) THEIRS b"
    using rf by (simp add: adjust_fee_def fee_def Let_def)
  note t = recalculate_fees_side_totals[OF rf]
  have wa: "unat (pay_msat (side cs OURS) + fee_msat (side cs OURS))
      = unat (pay_msat (side cs OURS)) + unat (fee_msat (side cs OURS))"
    by (rule unat_add_lt32) (use pre in \<open>simp add: funds_msat_def\<close>)
  have wb: "unat (pay_msat (side cs THEIRS) + fee_msat (side cs THEIRS))
      = unat (pay_msat (side cs THEIRS)) + unat (fee_msat (side cs THEIRS))"
    by (rule unat_add_lt32) (use pre in \<open>simp add: funds_msat_def\<close>)
  show "funds_msat (adjust_fee cs rate) = funds_msat cs"
    using t wa wb by (simp add: cs' funds_msat_def)
  show "anchor (adjust_fee cs rate) = anchor cs" by (simp add: cs')
qed

lemma word_sub_nat:
  assumes e: "(of_nat x :: u64) = of_nat y - m"
    and x: "x < 4294967296" and y: "y < 4294967296" and m: "unat m < 9223372036854775808"
  shows "unat m \<le> y \<and> x = y - unat m"
proof -
  have ux: "unat (of_nat x :: u64) = x" using x by (simp add: unat_of_nat)
  have uy: "unat (of_nat y :: u64) = y" using y by (simp add: unat_of_nat)
  have "unat ((of_nat y :: u64) - m)
        = (if unat m \<le> y then y - unat m else y + 18446744073709551616 - unat m)"
    by (simp add: unat_sub_if' uy)
  then have "x = (if unat m \<le> y then y - unat m else y + 18446744073709551616 - unat m)"
    using e ux by simp
  then show ?thesis using x m by (auto split: if_splits)
qed

lemma word_add_nat:
  assumes e: "(of_nat x :: u64) = of_nat y + m"
    and x: "x < 4294967296" and y: "y + unat m < 4294967296"
  shows "x = y + unat m"
proof -
  have ux: "unat (of_nat x :: u64) = x" using x by (simp add: unat_of_nat)
  have uy: "unat (of_nat y :: u64) = y" using y by (simp add: unat_of_nat)
  have "unat ((of_nat y :: u64) + m) = y + unat m"
    using unat_add_lt[of "of_nat y" m] y uy by simp
  then show ?thesis using e ux by simp
qed

lemma held_msat_remove1:
  "h \<in> set hs \<Longrightarrow> held_msat (remove1 h hs) + unat (msatoshis h) = held_msat hs"
  by (simp add: held_msat_def sum_list_map_remove1[of h hs "\<lambda>h. unat (msatoshis h)"])

lemma add_htlc_conserves:
  assumes add: "cstate_add_htlc is_dust cs h = Inr (True, cs')"
    and m: "unat (msatoshis h) < 9223372036854775808"
    and pre: "funds_msat cs < 4294967296"
  shows "unat (msatoshis h) \<le> funds_msat cs"
    and "funds_msat cs' = funds_msat cs - unat (msatoshis h)"
    and "anchor cs' = anchor cs"
proof -
  from add obtain a' b' nd where
    cf: "change_funding (anchor cs) (ucast (fee_rate cs)) (msatoshis h)
       (side cs (htlc_channel_side h)) (side cs (other_side (htlc_channel_side h))) nd
     = Inr (True, a', b')"
    and e: "anchor cs' = anchor cs"
    "pay_msat (side cs' (htlc_channel_side h)) = pay_msat a'"
    "fee_msat (side cs' (htlc_channel_side h)) = fee_msat a'"
    "side cs' (other_side (htlc_channel_side h)) = b'"
    by (rule cstate_add_htlc_TrueD)
  note s = change_funding_sum[OF cf pre[unfolded funds_msat_sides[of cs "htlc_channel_side h"]]]
  have 1: "funds_msat cs' < 4294967296"
    unfolding funds_msat_sides[of cs' "htlc_channel_side h"] e using s(1) .
  have 2: "(of_nat (funds_msat cs') :: u64) = of_nat (funds_msat cs) - msatoshis h"
    unfolding funds_msat_sides[of cs' "htlc_channel_side h"]
      funds_msat_sides[of cs "htlc_channel_side h"] e using s(2) .
  note r = word_sub_nat[OF 2 1 pre m]
  show "unat (msatoshis h) \<le> funds_msat cs" using r by simp
  show "funds_msat cs' = funds_msat cs - unat (msatoshis h)" using r by simp
  show "anchor cs' = anchor cs" by (rule e)
qed

lemma remove_htlc_conserves:
  assumes rm: "remove_htlc is_dust cs creator ben h = Inr cs'"
    and fit: "funds_msat cs + unat (msatoshis h) < 4294967296"
  shows "funds_msat cs' = funds_msat cs + unat (msatoshis h)"
    and "anchor cs' = anchor cs"
proof -
  have pre: "funds_msat cs < 4294967296" using fit by simp
  note s = remove_htlc_sum[OF rm pre]
  show "funds_msat cs' = funds_msat cs + unat (msatoshis h)"
    by (rule word_add_nat[OF s(2) s(1) fit])
  show "anchor cs' = anchor cs" by (rule s(3))
qed

text \<open>
  C1 (as amended). For every channel state reachable by \<open>initial_cstate\<close> followed by any
  sequence of successful \<open>cstate_add_htlc\<close> (of an HTLC whose value is not negative as
  an \<open>int64_t\<close>), \<open>cstate_fulfill_htlc\<close> and \<open>cstate_fail_htlc\<close> (of an HTLC added and not
  yet removed) and \<open>adjust_fee\<close>, the sum of \<open>pay_msat\<close> and \<open>fee_msat\<close> over both sides
  plus the milli-satoshi held by the HTLCs added and not yet removed equals
  \<open>anchor_satoshis * 1000\<close>. The equation is one of natural numbers: nothing in it wraps,
  and the anchor in milli-satoshi is below \<open>2 ^ 32\<close>.
\<close>

theorem C1_conservation:
  "reachable is_dust cs hs \<Longrightarrow>
     funds_msat cs + held_msat hs = unat (anchor cs) * 1000 \<and> unat (anchor cs) * 1000 < 2 ^ 32"
proof (induction rule: reachable.induct)
  case (reach_initial an rate funding cs)
  then show ?case using initial_cstate_funds[OF reach_initial] by (simp add: held_msat_def)
next
  case (reach_add cs hs h cs')
  from reach_add.IH have inv: "funds_msat cs + held_msat hs = unat (anchor cs) * 1000"
    and an: "unat (anchor cs) * 1000 < 4294967296" by simp_all
  have pre: "funds_msat cs < 4294967296" using inv an by simp
  have m: "unat (msatoshis h) < 9223372036854775808" using reach_add.hyps(2) by simp
  note s = add_htlc_conserves[OF reach_add.hyps(3) m pre]
  have "held_msat (h # hs) = unat (msatoshis h) + held_msat hs" by (simp add: held_msat_def)
  then show ?case using s inv an by simp
next
  case (reach_fulfill cs hs h cs')
  from reach_fulfill.IH have inv: "funds_msat cs + held_msat hs = unat (anchor cs) * 1000"
    and an: "unat (anchor cs) * 1000 < 4294967296" by simp_all
  note r = held_msat_remove1[OF reach_fulfill.hyps(2)]
  have fit: "funds_msat cs + unat (msatoshis h) < 4294967296" using inv an r by simp
  note s = remove_htlc_conserves[OF reach_fulfill.hyps(3)[unfolded cstate_fulfill_htlc_def] fit]
  show ?case using s inv an r by simp
next
  case (reach_fail cs hs h cs')
  from reach_fail.IH have inv: "funds_msat cs + held_msat hs = unat (anchor cs) * 1000"
    and an: "unat (anchor cs) * 1000 < 4294967296" by simp_all
  note r = held_msat_remove1[OF reach_fail.hyps(2)]
  have fit: "funds_msat cs + unat (msatoshis h) < 4294967296" using inv an r by simp
  note s = remove_htlc_conserves[OF reach_fail.hyps(3)[unfolded cstate_fail_htlc_def] fit]
  show ?case using s inv an r by simp
next
  case (reach_adjust cs hs rate)
  from reach_adjust.IH have inv: "funds_msat cs + held_msat hs = unat (anchor cs) * 1000"
    and an: "unat (anchor cs) * 1000 < 4294967296" by simp_all
  have pre: "funds_msat cs < 4294967296" using inv an by simp
  show ?case using adjust_fee_sum[OF pre, of rate] inv an by simp
qed

lemma scenario_1_initial: "initial_cstate 1000000 50000 OURS = Inr (Some scenario_1_state)"
  by (simp add: initial_cstate_scenario_1 scenario_1_state_def zero_oneside_def)

lemma scenario_2_add:
  "cstate_add_htlc dust_below_546 scenario_1_state funder_htlc = Inr (True, scenario_2_state)"
  by (simp add: cstate_add_htlc_def scenario_1_state_def scenario_2_state_def funder_htlc_def
      dust_below_546_def Let_def calculate_fee_msat_def fee_by_feerate_def change_funding_def
      recalculate_fees_def pay_fee_def funds32_def)

lemma scenario_2_reachable: "reachable dust_below_546 scenario_2_state [funder_htlc]"
proof -
  have "unat (msatoshis funder_htlc) < 2 ^ 63" by (simp add: funder_htlc_def)
  then show ?thesis
    using reach_add[OF reach_initial[OF scenario_1_initial] _ scenario_2_add] by simp
qed

lemma signed_tests:
  "\<not> 0 <s (- 100000000 :: u64)" "\<not> 0 <s (- 200000000 :: u64)"
  "\<not> 0 <s (0xFFFFFFFFFFFFFC18 :: u64)" "0 <s (100000000 :: u64)"
  using neg_not_spos[of 100000000] neg_not_spos[of 200000000] by (simp_all add: spos64_iff)

lemma scenario_2_failed:
  "cstate_fail_htlc dust_below_546 scenario_2_state funder_htlc = Inr scenario_1_state"
  by (simp add: signed_tests cstate_fail_htlc_def remove_htlc_def scenario_1_state_def scenario_2_state_def
      funder_htlc_def dust_below_546_def Let_def calculate_fee_msat_def fee_by_feerate_def
      change_funding_def recalculate_fees_def pay_fee_def funds32_def)

theorem C1_conservation_witness:
  "reachable dust_below_546 scenario_2_state [funder_htlc]
   \<and> funds_msat scenario_2_state = 900000000 \<and> held_msat [funder_htlc] = 100000000
   \<and> funds_msat scenario_2_state + held_msat [funder_htlc]
       = unat (anchor scenario_2_state) * 1000
   \<and> reachable dust_below_546 scenario_1_state []
   \<and> funds_msat scenario_1_state + held_msat [] = unat (anchor scenario_1_state) * 1000"
proof -
  have "reachable dust_below_546 scenario_1_state (remove1 funder_htlc [funder_htlc])"
    by (rule reach_fail[OF scenario_2_reachable _ scenario_2_failed]) simp
  then have r1: "reachable dust_below_546 scenario_1_state []" by simp
  show ?thesis
    using C1_conservation[OF scenario_2_reachable] C1_conservation[OF r1]
      scenario_2_reachable r1
    by (simp add: funds_msat_def scenario_2_state_def held_msat_def funder_htlc_def)
qed

text \<open>
  C1 as stated fails in three ways. Once an HTLC is outstanding the balances alone fall
  short of the anchor: after scenario 2 they add up to 900000000 msat of 1000000000, the
  missing 100000000 msat being the HTLC. An HTLC whose value is negative as an \<open>int64_t\<close>
  is added without the affordability test and raises the balances above the anchor. So
  does failing an HTLC that was never added.
\<close>

theorem C1_anchor_counterexample:
  "initial_cstate 1000000 50000 OURS = Inr (Some scenario_1_state)
   \<and> unat (anchor scenario_1_state) * 1000 = 1000000000
   \<and> cstate_add_htlc dust_below_546 scenario_1_state funder_htlc = Inr (True, scenario_2_state)
   \<and> unat (anchor scenario_2_state) * 1000 = 1000000000
   \<and> funds_msat scenario_2_state = 900000000
   \<and> cstate_add_htlc dust_below_546 scenario_1_state negative_htlc
       = Inr (True,
           \<lparr>anchor = 1000000, fee_rate = 50000, num_nondust = 1,
            side_OURS = \<lparr>pay_msat = 981501000, fee_msat = 18500000, num_htlcs = 1\<rparr>,
            side_THEIRS = \<lparr>pay_msat = 0, fee_msat = 0, num_htlcs = 0\<rparr>\<rparr>)
   \<and> funds_msat
        \<lparr>anchor = 1000000, fee_rate = 50000, num_nondust = 1,
         side_OURS = \<lparr>pay_msat = 981501000, fee_msat = 18500000, num_htlcs = 1\<rparr>,
         side_THEIRS = \<lparr>pay_msat = 0, fee_msat = 0, num_htlcs = 0\<rparr>\<rparr> = 1000001000
   \<and> cstate_fail_htlc dust_below_546 scenario_2_state stranger_htlc
       = Inr \<lparr>anchor = 1000000, fee_rate = 50000, num_nondust = 0,
              side_OURS = \<lparr>pay_msat = 1083100000, fee_msat = 16900000, num_htlcs = 0\<rparr>,
              side_THEIRS = \<lparr>pay_msat = 0, fee_msat = 0, num_htlcs = 0\<rparr>\<rparr>
   \<and> funds_msat
        \<lparr>anchor = 1000000, fee_rate = 50000, num_nondust = 0,
         side_OURS = \<lparr>pay_msat = 1083100000, fee_msat = 16900000, num_htlcs = 0\<rparr>,
         side_THEIRS = \<lparr>pay_msat = 0, fee_msat = 0, num_htlcs = 0\<rparr>\<rparr> = 1100000000"
  using scenario_1_initial scenario_2_add
  by (simp add: signed_tests cstate_add_htlc_def cstate_fail_htlc_def remove_htlc_def scenario_1_state_def
      scenario_2_state_def negative_htlc_def stranger_htlc_def funds_msat_def
      dust_below_546_def Let_def calculate_fee_msat_def fee_by_feerate_def change_funding_def
      recalculate_fees_def pay_fee_def funds32_def)
section \<open>Adding and removing HTLCs\<close>

lemma ucast_down_neg: "(ucast (- (m::u64)) :: u32) = - ucast m"
  using ucast_down_sub[of 0 m] by simp

lemma funds32_unat:
  assumes "unat (pay_msat a) + unat (fee_msat a) + unat (pay_msat b) + unat (fee_msat b) < 4294967296"
  shows "unat (funds32 a b)
         = unat (pay_msat a) + unat (fee_msat a) + unat (pay_msat b) + unat (fee_msat b)"
proof -
  have 1: "unat (pay_msat a + fee_msat a) = unat (pay_msat a) + unat (fee_msat a)"
    by (rule unat_add_lt32) (use assms in simp)
  have 2: "unat (pay_msat a + fee_msat a + pay_msat b)
           = unat (pay_msat a) + unat (fee_msat a) + unat (pay_msat b)"
    using unat_add_lt32[of "pay_msat a + fee_msat a" "pay_msat b"] assms 1 by simp
  show ?thesis
    using unat_add_lt32[of "pay_msat a + fee_msat a + pay_msat b" "fee_msat b"] assms 2
    by (simp add: funds32_def)
qed

lemma removal_assertion:
  assumes m: "unat (m::u64) < 9223372036854775808"
    and fit: "unat (F::u32) + unat m < 4294967296"
  shows "(ucast F :: u64) - (- m) = ucast (F - ucast (- m))"
proof -
  have ml: "unat m < 4294967296" using fit by simp
  have l: "unat ((ucast F :: u64) + m) = unat F + unat m"
    using fit unat_add_lt[of "ucast F" m] by (simp add: unat_ucast_up32)
  have um: "unat (ucast m :: u32) = unat m" using ml by (simp add: unat_ucast_down32)
  have r: "unat (F + ucast m) = unat F + unat m"
    using fit unat_add_lt32[of F "ucast m"] by (simp add: um)
  have "unat ((ucast F :: u64) + m) = unat (ucast (F + ucast m) :: u64)"
    by (simp only: l unat_ucast_up32 r)
  then have "(ucast F :: u64) + m = ucast (F + ucast m)" by (simp only: word_unat_eq_iff)
  then show ?thesis by (simp add: ucast_down_neg)
qed

lemma ucast_pos32: "(0 < (ucast (x::u32) :: u64)) = (x \<noteq> 0)"
  by (simp add: word_less_nat_alt unat_ucast_up32 unat_gt_0)

lemma ucast_eq0_32: "((ucast (x::u32) :: u64) = 0) = (x = 0)"
  by (simp add: word_unat_eq_iff unat_ucast_up32)

lemma remove_htlc_ok:
  assumes m: "unat (msatoshis h) < 9223372036854775808"
    and nd: "is_dust (msatoshis h div 1000) \<or> num_nondust cs \<noteq> 0"
    and nh: "num_htlcs (side cs creator) \<noteq> 0"
    and fit: "funds_msat cs + unat (msatoshis h) < 4294967296"
  shows "\<exists>cs'. remove_htlc is_dust cs creator ben h = Inr cs'"
proof -
  define nd' where "nd' = (if \<not> is_dust (msatoshis h div 1000)
     then (ucast (num_nondust cs) :: u64) - 1 else ucast (num_nondust cs))"
  define a where "a = side cs ben"
  define b where "b = side cs (other_side ben)"
  define fee where "fee = calculate_fee_msat nd' (ucast (fee_rate cs))"
  have s: "unat (pay_msat a) + unat (fee_msat a) + unat (pay_msat b) + unat (fee_msat b)
           = funds_msat cs"
    unfolding a_def b_def by (rule funds_msat_sides[symmetric])
  have F: "unat (funds32 a b) = funds_msat cs"
    using funds32_unat[of a b] fit s by simp
  have as: "(ucast (funds32 a b) :: u64) - (- msatoshis h)
            = ucast (funds32 a b - ucast (- msatoshis h))"
    by (rule removal_assertion[OF m]) (use fit F in simp)
  obtain a' b' where rf:
    "recalculate_fees (a\<lparr>pay_msat := pay_msat a - ucast (- msatoshis h)\<rparr>) b fee = (a', b')"
    by (cases "recalculate_fees (a\<lparr>pay_msat := pay_msat a - ucast (- msatoshis h)\<rparr>) b fee")
  have cf: "change_funding (anchor cs) (ucast (fee_rate cs)) (- msatoshis h) a b nd'
            = Inr (True, a', b')"
    using neg_not_spos[OF m] as rf by (simp add: change_funding_eq fee_def)
  note t = recalculate_fees_total(3,4)[OF rf]
  have nh': "num_htlcs (side (set_side (set_side cs ben a') (other_side ben) b') creator) \<noteq> 0"
    using nh t by (cases ben; cases creator) (simp_all add: a_def b_def)
  show ?thesis
    using nd nh' cf
    unfolding remove_htlc_def Let_def nd'_def[symmetric] a_def[symmetric] b_def[symmetric]
    by (auto simp: ucast_pos32 ucast_eq0_32 word_greater_zero_iff)
qed

lemma remove_htlc_not_aborted:
  assumes m: "unat (msatoshis h) < 9223372036854775808"
  shows "remove_htlc is_dust cs creator ben h \<noteq> Inl Aborted"
  using neg_not_spos[OF m]
  by (auto simp: remove_htlc_def Let_def change_funding_eq split: sum.splits prod.splits if_splits)

lemma cstate_add_htlc_False_iff:
  assumes pos: "0 < unat (msatoshis h)" and m: "unat (msatoshis h) < 9223372036854775808"
  shows "cstate_add_htlc is_dust cs h = Inr (False, cs') \<longleftrightarrow>
           cs' = cs \<and>
           unat (pay_msat (side cs (htlc_channel_side h)) + fee_msat (side cs (htlc_channel_side h)))
             < unat (msatoshis h)
               + unat (calculate_fee_msat
                   (ucast (num_nondust cs) + (if is_dust (msatoshis h div 1000) then 0 else 1))
                   (ucast (fee_rate cs))) div 2"
proof -
  define nd where "nd = (if \<not> is_dust (msatoshis h div 1000)
     then (ucast (num_nondust cs) :: u64) + 1 else ucast (num_nondust cs))"
  define fee where "fee = calculate_fee_msat nd (ucast (fee_rate cs))"
  define a where "a = side cs (htlc_channel_side h)"
  have nd': "ucast (num_nondust cs) + (if is_dust (msatoshis h div 1000) then 0 else 1) = nd"
    by (simp add: nd_def)
  have sp: "0 <s msatoshis h" using pos m by (simp add: spos64_iff)
  have g: "(ucast (pay_msat a + fee_msat a) < msatoshis h + fee div 2)
           \<longleftrightarrow> unat (pay_msat a + fee_msat a) < unat (msatoshis h) + unat fee div 2"
    by (simp add: word_less_nat_alt unat_ucast_up32 unat_add_half[OF m])
  show ?thesis
    unfolding nd' fee_def[symmetric] a_def[symmetric] g[symmetric]
    unfolding cstate_add_htlc_def Let_def nd_def[symmetric] change_funding_eq
      fee_def[symmetric] a_def[symmetric]
    using sp by (auto split: prod.splits)
qed

text \<open>
  For an HTLC whose value is positive as the \<open>int64_t\<close> it is passed as, the contract in
  channel.h holds: \<open>cstate_add_htlc\<close> returns false exactly when the paying side's
  \<open>pay_msat + fee_msat\<close> is less than the HTLC's value plus half of the fee recomputed with
  the HTLC counted (if non-dust).
\<close>

lemma add_htlc_refused_iff:
  assumes "0 < unat (msatoshis h)" and "unat (msatoshis h) < 2 ^ 63"
  shows "(\<exists>cs'. cstate_add_htlc is_dust cs h = Inr (False, cs')) \<longleftrightarrow>
        unat (pay_msat (side cs (htlc_channel_side h)) + fee_msat (side cs (htlc_channel_side h)))
          < unat (msatoshis h)
            + unat (calculate_fee_msat
                (ucast (num_nondust cs) + (if is_dust (msatoshis h div 1000) then 0 else 1))
                (ucast (fee_rate cs))) div 2"
proof -
  from assms have pos: "0 < unat (msatoshis h)" and m: "unat (msatoshis h) < 9223372036854775808"
    by simp_all
  show ?thesis unfolding cstate_add_htlc_False_iff[OF pos m, of is_dust cs] by blast
qed

text \<open>A false return leaves the state unchanged, whatever the HTLC.\<close>

lemma add_htlc_refused_unchanged:
  "cstate_add_htlc is_dust cs h = Inr (False, cs') \<Longrightarrow> cs' = cs"
  by (auto simp: cstate_add_htlc_def Let_def split: sum.splits prod.splits if_splits)

text \<open>
  Removing an HTLC returns a state whenever the HTLC is accounted for in the state: its
  side has an HTLC, a non-dust HTLC is counted in \<open>num_nondust\<close>, and its value fits the
  32-bit balances together with the funds.
\<close>

lemma remove_htlc_returns:
  assumes "unat (msatoshis h) < 2 ^ 63"
    and "is_dust (msatoshis h div 1000) \<or> num_nondust cs \<noteq> 0"
    and "num_htlcs (side cs (htlc_channel_side h)) \<noteq> 0"
    and "funds_msat cs + unat (msatoshis h) < 2 ^ 32"
  shows "\<exists>cs'. cstate_fulfill_htlc is_dust cs h = Inr cs'"
    and "\<exists>cs'. cstate_fail_htlc is_dust cs h = Inr cs'"
proof -
  from assms have m: "unat (msatoshis h) < 9223372036854775808"
    and 3: "funds_msat cs + unat (msatoshis h) < 4294967296" by simp_all
  show "\<exists>cs'. cstate_fulfill_htlc is_dust cs h = Inr cs'"
    unfolding cstate_fulfill_htlc_def
    using remove_htlc_ok[of h is_dust cs "htlc_channel_side h"] m assms(2,3) 3 by blast
  show "\<exists>cs'. cstate_fail_htlc is_dust cs h = Inr cs'"
    unfolding cstate_fail_htlc_def
    using remove_htlc_ok[of h is_dust cs "htlc_channel_side h"] m assms(2,3) 3 by blast
qed

section \<open>Canonical transaction ordering is a sort\<close>

declare find_best_loop.simps [simp del]
declare permute_inputs_loop.simps [simp del]
declare permute_outputs_loop.simps [simp del]

lemma find_best_loop_least:
  fixes key :: "'a \<Rightarrow> 'k::linorder"
  assumes eq: "\<And>a b. a \<in> set xs \<Longrightarrow> b \<in> set xs \<Longrightarrow> better a b = (key a < key b)"
  shows "best < i \<Longrightarrow> i \<le> length xs \<Longrightarrow> (\<forall>j<i. key (xs ! best) \<le> key (xs ! j))
    \<Longrightarrow> find_best_loop better xs i best < length xs
        \<and> (\<forall>j<length xs. key (xs ! find_best_loop better xs i best) \<le> key (xs ! j))"
  using eq
proof (induction better xs i best rule: find_best_loop.induct)
  case (1 better xs i best)
  show ?case
  proof (cases "i < length xs")
    case False
    then have "find_best_loop better xs i best = best"
      by (subst find_best_loop.simps) simp
    moreover have "i = length xs" using False "1.prems"(2) by simp
    ultimately show ?thesis using "1.prems"(1,3) by simp
  next
    case True
    define best' where "best' = (if better (xs ! i) (xs ! best) then i else best)"
    have mem: "xs ! i \<in> set xs" "xs ! best \<in> set xs" using True "1.prems" by simp_all
    have b: "better (xs ! i) (xs ! best) = (key (xs ! i) < key (xs ! best))"
      using "1.prems"(4)[OF mem] .
    have p1: "best' < Suc i" using "1.prems"(1) by (simp add: best'_def)
    have p2: "Suc i \<le> length xs" using True by simp
    have p3: "\<forall>j<Suc i. key (xs ! best') \<le> key (xs ! j)"
    proof (intro allI impI)
      fix j assume "j < Suc i"
      then consider "j < i" | "j = i" by linarith
      then show "key (xs ! best') \<le> key (xs ! j)"
      proof cases
        case 1
        then have "key (xs ! best) \<le> key (xs ! j)" using "1.prems"(3) by simp
        then show ?thesis unfolding best'_def b by auto
      next
        case 2
        then show ?thesis unfolding best'_def b by auto
      qed
    qed
    have "find_best_loop better xs i best = find_best_loop better xs (Suc i) best'"
      unfolding best'_def using True by (subst find_best_loop.simps) simp
    then show ?thesis
      using "1.IH"[OF True p1[unfolded best'_def] p2 p3[unfolded best'_def] "1.prems"(4)]
      by (simp add: best'_def)
  qed
qed

lemma find_best_least:
  fixes key :: "'a \<Rightarrow> 'k::linorder"
  assumes eq: "\<And>a b. a \<in> set xs \<Longrightarrow> b \<in> set xs \<Longrightarrow> better a b = (key a < key b)"
    and ne: "xs \<noteq> []"
  shows "find_best_loop better xs 1 0 < length xs"
    and "\<forall>j<length xs. key (xs ! find_best_loop better xs 1 0) \<le> key (xs ! j)"
proof -
  have "0 < (1::nat)" "1 \<le> length xs" "\<forall>j<1. key (xs ! 0) \<le> key (xs ! j)"
    using ne by (simp_all add: Suc_leI)
  from find_best_loop_least[OF eq this]
  show "find_best_loop better xs 1 0 < length xs"
    and "\<forall>j<length xs. key (xs ! find_best_loop better xs 1 0) \<le> key (xs ! j)"
    by simp_all
qed

lemma swap_length [simp]: "length (swap xs i j) = length xs"
  by (simp add: swap_def Let_def)

lemma swap_mset: "i < length xs \<Longrightarrow> j < length xs \<Longrightarrow> mset (swap xs i j) = mset xs"
  by (simp add: swap_def Let_def mset_swap)

lemma swap_nth:
  "i < length xs \<Longrightarrow> j < length xs \<Longrightarrow> q < length xs \<Longrightarrow>
   swap xs i j ! q = (if q = j then xs ! i else if q = i then xs ! j else xs ! q)"
  by (auto simp: swap_def Let_def nth_list_update)

lemma selection_step:
  fixes key :: "'a \<Rightarrow> 'k::linorder"
  assumes eq: "\<And>a b. a \<in> set xs \<Longrightarrow> b \<in> set xs \<Longrightarrow> better a b = (key a < key b)"
    and i: "i < length xs" and inv: "sorted_upto key xs i"
  defines "j \<equiv> i + find_best_loop better (drop i xs) 1 0"
  shows "j < length xs" and "sorted_upto key (swap xs i j) (Suc i)"
proof -
  have ne: "drop i xs \<noteq> []" using i by simp
  have eq': "\<And>a b. a \<in> set (drop i xs) \<Longrightarrow> b \<in> set (drop i xs) \<Longrightarrow> better a b = (key a < key b)"
    using eq by (meson in_set_dropD)
  note fb = find_best_least[where key=key, OF eq' ne]
  show jl: "j < length xs" using fb(1) i by (simp add: j_def)
  have least: "key (xs ! j) \<le> key (xs ! q)" if "i \<le> q" "q < length xs" for q
  proof -
    have "q - i < length (drop i xs)" using that i by simp
    then have "key (drop i xs ! find_best_loop better (drop i xs) 1 0) \<le> key (drop i xs ! (q - i))"
      using fb(2) by blast
    then show ?thesis using that i jl by (simp add: j_def)
  qed
  have ij: "i \<le> j" by (simp add: j_def)
  show "sorted_upto key (swap xs i j) (Suc i)"
    unfolding sorted_upto_def
  proof (intro allI impI)
    fix p q assume h: "p < Suc i \<and> p \<le> q \<and> q < length (swap xs i j)"
    then have pq: "p \<le> i" "p \<le> q" "q < length xs" by simp_all
    have pl: "p < length xs" using pq by simp
    show "key (swap xs i j ! p) \<le> key (swap xs i j ! q)"
    proof (cases "p = i")
      case True
      have "swap xs i j ! p = xs ! j" using True i jl by (simp add: swap_nth)
      moreover have "swap xs i j ! q = xs ! i \<or> swap xs i j ! q = xs ! j \<or> swap xs i j ! q = xs ! q"
        using i jl pq by (simp add: swap_nth)
      ultimately show ?thesis using least[of i] least[of j] least[of q] True pq i jl ij by auto
    next
      case False
      then have pi: "p < i" using pq by simp
      have sp: "swap xs i j ! p = xs ! p" using pi i jl ij by (simp add: swap_nth)
      have "key (xs ! p) \<le> key (xs ! i)" "key (xs ! p) \<le> key (xs ! j)" "key (xs ! p) \<le> key (xs ! q)"
        using inv pi i jl ij pq unfolding sorted_upto_def by simp_all
      moreover have "swap xs i j ! q = xs ! i \<or> swap xs i j ! q = xs ! j \<or> swap xs i j ! q = xs ! q"
        using i jl pq by (simp add: swap_nth)
      ultimately show ?thesis unfolding sp by auto
    qed
  qed
qed

lemma sorted_upto_all:
  "length xs \<le> i \<Longrightarrow> sorted_upto key xs i \<Longrightarrow> sorted (map key xs)"
  by (auto simp: sorted_upto_def sorted_iff_nth_mono)

lemma memcmp_zero:
  "n \<le> length xs \<Longrightarrow> n \<le> length ys \<Longrightarrow> (memcmp xs ys n = 0) = (take n xs = take n ys)"
  by (induction xs ys n rule: memcmp.induct) auto

lemma memcmp_neg:
  "n \<le> length xs \<Longrightarrow> n \<le> length ys \<Longrightarrow> (memcmp xs ys n < 0) = (take n xs < take n ys)"
  by (induction xs ys n rule: memcmp.induct) auto

lemma lexord_common_prefix:
  fixes xs ys :: "u8 list"
  shows "xs < ys \<longleftrightarrow>
     take (min (length xs) (length ys)) xs < take (min (length xs) (length ys)) ys
     \<or> (take (min (length xs) (length ys)) xs = take (min (length xs) (length ys)) ys
        \<and> length xs < length ys)"
proof (induction xs arbitrary: ys)
  case Nil
  then show ?case by (cases ys) simp_all
next
  case (Cons x xs)
  show ?case
  proof (cases ys)
    case Nil
    then show ?thesis by simp
  next
    case (Cons y ys')
    then show ?thesis using Cons.IH[of ys'] by auto
  qed
qed

lemma input_better_key:
  assumes "wf_input a" "wf_input b"
  shows "input_better a b = (input_key a < input_key b)"
proof -
  have t: "length (txid a) = 32" "length (txid b) = 32" using assms by (simp_all add: wf_input_def)
  have s: "length (script a) = unat (script_length a)" "length (script b) = unat (script_length b)"
    using assms by (simp_all add: wf_input_def)
  have z1: "(memcmp (txid a) (txid b) 32 = 0) = (txid a = txid b)"
    using memcmp_zero[of 32 "txid a" "txid b"] t by simp
  have n1: "(memcmp (txid a) (txid b) 32 < 0) = (txid a < txid b)"
    using memcmp_neg[of 32 "txid a" "txid b"] t by simp
  have z2: "(memcmp (script a) (script b) (unat (script_length a)) = 0) = (script a = script b)"
    if "script_length a = script_length b"
    using memcmp_zero[of "unat (script_length a)" "script a" "script b"] s that by simp
  have n2: "(memcmp (script a) (script b) (unat (script_length a)) < 0) = (script a < script b)"
    if "script_length a = script_length b"
    using memcmp_neg[of "unat (script_length a)" "script a" "script b"] s that by simp
  show ?thesis
    unfolding input_better_def input_key_def Let_def less_prod_simp
    using z1 n1 z2 n2 by (auto simp: less_le)
qed

lemma output_better_key:
  assumes "wf_output a" "wf_output b"
  shows "output_better a b = (output_key a < output_key b)"
proof -
  have s: "length (script a) = unat (script_length a)" "length (script b) = unat (script_length b)"
    using assms by (simp_all add: wf_output_def)
  define n where "n = min (length (script a)) (length (script b))"
  have len: "unat (if script_length a < script_length b then script_length a else script_length b) = n"
    using s by (simp add: n_def word_less_nat_alt min_def)
  have nl: "n \<le> length (script a)" "n \<le> length (script b)" by (simp_all add: n_def)
  have sl: "(script_length a < script_length b) = (length (script a) < length (script b))"
    using s by (simp add: word_less_nat_alt)
  note z = memcmp_zero[OF nl]
  note ng = memcmp_neg[OF nl]
  note lx = lexord_common_prefix[of "script a" "script b", folded n_def]
  have ob: "output_better a b =
     (if amount a \<noteq> amount b then amount a < amount b
      else if memcmp (script a) (script b) n \<noteq> 0 then memcmp (script a) (script b) n < 0
      else length (script a) < length (script b))"
    by (simp only: output_better_def Let_def len) (simp only: sl)
  have ok: "(output_key a < output_key b) =
     (amount a < amount b \<or> amount a \<le> amount b \<and>
       (take n (script a) < take n (script b)
        \<or> take n (script a) = take n (script b) \<and> length (script a) < length (script b)))"
    unfolding output_key_def less_prod_simp lx ..
  show ?thesis
    unfolding ob ok using z ng by (auto simp: less_le)
qed

lemma input_key_inj: "input_key a = input_key b \<Longrightarrow> a = b"
  by (cases a, cases b) (simp add: input_key_def)

lemma output_key_inj: "wf_output a \<Longrightarrow> wf_output b \<Longrightarrow> output_key a = output_key b \<Longrightarrow> a = b"
  by (cases a, cases b) (simp add: output_key_def wf_output_def word_unat_eq_iff)

lemma permute_inputs_loop_sorted:
  "\<forall>a\<in>set inputs. wf_input a \<Longrightarrow> sorted_upto input_key inputs i \<Longrightarrow>
     mset (permute_inputs_loop inputs i) = mset inputs
     \<and> sorted (map input_key (permute_inputs_loop inputs i))"
proof (induction inputs i rule: permute_inputs_loop.induct)
  case (1 inputs i)
  show ?case
  proof (cases "i < length inputs")
    case False
    then have e: "permute_inputs_loop inputs i = inputs"
      by (subst permute_inputs_loop.simps) simp
    show ?thesis unfolding e using sorted_upto_all[of inputs i input_key] False "1.prems"(2) by simp
  next
    case True
    define j where "j = i + find_best_in (drop i inputs)"
    have eq: "\<And>a b. a \<in> set inputs \<Longrightarrow> b \<in> set inputs \<Longrightarrow> input_better a b = (input_key a < input_key b)"
      using "1.prems"(1) input_better_key by blast
    note st = selection_step[where key=input_key, OF eq True "1.prems"(2),
        folded find_best_in_def, folded j_def]
    have ms: "mset (swap inputs i j) = mset inputs" using swap_mset[OF True st(1)] .
    then have "set (swap inputs i j) = set inputs" by (rule mset_eq_setD)
    then have wf': "\<forall>a\<in>set (swap inputs i j). wf_input a" using "1.prems"(1) by simp
    have e: "permute_inputs_loop inputs i = permute_inputs_loop (swap inputs i j) (Suc i)"
      unfolding j_def using True by (subst permute_inputs_loop.simps) simp
    show ?thesis
      unfolding e using "1.IH"[OF True wf'[unfolded j_def] st(2)[unfolded j_def]] ms
      by (simp add: j_def)
  qed
qed

lemma permute_outputs_loop_sorted:
  "\<forall>a\<in>set outputs. wf_output a \<Longrightarrow> sorted_upto output_key outputs i \<Longrightarrow>
     mset (permute_outputs_loop outputs i) = mset outputs
     \<and> sorted (map output_key (permute_outputs_loop outputs i))"
proof (induction outputs i rule: permute_outputs_loop.induct)
  case (1 outputs i)
  show ?case
  proof (cases "i < length outputs")
    case False
    then have e: "permute_outputs_loop outputs i = outputs"
      by (subst permute_outputs_loop.simps) simp
    show ?thesis unfolding e using sorted_upto_all[of outputs i output_key] False "1.prems"(2) by simp
  next
    case True
    define j where "j = i + find_best_out (drop i outputs)"
    have eq: "\<And>a b. a \<in> set outputs \<Longrightarrow> b \<in> set outputs \<Longrightarrow> output_better a b = (output_key a < output_key b)"
      using "1.prems"(1) output_better_key by blast
    note st = selection_step[where key=output_key, OF eq True "1.prems"(2),
        folded find_best_out_def, folded j_def]
    have ms: "mset (swap outputs i j) = mset outputs" using swap_mset[OF True st(1)] .
    then have "set (swap outputs i j) = set outputs" by (rule mset_eq_setD)
    then have wf': "\<forall>a\<in>set (swap outputs i j). wf_output a" using "1.prems"(1) by simp
    have e: "permute_outputs_loop outputs i = permute_outputs_loop (swap outputs i j) (Suc i)"
      unfolding j_def using True by (subst permute_outputs_loop.simps) simp
    show ?thesis
      unfolding e using "1.IH"[OF True wf'[unfolded j_def] st(2)[unfolded j_def]] ms
      by (simp add: j_def)
  qed
qed

lemma sorted_upto_0: "sorted_upto key xs 0"
  by (simp add: sorted_upto_def)

lemma permute_inputs_sorted:
  assumes "\<forall>a\<in>set inputs. wf_input a"
  shows "mset (permute_inputs inputs) = mset inputs"
    and "sorted (map input_key (permute_inputs inputs))"
  using permute_inputs_loop_sorted[OF assms sorted_upto_0] by (simp_all add: permute_inputs_def)

lemma permute_outputs_sorted:
  assumes "\<forall>a\<in>set outputs. wf_output a"
  shows "mset (permute_outputs outputs) = mset outputs"
    and "sorted (map output_key (permute_outputs outputs))"
  using permute_outputs_loop_sorted[OF assms sorted_upto_0] by (simp_all add: permute_outputs_def)

lemma sorted_key_unique:
  fixes key :: "'a \<Rightarrow> 'k::linorder"
  assumes inj: "\<And>a b. a \<in> set xs \<Longrightarrow> b \<in> set ys \<Longrightarrow> key a = key b \<Longrightarrow> a = b"
    and m: "mset xs = mset ys"
    and sx: "sorted (map key xs)" and sy: "sorted (map key ys)"
  shows "xs = ys"
proof -
  have "mset (map key xs) = mset (map key ys)" using m by simp
  then have "sort (map key ys) = map key xs" using sx by (rule properties_for_sort)
  moreover have "sort (map key ys) = map key ys" using sy by (rule sorted_sort_id)
  ultimately have e: "map key xs = map key ys" by simp
  have s: "set xs = set ys" using m by (rule mset_eq_setD)
  have "inj_on key (set xs \<union> set ys)"
    unfolding s using inj[unfolded s] by (auto simp: inj_on_def)
  then show ?thesis using e by (simp add: inj_on_map_eq_map)
qed

lemma permute_inputs_deterministic:
  assumes wx: "\<forall>a\<in>set xs. wf_input a" and m: "mset xs = mset ys"
  shows "permute_inputs xs = permute_inputs ys"
proof -
  have wy: "\<forall>a\<in>set ys. wf_input a" using wx mset_eq_setD[OF m] by simp
  show ?thesis
    by (rule sorted_key_unique[where key=input_key])
       (use permute_inputs_sorted[OF wx] permute_inputs_sorted[OF wy] m input_key_inj in auto)
qed

lemma permute_outputs_deterministic:
  assumes wx: "\<forall>a\<in>set xs. wf_output a" and m: "mset xs = mset ys"
  shows "permute_outputs xs = permute_outputs ys"
proof -
  have wy: "\<forall>a\<in>set ys. wf_output a" using wx mset_eq_setD[OF m] by simp
  note px = permute_outputs_sorted[OF wx] and py = permute_outputs_sorted[OF wy]
  have sx: "set (permute_outputs xs) = set xs" using px(1) by (rule mset_eq_setD)
  have sy: "set (permute_outputs ys) = set ys" using py(1) by (rule mset_eq_setD)
  show ?thesis
  proof (rule sorted_key_unique[where key=output_key])
    show "a = b" if "a \<in> set (permute_outputs xs)" "b \<in> set (permute_outputs ys)"
      "output_key a = output_key b" for a b
      using that wx wy sx sy output_key_inj by blast
    show "mset (permute_outputs xs) = mset (permute_outputs ys)" using px(1) py(1) m by simp
    show "sorted (map output_key (permute_outputs xs))" by (rule px(2))
    show "sorted (map output_key (permute_outputs ys))" by (rule py(2))
  qed
qed

text \<open>
  C10. For every array of inputs, \<open>permute_inputs\<close> returns a permutation of the original
  elements sorted ascending by (txid bytes, then output index, then script length, then
  script bytes, then sequence number), and for every array of outputs \<open>permute_outputs\<close>
  returns a permutation sorted ascending by (amount, then the scripts compared
  lexicographically, a proper prefix first). Both depend on the multiset of elements
  only: two parties who start from the same inputs or outputs in any order obtain the
  same ordering.
\<close>

theorem C10_canonical_ordering:
  "((\<forall>a\<in>set inputs. wf_input a) \<longrightarrow>
      mset (permute_inputs inputs) = mset inputs
      \<and> sorted (map input_key (permute_inputs inputs))
      \<and> (\<forall>inputs'. mset inputs' = mset inputs \<longrightarrow> permute_inputs inputs' = permute_inputs inputs))
   \<and> ((\<forall>a\<in>set outputs. wf_output a) \<longrightarrow>
      mset (permute_outputs outputs) = mset outputs
      \<and> sorted (map output_key (permute_outputs outputs))
      \<and> (\<forall>outputs'. mset outputs' = mset outputs \<longrightarrow>
            permute_outputs outputs' = permute_outputs outputs))"
proof (intro conjI impI allI)
  assume w: "\<forall>a\<in>set inputs. wf_input a"
  show "mset (permute_inputs inputs) = mset inputs" by (rule permute_inputs_sorted(1)[OF w])
  show "sorted (map input_key (permute_inputs inputs))" by (rule permute_inputs_sorted(2)[OF w])
  show "permute_inputs inputs' = permute_inputs inputs" if "mset inputs' = mset inputs" for inputs'
    using permute_inputs_deterministic[OF w that[symmetric]] by simp
next
  assume w: "\<forall>a\<in>set outputs. wf_output a"
  show "mset (permute_outputs outputs) = mset outputs" by (rule permute_outputs_sorted(1)[OF w])
  show "sorted (map output_key (permute_outputs outputs))"
    by (rule permute_outputs_sorted(2)[OF w])
  show "permute_outputs outputs' = permute_outputs outputs"
    if "mset outputs' = mset outputs" for outputs'
    using permute_outputs_deterministic[OF w that[symmetric]] by simp
qed

lemma example_inputs_sorted:
  "permute_inputs example_inputs = [example_inputs ! 2, example_inputs ! 1, example_inputs ! 0]"
  by code_simp

lemma example_outputs_sorted:
  "permute_outputs example_outputs = [example_outputs ! 2, example_outputs ! 1, example_outputs ! 0]"
  by code_simp

theorem C10_canonical_ordering_witness:
  "list_all wf_input example_inputs \<and> list_all wf_output example_outputs
   \<and> permute_inputs example_inputs = [example_inputs ! 2, example_inputs ! 1, example_inputs ! 0]
   \<and> sorted (map input_key (permute_inputs example_inputs))
   \<and> permute_inputs (rev example_inputs) = permute_inputs example_inputs
   \<and> permute_outputs example_outputs
       = [example_outputs ! 2, example_outputs ! 1, example_outputs ! 0]
   \<and> sorted (map output_key (permute_outputs example_outputs))
   \<and> permute_outputs (rev example_outputs) = permute_outputs example_outputs"
proof -
  have wi: "\<forall>a\<in>set example_inputs. wf_input a"
    by (simp add: example_inputs_def wf_input_def)
  have wo: "\<forall>a\<in>set example_outputs. wf_output a"
    by (simp add: example_outputs_def wf_output_def)
  show ?thesis
    using C10_canonical_ordering[of example_inputs example_outputs] wi wo
      example_inputs_sorted example_outputs_sorted
    by (simp add: list_all_iff)
qed

section \<open>Shachain round trip\<close>

lemma le_to_cpu_bytes:
  "(le_to_cpu (map (\<lambda>i. ucast (drop_bit (8 * i) v)) [k..<k + n]) :: 'a::len word)
     = take_bit (8 * n) (drop_bit (8 * k) (v :: 'a word))"
proof (induction n arbitrary: k)
  case 0
  then show ?case by simp
next
  case (Suc n)
  have "[k..<k + Suc n] = k # [Suc k..<Suc k + n]" by (simp add: upt_conv_Cons)
  then show ?case
    using Suc.IH[of "Suc k"]
    by simp (rule bit_word_eqI, auto simp: bit_simps)
qed

lemma le64_roundtrip: "le_to_cpu (push_le64 v) = v"
  using le_to_cpu_bytes[of v 0 8] by (simp add: push_le64_def take_bit_word_eq_self)

lemma le32_roundtrip: "le_to_cpu (push_le32 v) = v"
  using le_to_cpu_bytes[of v 0 4] by (simp add: push_le32_def take_bit_word_eq_self)

lemma length_push_le64 [simp]: "length (push_le64 v) = 8"
  by (simp add: push_le64_def)

lemma length_push_le32 [simp]: "length (push_le32 v) = 4"
  by (simp add: push_le32_def)

lemma pull_append: "length bs = n \<Longrightarrow> pull (Some (bs @ rest)) n = (Some rest, bs)"
  by (simp add: pull_def)

lemma pull_le64_push: "pull_le64 (Some (push_le64 v @ rest)) = (Some rest, v)"
  by (simp add: pull_le64_def pull_append le64_roundtrip)

lemma pull_le32_push: "pull_le32 (Some (push_le32 v @ rest)) = (Some rest, v)"
  by (simp add: pull_le32_def pull_append le32_roundtrip)

lemma pull_known_entries:
  "list_all (\<lambda>e. length (sc_hash e) = 32) es \<Longrightarrow>
   pull_known (length es)
     (Some (concat (map (\<lambda>e. push_le64 (sc_index e) @ sc_hash e) es) @ rest))
   = (es @ fst (pull_known 0 (Some rest)), Some rest)"
  by (induction es) (simp_all add: pull_le64_push pull_append)

lemma pull_known_append:
  "pull_known (m + n) c =
     (let (es, c') = pull_known m c; (es', c'') = pull_known n c' in (es @ es', c''))"
  by (induction m arbitrary: c) (simp_all add: Let_def split: prod.splits)

lemma push_le64_zero: "push_le64 0 = replicate 8 0"
  by (simp add: push_le64_def map_replicate_const)

lemma zero_slots:
  "concat (map (\<lambda>i. push_le64 0 @ replicate 32 0) [a..<b])
   = concat (map (\<lambda>e. push_le64 (sc_index e) @ sc_hash e) (replicate (b - a) zero_entry))"
proof -
  have "map (\<lambda>i. push_le64 0 @ replicate 32 (0::u8)) [a..<b]
        = replicate (b - a) (push_le64 0 @ replicate 32 0)"
    by (simp add: map_replicate_const)
  also have "\<dots> = map (\<lambda>e. push_le64 (sc_index e) @ sc_hash e) (replicate (b - a) zero_entry)"
    by (simp add: zero_entry_def)
  finally show ?thesis by simp
qed

lemma length_slots:
  "list_all (\<lambda>e. length (sc_hash e) = 32) es \<Longrightarrow>
   length (concat (map (\<lambda>e. push_le64 (sc_index e) @ sc_hash e) es)) = 40 * length es"
  by (induction es) simp_all

lemma linearize_roundtrip:
  assumes wf: "wf_shachain sc" and nv: "unat (num_valid sc) \<le> 65"
  shows "linearize_shachain sc
         = Inr (push_le64 (min_index sc) @ push_le32 (num_valid sc)
              @ concat (map (\<lambda>e. push_le64 (sc_index e) @ sc_hash e)
                          (take (unat (num_valid sc)) (known sc)))
              @ replicate (40 * (65 - unat (num_valid sc))) 0)"
    and "\<exists>blob. linearize_shachain sc = Inr blob \<and> length blob = 2612
           \<and> delinearize_shachain blob = (True, zero_unused sc)"
proof -
  define n where "n = unat (num_valid sc)"
  define es where "es = take n (known sc) @ replicate (65 - n) zero_entry"
  define enc where "enc = (\<lambda>e::shachain_entry. push_le64 (sc_index e) @ sc_hash e)"
  have len: "length (known sc) = 65" and all: "list_all (\<lambda>e. length (sc_hash e) = 32) (known sc)"
    using wf by (simp_all add: wf_shachain_def)
  have all_es: "list_all (\<lambda>e. length (sc_hash e) = 32) es"
    using all by (auto simp: es_def list_all_iff zero_entry_def dest: in_set_takeD)
  have les: "length es = 65" using nv len by (simp add: es_def n_def)
  define blob where "blob = push_le64 (min_index sc) @ push_le32 (num_valid sc) @ concat (map enc es)"
  have body: "concat (map enc (take n (known sc)))
              @ concat (map (\<lambda>i. push_le64 0 @ replicate 32 0) [n..<length (known sc)])
              = concat (map enc es)"
    unfolding zero_slots by (simp add: es_def enc_def len)
  have lb: "length blob = 2612"
    using length_slots[OF all_es] les by (simp add: blob_def enc_def)
  have lin: "linearize_shachain sc = Inr blob"
    unfolding linearize_shachain_def Let_def n_def[symmetric] enc_def[symmetric]
    using nv lb body by (simp add: len n_def[symmetric] blob_def SHACHAIN_SIZE_def)
  have zs: "concat (replicate k (enc zero_entry)) = replicate (40 * k) 0" for k
    by (induction k) (simp_all add: enc_def zero_entry_def push_le64_zero replicate_add[symmetric])
  show "linearize_shachain sc
         = Inr (push_le64 (min_index sc) @ push_le32 (num_valid sc)
              @ concat (map (\<lambda>e. push_le64 (sc_index e) @ sc_hash e)
                          (take (unat (num_valid sc)) (known sc)))
              @ replicate (40 * (65 - unat (num_valid sc))) 0)"
    unfolding lin blob_def es_def by (simp add: zs enc_def[symmetric] n_def)
  have pk: "pull_known 65 (Some (concat (map enc es))) = (es, Some [])"
    using pull_known_entries[OF all_es, of "[]"] les by (simp add: enc_def)
  have "delinearize_shachain blob = (True, \<lparr>min_index = min_index sc, num_valid = num_valid sc, known = es\<rparr>)"
    by (simp add: delinearize_shachain_def blob_def pull_le64_push pull_le32_push pk)
  moreover have "\<lparr>min_index = min_index sc, num_valid = num_valid sc, known = es\<rparr> = zero_unused sc"
    by (simp add: zero_unused_def es_def n_def)
  ultimately show "\<exists>blob. linearize_shachain sc = Inr blob \<and> length blob = 2612
           \<and> delinearize_shachain blob = (True, zero_unused sc)"
    using lin lb by simp
qed

lemma zero_unused_eq_iff:
  assumes len: "length (known sc) = 65" and nv: "unat (num_valid sc) \<le> 65"
  shows "zero_unused sc = sc
         \<longleftrightarrow> drop (unat (num_valid sc)) (known sc) = replicate (65 - unat (num_valid sc)) zero_entry"
proof -
  define n where "n = unat (num_valid sc)"
  have "zero_unused sc = sc \<longleftrightarrow> take n (known sc) @ replicate (65 - n) zero_entry = known sc"
    by (cases sc) (simp add: zero_unused_def n_def)
  also have "\<dots> \<longleftrightarrow> take n (known sc) @ replicate (65 - n) zero_entry
                     = take n (known sc) @ drop n (known sc)"
    by simp
  also have "\<dots> \<longleftrightarrow> drop n (known sc) = replicate (65 - n) zero_entry"
    by (simp only: same_append_eq) auto
  finally show ?thesis by (simp add: n_def)
qed

text \<open>
  C5 (amended). For every shachain with \<open>num_valid\<close> at most 65, \<open>linearize_shachain\<close>
  produces exactly 2612 bytes laid out little-endian as \<open>(u64 min_index)(u32 num_valid)\<close>
  followed by the \<open>num_valid\<close> valid \<open>(u64 index, 32-byte hash)\<close> slots and zeroes for
  the rest; \<open>delinearize_shachain\<close> of these bytes succeeds and yields a shachain with
  the same \<open>min_index\<close>, \<open>num_valid\<close> and valid slots, and every slot past \<open>num_valid\<close>
  zero. It is the shachain itself exactly when the slots past \<open>num_valid\<close> were zero
  already.
\<close>

theorem C5_shachain_roundtrip:
  "wf_shachain sc \<and> unat (num_valid sc) \<le> 65 \<longrightarrow>
     (\<exists>blob sc'. linearize_shachain sc = Inr blob \<and> length blob = 2612
        \<and> blob = push_le64 (min_index sc) @ push_le32 (num_valid sc)
                 @ concat (map (\<lambda>e. push_le64 (sc_index e) @ sc_hash e)
                             (take (unat (num_valid sc)) (known sc)))
                 @ replicate (40 * (65 - unat (num_valid sc))) 0
        \<and> delinearize_shachain blob = (True, sc')
        \<and> min_index sc' = min_index sc \<and> num_valid sc' = num_valid sc
        \<and> take (unat (num_valid sc)) (known sc') = take (unat (num_valid sc)) (known sc)
        \<and> drop (unat (num_valid sc)) (known sc') = replicate (65 - unat (num_valid sc)) zero_entry
        \<and> (sc' = sc \<longleftrightarrow>
             drop (unat (num_valid sc)) (known sc)
               = replicate (65 - unat (num_valid sc)) zero_entry))"
proof
  assume a: "wf_shachain sc \<and> unat (num_valid sc) \<le> 65"
  then have wf: "wf_shachain sc" and nv: "unat (num_valid sc) \<le> 65" by simp_all
  have len: "length (known sc) = 65" using wf by (simp add: wf_shachain_def)
  from linearize_roundtrip(2)[OF wf nv] obtain blob where
    b: "linearize_shachain sc = Inr blob" "length blob = 2612"
       "delinearize_shachain blob = (True, zero_unused sc)" by blast
  have lay: "blob = push_le64 (min_index sc) @ push_le32 (num_valid sc)
                 @ concat (map (\<lambda>e. push_le64 (sc_index e) @ sc_hash e)
                             (take (unat (num_valid sc)) (known sc)))
                 @ replicate (40 * (65 - unat (num_valid sc))) 0"
    using linearize_roundtrip(1)[OF wf nv] b(1) by simp
  have f: "min_index (zero_unused sc) = min_index sc" "num_valid (zero_unused sc) = num_valid sc"
    "take (unat (num_valid sc)) (known (zero_unused sc)) = take (unat (num_valid sc)) (known sc)"
    "drop (unat (num_valid sc)) (known (zero_unused sc))
       = replicate (65 - unat (num_valid sc)) zero_entry"
    using nv len by (simp_all add: zero_unused_def)
  show "\<exists>blob sc'. linearize_shachain sc = Inr blob \<and> length blob = 2612
        \<and> blob = push_le64 (min_index sc) @ push_le32 (num_valid sc)
                 @ concat (map (\<lambda>e. push_le64 (sc_index e) @ sc_hash e)
                             (take (unat (num_valid sc)) (known sc)))
                 @ replicate (40 * (65 - unat (num_valid sc))) 0
        \<and> delinearize_shachain blob = (True, sc')
        \<and> min_index sc' = min_index sc \<and> num_valid sc' = num_valid sc
        \<and> take (unat (num_valid sc)) (known sc') = take (unat (num_valid sc)) (known sc)
        \<and> drop (unat (num_valid sc)) (known sc') = replicate (65 - unat (num_valid sc)) zero_entry
        \<and> (sc' = sc \<longleftrightarrow>
             drop (unat (num_valid sc)) (known sc)
               = replicate (65 - unat (num_valid sc)) zero_entry)"
    using b lay f zero_unused_eq_iff[OF len nv] by blast
qed

lemma wf_one_entry: "wf_shachain one_entry_shachain \<and> unat (num_valid one_entry_shachain) \<le> 65"
  by (simp add: wf_shachain_def one_entry_shachain_def zero_entry_def list_all_iff)

lemma wf_stale: "wf_shachain stale_shachain" "unat (num_valid stale_shachain) \<le> 65"
  by (simp_all add: wf_shachain_def stale_shachain_def zero_entry_def list_all_iff)

theorem C5_shachain_roundtrip_witness:
  "wf_shachain one_entry_shachain \<and> unat (num_valid one_entry_shachain) \<le> 65
   \<and> (\<exists>blob. linearize_shachain one_entry_shachain = Inr blob \<and> length blob = 2612
         \<and> delinearize_shachain blob = (True, one_entry_shachain))"
proof -
  have d: "drop (unat (num_valid one_entry_shachain)) (known one_entry_shachain)
           = replicate (65 - unat (num_valid one_entry_shachain)) zero_entry"
    by (simp add: one_entry_shachain_def)
  show ?thesis
    using C5_shachain_roundtrip[of one_entry_shachain] wf_one_entry d by blast
qed

text \<open>
  C5 as stated fails for a shachain that holds data in a slot past \<open>num_valid\<close>: the
  data is written as zeroes and read back as zeroes.
\<close>

theorem C5_stale_slot_counterexample:
  "wf_shachain stale_shachain \<and> unat (num_valid stale_shachain) \<le> 65
   \<and> linearize_shachain stale_shachain = Inr (replicate 2612 0)
   \<and> delinearize_shachain (replicate 2612 0)
       = (True, \<lparr>min_index = 0, num_valid = 0, known = replicate 65 zero_entry\<rparr>)
   \<and> \<lparr>min_index = 0, num_valid = 0, known = replicate 65 zero_entry\<rparr> \<noteq> stale_shachain"
proof -
  have l: "linearize_shachain stale_shachain = Inr (replicate 2612 0)"
    using linearize_roundtrip(1)[OF wf_stale]
    by (simp add: stale_shachain_def push_le64_zero push_le32_def replicate_add[symmetric]
        map_replicate_const del: replicate_Suc)
  have z: "zero_unused stale_shachain = \<lparr>min_index = 0, num_valid = 0, known = replicate 65 zero_entry\<rparr>"
    by (simp add: zero_unused_def stale_shachain_def)
  have d: "delinearize_shachain (replicate 2612 0)
       = (True, \<lparr>min_index = 0, num_valid = 0, known = replicate 65 zero_entry\<rparr>)"
    using linearize_roundtrip(2)[OF wf_stale] l z by simp
  have "last (replicate 65 zero_entry) \<noteq> last (known stale_shachain)"
    by (simp add: stale_shachain_def zero_entry_def)
  then have "replicate 65 zero_entry \<noteq> known stale_shachain" by metis
  then have n: "\<lparr>min_index = 0, num_valid = 0, known = replicate 65 zero_entry\<rparr> \<noteq> stale_shachain"
    by (metis shachain.select_convs(3))
  show ?thesis using wf_stale l d n by simp
qed

section \<open>The transaction flag\<close>

lemma db_exec_all_flag: "db_exec_all fails qs d = (e, d') \<Longrightarrow> in_transaction d' = in_transaction d"
  by (induction qs arbitrary: d) (auto simp: db_exec_def Let_def split: if_splits)

lemma db_exec_all_statements:
  "db_exec_all fails qs d = (False, d') \<Longrightarrow> statements d' = statements d @ qs"
  by (induction qs arbitrary: d) (auto simp: db_exec_def Let_def split: if_splits)

lemma db_start_transaction_cases:
  assumes off: "\<not> in_transaction d"
  obtains (started) d1 where "db_start_transaction fails d = Inr (True, d1)"
      "in_transaction d1" "statements d1 = statements d @ [BEGIN_IMMEDIATE]"
    | (refused) d1 where "db_start_transaction fails d = Inr (False, d1)" "\<not> in_transaction d1"
proof (cases "fails (statements d) BEGIN_IMMEDIATE")
  case True
  show ?thesis
    by (rule refused[of "d\<lparr>statements := statements d @ [BEGIN_IMMEDIATE]\<rparr>"])
       (use off True in \<open>simp_all add: db_start_transaction_def db_exec_def\<close>)
next
  case False
  show ?thesis
    by (rule started[of "d\<lparr>statements := statements d @ [BEGIN_IMMEDIATE],
                          in_transaction := True\<rparr>"])
       (use off False in \<open>simp_all add: db_start_transaction_def db_exec_def\<close>)
qed

lemma db_abort_transaction_returns:
  "in_transaction d \<Longrightarrow> \<exists>d'. db_abort_transaction fails d = Inr d' \<and> \<not> in_transaction d'"
  by (simp add: db_abort_transaction_def db_exec_def Let_def)

lemma db_commit_transaction_returns:
  "in_transaction d \<Longrightarrow>
     \<exists>d'. db_commit_transaction fails d = Inr (\<not> fails (statements d) COMMIT, d')
          \<and> \<not> in_transaction d'"
  by (simp add: db_commit_transaction_def db_exec_def Let_def)

lemma own_transaction_discipline:
  assumes off: "\<not> in_transaction d"
    and commits: "\<not> fails (statements d @ BEGIN_IMMEDIATE # qs) COMMIT"
  shows "\<exists>ok d'. own_transaction fails qs d = Inr (ok, d') \<and> \<not> in_transaction d'"
  using off
proof (cases rule: db_start_transaction_cases[where fails = fails])
  case (refused d1)
  then show ?thesis by (auto simp: own_transaction_def)
next
  case (started d1)
  obtain errmsg d2 where ex: "db_exec_all fails qs d1 = (errmsg, d2)"
    by (cases "db_exec_all fails qs d1")
  have on: "in_transaction d2" using db_exec_all_flag[OF ex] started(2) by simp
  show ?thesis
  proof (cases errmsg)
    case True
    from db_abort_transaction_returns[OF on, of fails] obtain d3 where
      "db_abort_transaction fails d2 = Inr d3" "\<not> in_transaction d3" by blast
    then show ?thesis using started(1) ex True by (auto simp: own_transaction_def)
  next
    case False
    have "statements d2 = statements d @ BEGIN_IMMEDIATE # qs"
      using db_exec_all_statements[of fails qs d1 d2] ex False started(3) by simp
    then have ok: "\<not> fails (statements d2) COMMIT" using commits by simp
    from db_commit_transaction_returns[OF on, of fails] ok obtain d3 where
      "db_commit_transaction fails d2 = Inr (True, d3)" "\<not> in_transaction d3" by auto
    then show ?thesis using started(1) ex False by (auto simp: own_transaction_def)
  qed
qed

lemma db_forget_peer_discipline:
  assumes off: "\<not> in_transaction d" and closed: closed
  shows "db_forget_peer fails closed d = Inl Fatal
         \<or> (\<exists>d'. db_forget_peer fails closed d = Inr d' \<and> \<not> in_transaction d')"
  using off
proof (cases rule: db_start_transaction_cases[where fails = fails])
  case (refused d1)
  then show ?thesis using closed by (simp add: db_forget_peer_def)
next
  case (started d1)
  define qs where "qs = map DELETE [''anchors'', ''htlcs'', ''commit_info'', ''shachain'',
                         ''their_visible_state'', ''their_commitments'', ''peer_secrets'',
                         ''closing'', ''peers'']"
  obtain errmsg d2 where ex: "db_exec_all fails qs d1 = (errmsg, d2)"
    by (cases "db_exec_all fails qs d1")
  have on: "in_transaction d2" using db_exec_all_flag[OF ex] started(2) by simp
  from db_commit_transaction_returns[OF on, of fails] obtain d3 where
    c: "db_commit_transaction fails d2 = Inr (\<not> fails (statements d2) COMMIT, d3)"
       "\<not> in_transaction d3" by blast
  show ?thesis
    using closed started(1) ex c
    unfolding db_forget_peer_def qs_def[symmetric]
    by (cases errmsg) auto
qed

lemma write_in_transaction_asserts:
  "\<not> in_transaction d \<Longrightarrow> write_in_transaction fails qs d = Inl AssertionFailed"
  by (simp add: write_in_transaction_def)

lemma write_in_transaction_returns:
  "in_transaction d \<Longrightarrow>
     \<exists>ok d'. write_in_transaction fails qs d = Inr (ok, d') \<and> in_transaction d'"
  by (cases "db_exec_all fails qs d") (auto simp: write_in_transaction_def dest: db_exec_all_flag)

lemma write_unchecked_returns:
  "\<exists>ok d'. write_unchecked fails qs d = Inr (ok, d') \<and> in_transaction d' = in_transaction d"
  by (cases "db_exec_all fails qs d") (auto simp: write_unchecked_def dest: db_exec_all_flag)

lemmas asserting_writer_defs =
  db_set_anchor_def db_update_next_revocation_hash_def db_new_htlc_def
  db_update_htlc_state_def db_update_state_def db_new_commit_info_def
  db_remove_their_prev_revocation_hash_def db_save_shachain_def db_add_commit_map_def
  db_begin_shutdown_def db_set_our_closing_script_def

text \<open>
  C9 (as amended). An assertion on the flag fails in the model exactly when a call finds
  the flag in the other state, so a run without \<open>AssertionFailed\<close> is a run in which
  every \<open>db_start_transaction\<close> found the flag false and every \<open>db_commit_transaction\<close>,
  \<open>db_abort_transaction\<close> and asserting writer found it true.

  The transactions db.c runs itself: entered with the flag false, as \<open>db_init\<close> leaves
  it, \<open>db_set_visible_state\<close>, \<open>db_create_peer\<close> and \<open>db_forget_peer\<close> find the flag
  false at their \<open>db_start_transaction\<close>, true at their \<open>db_commit_transaction\<close> and true
  at the \<open>db_abort_transaction\<close> that follows a failed statement, whatever the engine
  does, and they return with the flag false again. (The \<open>db_abort_transaction\<close> that
  follows a failed \<open>COMMIT\<close> is left out: the hypothesis on \<open>COMMIT\<close>.) Between a
  successful \<open>db_start_transaction\<close> and the commit or abort the flag stays true,
  whatever statements are executed and whichever of them fails.

  The assertions: \<open>db_start_transaction\<close> asserts that the flag is false and sets it on
  success; \<open>db_commit_transaction\<close> and \<open>db_abort_transaction\<close> assert that it is true
  and clear it. The flag is asserted to be true, and left true, by the writers
  \<open>db_set_anchor\<close>, \<open>db_update_next_revocation_hash\<close>, \<open>db_new_htlc\<close>,
  \<open>db_update_htlc_state\<close>, \<open>db_update_state\<close>, \<open>db_new_commit_info\<close>,
  \<open>db_remove_their_prev_revocation_hash\<close>, \<open>db_save_shachain\<close>, \<open>db_add_commit_map\<close>,
  \<open>db_begin_shutdown\<close> and \<open>db_set_our_closing_script\<close>. \<open>db_htlc_fulfilled\<close> and
  \<open>db_update_our_closing\<close> are called both inside and outside a transaction and assert
  nothing; \<open>db_set_their_closing_script\<close> and \<open>db_update_their_closing\<close> assert that the
  flag is false.
\<close>

theorem C9_transaction_flag:
  "(\<not> in_transaction d \<longrightarrow>
      (\<not> fails (statements d @ [BEGIN_IMMEDIATE, INSERT ''their_visible_state'']) COMMIT \<longrightarrow>
         (\<exists>ok d'. db_set_visible_state fails d = Inr (ok, d') \<and> \<not> in_transaction d'))
      \<and> (\<not> fails (statements d @ [BEGIN_IMMEDIATE, INSERT ''peers'', INSERT ''peer_secrets'',
                     INSERT ''peer_address'']) COMMIT \<longrightarrow>
         (\<exists>ok d'. db_create_peer fails d = Inr (ok, d') \<and> \<not> in_transaction d'))
      \<and> (db_forget_peer fails True d = Inl Fatal
          \<or> (\<exists>d'. db_forget_peer fails True d = Inr d' \<and> \<not> in_transaction d')))
   \<and> (\<forall>d1 errmsg d2. db_start_transaction fails d = Inr (True, d1)
          \<and> db_exec_all fails qs d1 = (errmsg, d2) \<longrightarrow> in_transaction d2)
   \<and> (in_transaction d \<longrightarrow> db_start_transaction fails d = Inl AssertionFailed)
   \<and> (\<not> in_transaction d \<longrightarrow>
        db_commit_transaction fails d = Inl AssertionFailed
        \<and> db_abort_transaction fails d = Inl AssertionFailed)
   \<and> (\<forall>w\<in>set asserting_writers. \<not> in_transaction d \<longrightarrow> w fails d = Inl AssertionFailed)
   \<and> (\<forall>w\<in>set asserting_writers. in_transaction d \<longrightarrow>
        (\<exists>ok d'. w fails d = Inr (ok, d') \<and> in_transaction d'))
   \<and> (\<forall>w\<in>set unchecked_writers.
        \<exists>ok d'. w fails d = Inr (ok, d') \<and> in_transaction d' = in_transaction d)
   \<and> (in_transaction d \<longrightarrow>
        db_set_their_closing_script fails d = Inl AssertionFailed
        \<and> db_update_their_closing fails d = Inl AssertionFailed)
   \<and> (\<forall>d'. db_start_transaction fails d = Inr (True, d') \<longrightarrow> in_transaction d')
   \<and> (\<forall>ok d'. db_commit_transaction fails d = Inr (ok, d') \<longrightarrow> \<not> in_transaction d')
   \<and> (\<forall>d'. db_abort_transaction fails d = Inr d' \<longrightarrow> \<not> in_transaction d')"
proof (intro conjI impI)
  assume off: "\<not> in_transaction d"
  show "\<exists>ok d'. db_set_visible_state fails d = Inr (ok, d') \<and> \<not> in_transaction d'"
    if "\<not> fails (statements d @ [BEGIN_IMMEDIATE, INSERT ''their_visible_state'']) COMMIT"
    unfolding db_set_visible_state_def using off that by (rule own_transaction_discipline)
  show "\<exists>ok d'. db_create_peer fails d = Inr (ok, d') \<and> \<not> in_transaction d'"
    if "\<not> fails (statements d @ [BEGIN_IMMEDIATE, INSERT ''peers'', INSERT ''peer_secrets'',
                     INSERT ''peer_address'']) COMMIT"
    unfolding db_create_peer_def using off that by (rule own_transaction_discipline)
  show "db_forget_peer fails True d = Inl Fatal
          \<or> (\<exists>d'. db_forget_peer fails True d = Inr d' \<and> \<not> in_transaction d')"
    using off by (rule db_forget_peer_discipline) simp
  show "db_commit_transaction fails d = Inl AssertionFailed"
    using off by (simp add: db_commit_transaction_def)
  show "db_abort_transaction fails d = Inl AssertionFailed"
    using off by (simp add: db_abort_transaction_def)
next
  assume on: "in_transaction d"
  show "db_start_transaction fails d = Inl AssertionFailed"
    using on by (simp add: db_start_transaction_def)
  show "db_set_their_closing_script fails d = Inl AssertionFailed"
    using on by (simp add: db_set_their_closing_script_def write_outside_transaction_def)
  show "db_update_their_closing fails d = Inl AssertionFailed"
    using on by (simp add: db_update_their_closing_def write_outside_transaction_def)
next
  have started: "in_transaction d1" if "db_start_transaction fails d = Inr (True, d1)" for d1
    using that by (auto simp: db_start_transaction_def db_exec_def Let_def split: if_splits)
  show "\<forall>d1 errmsg d2. db_start_transaction fails d = Inr (True, d1)
          \<and> db_exec_all fails qs d1 = (errmsg, d2) \<longrightarrow> in_transaction d2"
    using started db_exec_all_flag[of fails qs] by blast
  show "\<forall>w\<in>set asserting_writers. \<not> in_transaction d \<longrightarrow> w fails d = Inl AssertionFailed"
    by (simp add: asserting_writers_def write_in_transaction_asserts asserting_writer_defs)
  show "\<forall>w\<in>set asserting_writers. in_transaction d \<longrightarrow>
        (\<exists>ok d'. w fails d = Inr (ok, d') \<and> in_transaction d')"
    by (simp add: asserting_writers_def write_in_transaction_returns asserting_writer_defs)
  show "\<forall>w\<in>set unchecked_writers.
        \<exists>ok d'. w fails d = Inr (ok, d') \<and> in_transaction d' = in_transaction d"
    using write_unchecked_returns[of fails "[UPDATE ''htlcs'']" d]
      write_unchecked_returns[of fails "[UPDATE ''closing'']" d]
    by (simp add: unchecked_writers_def db_htlc_fulfilled_def db_update_our_closing_def)
  show "\<forall>d'. db_start_transaction fails d = Inr (True, d') \<longrightarrow> in_transaction d'"
    by (auto simp: db_start_transaction_def db_exec_def Let_def split: if_splits)
  show "\<forall>ok d'. db_commit_transaction fails d = Inr (ok, d') \<longrightarrow> \<not> in_transaction d'"
    by (auto simp: db_commit_transaction_def db_exec_def Let_def split: if_splits)
  show "\<forall>d'. db_abort_transaction fails d = Inr d' \<longrightarrow> \<not> in_transaction d'"
    by (auto simp: db_abort_transaction_def db_exec_def Let_def split: if_splits)
qed

lemma create_peer_run:
  "db_create_peer never_fails fresh_db
     = Inr (True, \<lparr>in_transaction = False,
             statements = [BEGIN_IMMEDIATE, INSERT ''peers'', INSERT ''peer_secrets'',
                           INSERT ''peer_address'', COMMIT]\<rparr>)"
  by (simp add: db_create_peer_def own_transaction_def db_start_transaction_def db_exec_def
      db_commit_transaction_def never_fails_def fresh_db_def Let_def)

lemma start_run:
  "db_start_transaction never_fails fresh_db
     = Inr (True, \<lparr>in_transaction = True, statements = [BEGIN_IMMEDIATE]\<rparr>)"
  by (simp add: db_start_transaction_def db_exec_def never_fails_def fresh_db_def)

theorem C9_transaction_flag_witness:
  "\<not> in_transaction fresh_db
   \<and> \<not> never_fails (statements fresh_db @ [BEGIN_IMMEDIATE, INSERT ''peers'',
           INSERT ''peer_secrets'', INSERT ''peer_address'']) COMMIT
   \<and> db_create_peer never_fails fresh_db
       = Inr (True, \<lparr>in_transaction = False,
               statements = [BEGIN_IMMEDIATE, INSERT ''peers'', INSERT ''peer_secrets'',
                             INSERT ''peer_address'', COMMIT]\<rparr>)
   \<and> (\<exists>ok d'. db_set_visible_state never_fails fresh_db = Inr (ok, d') \<and> \<not> in_transaction d')
   \<and> db_commit_transaction never_fails fresh_db = Inl AssertionFailed
   \<and> db_new_htlc \<in> set asserting_writers
   \<and> db_new_htlc never_fails fresh_db = Inl AssertionFailed
   \<and> db_start_transaction never_fails fresh_db
       = Inr (True, \<lparr>in_transaction = True, statements = [BEGIN_IMMEDIATE]\<rparr>)
   \<and> in_transaction \<lparr>in_transaction = True, statements = [BEGIN_IMMEDIATE]\<rparr>
   \<and> db_start_transaction never_fails \<lparr>in_transaction = True, statements = [BEGIN_IMMEDIATE]\<rparr>
       = Inl AssertionFailed
   \<and> (\<exists>ok d'. db_new_htlc never_fails \<lparr>in_transaction = True, statements = [BEGIN_IMMEDIATE]\<rparr>
         = Inr (ok, d') \<and> in_transaction d')
   \<and> db_update_their_closing never_fails
        \<lparr>in_transaction = True, statements = [BEGIN_IMMEDIATE]\<rparr> = Inl AssertionFailed"
proof -
  have off: "\<not> in_transaction fresh_db" by (simp add: fresh_db_def)
  have nf: "\<not> never_fails (statements fresh_db @ [BEGIN_IMMEDIATE, INSERT ''peers'',
           INSERT ''peer_secrets'', INSERT ''peer_address'']) COMMIT"
    "\<not> never_fails (statements fresh_db @ [BEGIN_IMMEDIATE, INSERT ''their_visible_state''])
           COMMIT"
    by (simp_all add: never_fails_def)
  have m: "db_new_htlc \<in> set asserting_writers" by (simp add: asserting_writers_def)
  have on: "in_transaction \<lparr>in_transaction = True, statements = [BEGIN_IMMEDIATE]\<rparr>" by simp
  note A = C9_transaction_flag[of fresh_db never_fails "[]"]
  note B = C9_transaction_flag[of "\<lparr>in_transaction = True, statements = [BEGIN_IMMEDIATE]\<rparr>"
      never_fails "[]"]
  from A off nf(2) have 1:
    "\<exists>ok d'. db_set_visible_state never_fails fresh_db = Inr (ok, d') \<and> \<not> in_transaction d'"
    by (elim conjE) (erule (1) impE, elim conjE, erule (1) impE)
  from A off have 2: "db_commit_transaction never_fails fresh_db = Inl AssertionFailed"
    by (elim conjE) (erule impE[of "\<not> in_transaction fresh_db" "_ \<and> _"], assumption, elim conjE)
  from A off m have 3: "db_new_htlc never_fails fresh_db = Inl AssertionFailed"
    by (elim conjE) (drule (1) bspec, erule (1) impE)
  from B on have 4:
    "db_start_transaction never_fails \<lparr>in_transaction = True, statements = [BEGIN_IMMEDIATE]\<rparr>
       = Inl AssertionFailed"
    by (elim conjE) (erule (1) impE)
  from B on m have 5:
    "\<exists>ok d'. db_new_htlc never_fails \<lparr>in_transaction = True, statements = [BEGIN_IMMEDIATE]\<rparr>
         = Inr (ok, d') \<and> in_transaction d'"
    by (elim conjE) blast
  from B on have 6:
    "db_update_their_closing never_fails
        \<lparr>in_transaction = True, statements = [BEGIN_IMMEDIATE]\<rparr> = Inl AssertionFailed"
    by (elim conjE) blast
  show ?thesis
    by (intro conjI off nf(1) create_peer_run 1 2 m 3 start_run on 4 5 6)
qed

text \<open>
  C9 as stated fails twice. \<open>db_htlc_fulfilled\<close> writes the preimage of an HTLC within a
  protocol step and runs with the flag false as with the flag true, no assertion in its
  way: it is called from both places. And the flag is not true before every
  \<open>db_abort_transaction\<close>: when the \<open>COMMIT\<close> of \<open>db_create_peer\<close> or
  \<open>db_set_visible_state\<close> fails, \<open>db_commit_transaction\<close> has already cleared the flag,
  and the \<open>db_abort_transaction\<close> that follows fails its own assertion.
\<close>

theorem C9_unasserted_write_counterexample:
  "db_htlc_fulfilled never_fails \<lparr>in_transaction = False, statements = []\<rparr>
     = Inr (True, \<lparr>in_transaction = False, statements = [UPDATE ''htlcs'']\<rparr>)
   \<and> db_htlc_fulfilled never_fails \<lparr>in_transaction = True, statements = [BEGIN_IMMEDIATE]\<rparr>
     = Inr (True, \<lparr>in_transaction = True, statements = [BEGIN_IMMEDIATE, UPDATE ''htlcs'']\<rparr>)
   \<and> db_commit_transaction commit_fails
        \<lparr>in_transaction = True, statements = [BEGIN_IMMEDIATE, INSERT ''their_visible_state'']\<rparr>
     = Inr (False, \<lparr>in_transaction = False,
             statements = [BEGIN_IMMEDIATE, INSERT ''their_visible_state'', COMMIT]\<rparr>)
   \<and> db_abort_transaction commit_fails
        \<lparr>in_transaction = False,
         statements = [BEGIN_IMMEDIATE, INSERT ''their_visible_state'', COMMIT]\<rparr>
     = Inl AssertionFailed
   \<and> db_set_visible_state commit_fails \<lparr>in_transaction = False, statements = []\<rparr>
     = Inl AssertionFailed
   \<and> db_create_peer commit_fails \<lparr>in_transaction = False, statements = []\<rparr>
     = Inl AssertionFailed"
  by (simp add: db_htlc_fulfilled_def write_unchecked_def db_exec_def never_fails_def
      db_create_peer_def db_set_visible_state_def own_transaction_def db_start_transaction_def
      db_commit_transaction_def db_abort_transaction_def commit_fails_def Let_def)

text \<open>
  The second failure in general: whenever the statements of an own transaction succeed
  and its \<open>COMMIT\<close> fails, the flag is already cleared when \<open>db_abort_transaction\<close> is
  called, and the run ends in its failed assertion.
\<close>

lemma own_transaction_failed_commit:
  assumes "\<not> in_transaction d"
    and "\<not> fails (statements d) BEGIN_IMMEDIATE"
    and "\<not> fails (statements d @ [BEGIN_IMMEDIATE]) q"
    and "fails (statements d @ [BEGIN_IMMEDIATE, q]) COMMIT"
  shows "own_transaction fails [q] d = Inl AssertionFailed"
  using assms
  by (simp add: own_transaction_def db_start_transaction_def db_exec_def Let_def
      db_commit_transaction_def db_abort_transaction_def)
section \<open>Accepting ADD_HTLC and REVOCATION\<close>

text \<open>
  C7 (as amended). For a remote staging state that counts at most 300 HTLCs on the remote
  side, \<open>accept_pkt_htlc_add\<close> returns an \<open>ERROR\<close> packet, leaving the peer as it was and
  storing no HTLC, exactly when \<open>amount_msat\<close> is 0 (``Invalid amount_msat''), the expiry
  cannot be converted to an absolute locktime (``Invalid HTLC expiry''), the expiry is in
  seconds rather than a block height (``HTLC expiry in seconds not supported!''), the
  side does not have fewer than 300 HTLCs (``Too many HTLCs''), or an HTLC with the same
  id is registered for REMOTE (``HTLC id ... clashes for you''), the first of these that
  applies giving the text; otherwise it returns \<open>NULL\<close> and registers the HTLC for REMOTE
  in state \<open>RCVD_ADD_HTLC\<close>, with the packet's id, amount, hash, expiry in blocks and
  route. Nothing is said of a side that counts more than 300.
\<close>

theorem C7_add_htlc_validation:
  assumes "num_htlcs (side (remote_staging_cstate p) THEIRS) \<le> 300"
  shows
  "(fst (accept_pkt_htlc_add ops p u) \<noteq> None \<longleftrightarrow>
      (u_amount_msat u = 0
       \<or> proto_to_abs_locktime ops (u_expiry u) = None
       \<or> (\<exists>e. proto_to_abs_locktime ops (u_expiry u) = Some e \<and> abs_locktime_is_seconds ops e)
       \<or> \<not> num_htlcs (side (remote_staging_cstate p) THEIRS) < 300
       \<or> htlc_get (htlcs p) (u_id u) REMOTE \<noteq> None))
   \<and> (u_amount_msat u = 0 \<longrightarrow>
        accept_pkt_htlc_add ops p u = (Some (PKT_ERROR ''Invalid amount_msat''), p, None))
   \<and> (u_amount_msat u \<noteq> 0 \<and> proto_to_abs_locktime ops (u_expiry u) = None \<longrightarrow>
        accept_pkt_htlc_add ops p u = (Some (PKT_ERROR ''Invalid HTLC expiry''), p, None))
   \<and> (\<forall>e. u_amount_msat u \<noteq> 0 \<and> proto_to_abs_locktime ops (u_expiry u) = Some e \<longrightarrow>
        (abs_locktime_is_seconds ops e \<longrightarrow>
           accept_pkt_htlc_add ops p u
           = (Some (PKT_ERROR ''HTLC expiry in seconds not supported!''), p, None))
        \<and> (\<not> abs_locktime_is_seconds ops e
             \<and> \<not> num_htlcs (side (remote_staging_cstate p) THEIRS) < 300 \<longrightarrow>
           accept_pkt_htlc_add ops p u = (Some (PKT_ERROR ''Too many HTLCs''), p, None))
        \<and> (\<not> abs_locktime_is_seconds ops e
             \<and> num_htlcs (side (remote_staging_cstate p) THEIRS) < 300
             \<and> htlc_get (htlcs p) (u_id u) REMOTE \<noteq> None \<longrightarrow>
           accept_pkt_htlc_add ops p u
           = (Some (PKT_ERROR (''HTLC id '' @ decimal (unat (u_id u)) @ '' clashes for you'')),
              p, None)))
   \<and> (fst (accept_pkt_htlc_add ops p u) \<noteq> None \<longrightarrow>
        snd (accept_pkt_htlc_add ops p u) = (p, None))
   \<and> (fst (accept_pkt_htlc_add ops p u) = None \<longrightarrow>
        (\<exists>h e. proto_to_abs_locktime ops (u_expiry u) = Some e
           \<and> accept_pkt_htlc_add ops p u
               = (None, p\<lparr>htlcs := (htlcs p)((REMOTE, u_id u) \<mapsto> h)\<rparr>, Some h)
           \<and> state h = RCVD_ADD_HTLC \<and> owner h = REMOTE \<and> htlc_id h = u_id u
           \<and> msatoshis h = u_amount_msat u \<and> rhash h = u_r_hash u
           \<and> expiry h = abs_locktime_to_blocks ops e \<and> routing h = u_route u
           \<and> htlc_r h = None))"
proof -
  have lim: "(\<not> num_htlcs (side (remote_staging_cstate p) THEIRS) < 300)
             = (num_htlcs (side (remote_staging_cstate p) THEIRS) = 300)"
    using assms by auto
  show ?thesis
    unfolding lim
    by (cases "proto_to_abs_locktime ops (u_expiry u)")
       (auto simp: accept_pkt_htlc_add_def peer_new_htlc_def Let_def)
qed

lemma example_ops [simp]:
  "proto_to_abs_locktime bitcoin_locktime_ops (LOCKTIME_BLOCKS 500) = Some 500"
  "proto_to_abs_locktime bitcoin_locktime_ops LOCKTIME_NOT_SET = None"
  "\<not> abs_locktime_is_seconds bitcoin_locktime_ops 500"
  "abs_locktime_to_blocks bitcoin_locktime_ops 500 = 500"
  by (simp_all add: bitcoin_locktime_ops_def)

theorem C7_add_htlc_validation_witness:
  "num_htlcs (side (remote_staging_cstate example_peer) THEIRS) \<le> 300
   \<and> num_htlcs (side (remote_staging_cstate full_peer) THEIRS) \<le> 300
   \<and> accept_pkt_htlc_add bitcoin_locktime_ops example_peer (example_add\<lparr>u_amount_msat := 0\<rparr>)
       = (Some (PKT_ERROR ''Invalid amount_msat''), example_peer, None)
   \<and> accept_pkt_htlc_add bitcoin_locktime_ops example_peer
        (example_add\<lparr>u_expiry := LOCKTIME_NOT_SET\<rparr>)
       = (Some (PKT_ERROR ''Invalid HTLC expiry''), example_peer, None)
   \<and> accept_pkt_htlc_add bitcoin_locktime_ops full_peer example_add
       = (Some (PKT_ERROR ''Too many HTLCs''), full_peer, None)
   \<and> fst (accept_pkt_htlc_add bitcoin_locktime_ops example_peer example_add) = None
   \<and> (\<exists>h. accept_pkt_htlc_add bitcoin_locktime_ops example_peer example_add
          = (None, example_peer\<lparr>htlcs := (htlcs example_peer)((REMOTE, 0) \<mapsto> h)\<rparr>, Some h)
        \<and> state h = RCVD_ADD_HTLC \<and> msatoshis h = 1000)"
proof -
  have l: "num_htlcs (side (remote_staging_cstate example_peer) THEIRS) \<le> 300"
    by (simp add: example_peer_def scenario_1_state_def)
  have f: "num_htlcs (side (remote_staging_cstate full_peer) THEIRS) \<le> 300"
    "\<not> num_htlcs (side (remote_staging_cstate full_peer) THEIRS) < 300"
    by (simp_all add: full_peer_def)
  have a: "fst (accept_pkt_htlc_add bitcoin_locktime_ops example_peer example_add) = None"
    by (simp add: accept_pkt_htlc_add_def example_add_def example_peer_def htlc_get_def
        scenario_1_state_def peer_new_htlc_def Let_def)
  have i: "u_id example_add = 0" "u_amount_msat example_add = 1000"
    "u_expiry example_add = LOCKTIME_BLOCKS 500"
    by (simp_all add: example_add_def)
  note z = C7_add_htlc_validation[OF l, of bitcoin_locktime_ops "example_add\<lparr>u_amount_msat := 0\<rparr>"]
  note x = C7_add_htlc_validation[OF l, of bitcoin_locktime_ops
      "example_add\<lparr>u_expiry := LOCKTIME_NOT_SET\<rparr>"]
  note t = C7_add_htlc_validation[OF f(1), of bitcoin_locktime_ops example_add]
  note s = C7_add_htlc_validation[OF l, of bitcoin_locktime_ops example_add]
  have 1: "accept_pkt_htlc_add bitcoin_locktime_ops example_peer (example_add\<lparr>u_amount_msat := 0\<rparr>)
       = (Some (PKT_ERROR ''Invalid amount_msat''), example_peer, None)"
    using z by simp
  have 2: "accept_pkt_htlc_add bitcoin_locktime_ops example_peer
        (example_add\<lparr>u_expiry := LOCKTIME_NOT_SET\<rparr>)
       = (Some (PKT_ERROR ''Invalid HTLC expiry''), example_peer, None)"
    using x i by simp
  have 3: "accept_pkt_htlc_add bitcoin_locktime_ops full_peer example_add
       = (Some (PKT_ERROR ''Too many HTLCs''), full_peer, None)"
    using t i f(2) by simp
  have 4: "\<exists>h. accept_pkt_htlc_add bitcoin_locktime_ops example_peer example_add
          = (None, example_peer\<lparr>htlcs := (htlcs example_peer)((REMOTE, 0) \<mapsto> h)\<rparr>, Some h)
        \<and> state h = RCVD_ADD_HTLC \<and> msatoshis h = 1000"
    using s a i by auto
  show ?thesis using l f(1) 1 2 3 a 4 by simp
qed

text \<open>
  C7 as stated fails twice. A packet whose expiry cannot be converted is refused with
  ``Invalid HTLC expiry'', though its amount is positive, its expiry is not in seconds,
  fewer than 300 HTLCs are counted and its id is new. And with 301 HTLCs counted the
  staging side does not have fewer than 300, yet the packet is accepted: the test is
  \<open>num_htlcs == 300\<close>, under a comment that forbids more than 300.
\<close>

theorem C7_limit_counterexample:
  "u_amount_msat (example_add\<lparr>u_expiry := LOCKTIME_NOT_SET\<rparr>) \<noteq> 0
   \<and> num_htlcs (side (remote_staging_cstate example_peer) THEIRS) < 300
   \<and> htlc_get (htlcs example_peer) (u_id (example_add\<lparr>u_expiry := LOCKTIME_NOT_SET\<rparr>)) REMOTE
       = None
   \<and> accept_pkt_htlc_add bitcoin_locktime_ops example_peer
        (example_add\<lparr>u_expiry := LOCKTIME_NOT_SET\<rparr>)
       = (Some (PKT_ERROR ''Invalid HTLC expiry''), example_peer, None)
   \<and> \<not> num_htlcs (side (remote_staging_cstate crowded_peer) THEIRS) < 300
   \<and> fst (accept_pkt_htlc_add bitcoin_locktime_ops crowded_peer example_add) = None"
  by (simp add: accept_pkt_htlc_add_def example_add_def example_peer_def crowded_peer_def
      htlc_get_def scenario_1_state_def peer_new_htlc_def Let_def)

text \<open>
  C6 (amended). \<open>accept_pkt_revocation\<close> asserts that \<open>their_prev_revocation_hash\<close> is
  set. Then it returns \<open>NULL\<close> if and only if the SHA-256 of the received preimage equals
  \<open>their_prev_revocation_hash\<close> and the shachain accepts the preimage at index
  \<open>0xFFFFFFFFFFFFFFFF - (remote.commit.commit_num - 1)\<close>; a wrong preimage gives the
  error packet ``complete preimage incorrect'', a refusal of the shachain ``preimage not
  next in shachain'', the peer unchanged in both cases. On success \<open>their_preimages\<close> is
  the shachain with the preimage added at that index, \<open>their_prev_revocation_hash\<close> is
  cleared and \<open>remote.next_revocation_hash\<close> is the packet's next hash; any revocation
  presented to the peer as it then stands fails the assertion.
\<close>

theorem C6_revocation:
  "(their_prev_revocation_hash p = None \<longrightarrow>
      accept_pkt_revocation sha256 shachain_add_hash p rv = Inl AssertionFailed)
   \<and> (their_prev_revocation_hash p = Some prev \<longrightarrow>
      ((\<exists>p'. accept_pkt_revocation sha256 shachain_add_hash p rv = Inr (None, p'))
        \<longleftrightarrow> sha256 (r_revocation_preimage rv) = prev
            \<and> shachain_add_hash (their_preimages p)
                 (0xFFFFFFFFFFFFFFFF - (remote_commit_num p - 1)) (r_revocation_preimage rv)
               \<noteq> None)
      \<and> (sha256 (r_revocation_preimage rv) \<noteq> prev \<longrightarrow>
           accept_pkt_revocation sha256 shachain_add_hash p rv
           = Inr (Some (PKT_ERROR ''complete preimage incorrect''), p))
      \<and> (sha256 (r_revocation_preimage rv) = prev
           \<and> shachain_add_hash (their_preimages p)
                (0xFFFFFFFFFFFFFFFF - (remote_commit_num p - 1)) (r_revocation_preimage rv)
              = None \<longrightarrow>
           accept_pkt_revocation sha256 shachain_add_hash p rv
           = Inr (Some (PKT_ERROR ''preimage not next in shachain''), p))
      \<and> (\<forall>chain. sha256 (r_revocation_preimage rv) = prev
           \<and> shachain_add_hash (their_preimages p)
                (0xFFFFFFFFFFFFFFFF - (remote_commit_num p - 1)) (r_revocation_preimage rv)
              = Some chain \<longrightarrow>
           accept_pkt_revocation sha256 shachain_add_hash p rv
           = Inr (None, p\<lparr>their_preimages := chain, their_prev_revocation_hash := None,
                           remote_next_revocation_hash := r_next_revocation_hash rv\<rparr>)
           \<and> (\<forall>rv'. accept_pkt_revocation sha256 shachain_add_hash
                       (p\<lparr>their_preimages := chain, their_prev_revocation_hash := None,
                          remote_next_revocation_hash := r_next_revocation_hash rv\<rparr>) rv'
                     = Inl AssertionFailed)))"
  by (auto simp: accept_pkt_revocation_def Let_def split: option.splits)

lemma ctz_all_ones: "count_trailing_zeroes 64 0xFFFFFFFFFFFFFFFF = 0"
  by (simp add: numeral_eq_Suc)

lemma replicate_65_update: "(replicate 65 z)[0 := x] = x # replicate 64 z"
proof -
  have "(65::nat) = Suc 64" by simp
  then have "replicate 65 z = z # replicate 64 z" by (simp only: replicate_Suc)
  then show ?thesis by simp
qed

lemma example_first_revocation:
  "accept_pkt_revocation stand_in_hash descending_shachain_add_hash example_peer example_revocation
   = Inr (None, revoked_peer)"
  by (simp add: accept_pkt_revocation_def example_peer_def example_revocation_def
      descending_shachain_add_hash_def ctz_all_ones revoked_peer_def Let_def
      replicate_65_update)

theorem C6_revocation_witness:
  "their_prev_revocation_hash example_peer = Some (stand_in_hash (replicate 32 97))
   \<and> stand_in_hash (r_revocation_preimage example_revocation) = stand_in_hash (replicate 32 97)
   \<and> descending_shachain_add_hash (their_preimages example_peer)
        (0xFFFFFFFFFFFFFFFF - (remote_commit_num example_peer - 1))
        (r_revocation_preimage example_revocation) = Some (their_preimages revoked_peer)
   \<and> accept_pkt_revocation stand_in_hash descending_shachain_add_hash example_peer
        example_revocation = Inr (None, revoked_peer)
   \<and> their_prev_revocation_hash revoked_peer = None
   \<and> accept_pkt_revocation stand_in_hash descending_shachain_add_hash revoked_peer
        example_revocation = Inl AssertionFailed
   \<and> accept_pkt_revocation stand_in_hash descending_shachain_add_hash
        (revoked_peer\<lparr>their_prev_revocation_hash := Some (stand_in_hash (replicate 32 97))\<rparr>)
        example_revocation
       = Inr (Some (PKT_ERROR ''preimage not next in shachain''),
              revoked_peer\<lparr>their_prev_revocation_hash := Some (stand_in_hash (replicate 32 97))\<rparr>)"
proof -
  have 1: "their_prev_revocation_hash example_peer = Some (stand_in_hash (replicate 32 97))"
    by (simp add: example_peer_def)
  have 2: "stand_in_hash (r_revocation_preimage example_revocation)
           = stand_in_hash (replicate 32 97)"
    by (simp add: example_revocation_def)
  have 3: "descending_shachain_add_hash (their_preimages example_peer)
        (0xFFFFFFFFFFFFFFFF - (remote_commit_num example_peer - 1))
        (r_revocation_preimage example_revocation) = Some (their_preimages revoked_peer)"
    by (simp add: example_peer_def example_revocation_def descending_shachain_add_hash_def
        ctz_all_ones revoked_peer_def Let_def replicate_65_update)
  have 4: "their_prev_revocation_hash revoked_peer = None" by (simp add: revoked_peer_def)
  have 5: "revoked_peer = example_peer\<lparr>their_preimages := their_preimages revoked_peer,
       their_prev_revocation_hash := None,
       remote_next_revocation_hash := r_next_revocation_hash example_revocation\<rparr>"
    by (simp add: revoked_peer_def example_revocation_def)
  have 6: "their_prev_revocation_hash
             (revoked_peer\<lparr>their_prev_revocation_hash := Some (stand_in_hash (replicate 32 97))\<rparr>)
           = Some (stand_in_hash (replicate 32 97))" by simp
  have 7: "descending_shachain_add_hash
        (their_preimages
          (revoked_peer\<lparr>their_prev_revocation_hash := Some (stand_in_hash (replicate 32 97))\<rparr>))
        (0xFFFFFFFFFFFFFFFF
         - (remote_commit_num
             (revoked_peer\<lparr>their_prev_revocation_hash := Some (stand_in_hash (replicate 32 97))\<rparr>)
            - 1))
        (r_revocation_preimage example_revocation) = None"
    by (simp add: revoked_peer_def example_peer_def descending_shachain_add_hash_def)
  note a = C6_revocation[of example_peer stand_in_hash descending_shachain_add_hash
      example_revocation "stand_in_hash (replicate 32 97)"]
  note b = C6_revocation[of revoked_peer stand_in_hash descending_shachain_add_hash
      example_revocation]
  note c = C6_revocation[of
      "revoked_peer\<lparr>their_prev_revocation_hash := Some (stand_in_hash (replicate 32 97))\<rparr>"
      stand_in_hash descending_shachain_add_hash example_revocation
      "stand_in_hash (replicate 32 97)"]
  have A: "accept_pkt_revocation stand_in_hash descending_shachain_add_hash example_peer
        example_revocation = Inr (None, revoked_peer)"
    using a 1 2 3 5 by simp
  have B: "accept_pkt_revocation stand_in_hash descending_shachain_add_hash revoked_peer
        example_revocation = Inl AssertionFailed"
    using b 4 by simp
  have C: "accept_pkt_revocation stand_in_hash descending_shachain_add_hash
        (revoked_peer\<lparr>their_prev_revocation_hash := Some (stand_in_hash (replicate 32 97))\<rparr>)
        example_revocation
       = Inr (Some (PKT_ERROR ''preimage not next in shachain''),
              revoked_peer\<lparr>their_prev_revocation_hash := Some (stand_in_hash (replicate 32 97))\<rparr>)"
    using c 6 2 7 by simp
  show ?thesis using 1 2 3 4 A B C by simp
qed

text \<open>
  C6 as stated fails at its last sentence: the first revocation clears
  \<open>their_prev_revocation_hash\<close>, and the same packet presented again meets
  \<open>assert(peer->their_prev_revocation_hash)\<close>, not an error packet.
\<close>

theorem C6_second_revocation_counterexample:
  "accept_pkt_revocation stand_in_hash descending_shachain_add_hash example_peer
     example_revocation = Inr (None, revoked_peer)
   \<and> accept_pkt_revocation stand_in_hash descending_shachain_add_hash revoked_peer
       example_revocation = Inl AssertionFailed"
  using example_first_revocation
  by (simp add: accept_pkt_revocation_def revoked_peer_def)

end
